(* ===== verification/Prelude.thy ===== *)
theory Prelude
  imports Complex_Main "HOL-Library.Sublist"
begin

text \<open>
  Shared vocabulary of the model of \<^verbatim>\<open>src/script.js\<close>: the JavaScript list and string
  operations the script calls (\<^verbatim>\<open>Array.prototype.slice\<close> with a negative start,
  \<^verbatim>\<open>Array.prototype.join\<close>, the CSS substring attribute selector), the outcome of a
  handler that may throw, and the collections of rewrite rules the component theories
  share.
\<close>

named_theorems js_simps "evaluation rules of the host operations the script calls"
named_theorems dom_simps "rules about the DOM state of the modelled handlers"

subsection \<open>Handlers that may throw\<close>

text \<open>
  A JavaScript exception aborts the rest of a handler, but what the handler wrote to the
  DOM or to storage before the throw stays written: the event loop reports the exception
  and goes on. A handler therefore returns its state in both cases.
\<close>

datatype js_error = TypeError | SyntaxError | QuotaExceededError | IndexSizeError

datatype 's outcome = Done 's | Threw js_error 's

primrec state_of :: "'s outcome \<Rightarrow> 's" where
  "state_of (Done s) = s"
| "state_of (Threw e s) = s"

primrec threw :: "'s outcome \<Rightarrow> js_error option" where
  "threw (Done s) = None"
| "threw (Threw e s) = Some e"

subsection \<open>Arrays\<close>

text \<open>
  Reading \<^verbatim>\<open>xs[i]\<close> gives \<^verbatim>\<open>undefined\<close> (here \<open>None\<close>) outside the array.
\<close>

definition js_index :: "'a list \<Rightarrow> int \<Rightarrow> 'a option" where
  "js_index xs i = (if 0 \<le> i \<and> i < int (length xs) then Some (xs ! nat i) else None)"

text \<open>
  \<^verbatim>\<open>xs.forEach(f)\<close> where \<open>f\<close> mutates the element (an object) and a shared state:
  each call returns the element's new value and the state, and an exception stops the
  loop with the elements processed so far already changed.
\<close>

fun js_for_each :: "('a \<Rightarrow> 's \<Rightarrow> ('a \<times> 's) outcome) \<Rightarrow> 'a list \<Rightarrow> 's \<Rightarrow> ('a list \<times> 's) outcome" where
  "js_for_each f [] s = Done ([], s)"
| "js_for_each f (x # xs) s =
     (case f x s of
        Threw e (x', s') \<Rightarrow> Threw e (x' # xs, s')
      | Done (x', s') \<Rightarrow>
          (case js_for_each f xs s' of
             Done (xs', s'') \<Rightarrow> Done (x' # xs', s'')
           | Threw e (xs', s'') \<Rightarrow> Threw e (x' # xs', s'')))"

text \<open>
  \<^verbatim>\<open>xs.slice(-n)\<close>: the start index is \<open>max (length xs - n) 0\<close>, so a shorter array
  is returned whole. On \<open>nat\<close>, \<open>length xs - n\<close> already stops at 0.
\<close>

definition slice_last :: "nat \<Rightarrow> 'a list \<Rightarrow> 'a list" where
  "slice_last n xs = drop (length xs - n) xs"

text \<open>\<^verbatim>\<open>xs.join(sep)\<close> on an array of strings.\<close>

fun js_join :: "'a list \<Rightarrow> 'a list list \<Rightarrow> 'a list" where
  "js_join sep [] = []"
| "js_join sep [x] = x"
| "js_join sep (x # y # zs) = x @ sep @ js_join sep (y # zs)"

text \<open>An integral number printed by \<^verbatim>\<open>ToString\<close> (as \<^verbatim>\<open>JSON.stringify\<close> and template
  literals do): an integer in decimal.\<close>

fun nat_digits :: "nat \<Rightarrow> string" where
  "nat_digits n = (if n < 10 then [char_of (48 + n)] else nat_digits (n div 10) @ [char_of (48 + n mod 10)])"

declare nat_digits.simps [simp del]

definition int_lexeme :: "int \<Rightarrow> string" where
  "int_lexeme z = (if z < 0 then CHR ''-'' # nat_digits (nat (- z)) else nat_digits (nat z))"

subsection \<open>Strings\<close>

text \<open>
  The CSS attribute selector \<^verbatim>\<open>[href*="v"]\<close> matches an attribute that contains
  \<open>v\<close> as a substring; by the Selectors specification an empty \<open>v\<close> matches nothing.
\<close>

definition css_contains :: "string \<Rightarrow> string \<Rightarrow> bool" where
  "css_contains attr v \<longleftrightarrow> v \<noteq> [] \<and> sublist v attr"

subsection \<open>Shared lemmas\<close>

lemma length_slice_last [simp]: "length (slice_last n xs) = min n (length xs)"
  by (simp add: slice_last_def)

lemma slice_last_short [simp]: "length xs \<le> n \<Longrightarrow> slice_last n xs = xs"
  by (simp add: slice_last_def)

lemma slice_last_suffix: "suffix (slice_last n xs) xs"
  by (simp add: slice_last_def suffix_drop)

lemma slice_last_append:
  "slice_last n (slice_last n xs @ ys) = slice_last n (xs @ ys)"
  by (cases "length xs \<le> n") (auto simp: slice_last_def add.commute)

text \<open>Trimming before appending one element does not change the last \<open>n\<close> elements.\<close>

lemma slice_last_snoc [simp]:
  "slice_last n (slice_last n xs @ [x]) = slice_last n (xs @ [x])"
  by (rule slice_last_append)

text \<open>
  Joining with a one-character separator is injective on arrays of non-empty fields free
  of the separator, even against arrays that may also hold the separator itself as a field.
\<close>

lemma sep_split:
  "c \<notin> set x \<Longrightarrow> c \<notin> set y \<Longrightarrow> x @ c # r = y @ c # r' \<Longrightarrow> x = y \<and> r = r'"
proof (induction x arbitrary: y)
  case Nil
  then show ?case by (cases y) auto
next
  case (Cons a x)
  then show ?case by (cases y) auto
qed

lemma js_join_inj:
  assumes "\<forall>y\<in>set ys. y \<noteq> [] \<and> c \<notin> set y"
    and "\<forall>x\<in>set xs. x \<noteq> [] \<and> (x = [c] \<or> c \<notin> set x)"
    and "js_join [c] xs = js_join [c] ys"
  shows "xs = ys"
  using assms
proof (induction "[c]" xs arbitrary: ys rule: js_join.induct)
  case 1
  then show ?case by (cases ys rule: remdups_adj.cases) auto
next
  case (2 x)
  note prems = "2.prems"
  show ?case
  proof (cases ys rule: remdups_adj.cases)
    case 1
    with prems show ?thesis by simp
  next
    case (2 y)
    with prems show ?thesis by simp
  next
    case (3 y1 y2 zs)
    with prems have x: "x = y1 @ c # js_join [c] (y2 # zs)" by simp
    then have "c \<in> set x" by simp
    with prems(2) have "x = [c]" by simp
    with x have "y1 = []" by (cases y1) simp_all
    with prems(1) 3 show ?thesis by simp
  qed
next
  case (3 x y zs)
  note IH = "3"(1) and prems = "3"(2-4)
  show ?case
  proof (cases ys rule: remdups_adj.cases)
    case 1
    with prems show ?thesis by auto
  next
    case (2 y1)
    with prems(3) have "y1 = x @ c # js_join [c] (y # zs)" by simp
    then have "c \<in> set y1" by simp
    with prems 2 show ?thesis by auto
  next
    case (3 y1 y2 zs')
    note ys = this
    have xs: "x @ c # js_join [c] (y # zs) = y1 @ c # js_join [c] (y2 # zs')"
      using prems(3) ys by simp
    show ?thesis
    proof (cases "x = [c]")
      case True
      with xs have "c # c # js_join [c] (y # zs) = y1 @ c # js_join [c] (y2 # zs')" by simp
      with prems(1) ys show ?thesis by (cases y1) auto
    next
      case False
      with prems(2) have "c \<notin> set x" by auto
      moreover from prems(1) ys have "c \<notin> set y1" by simp
      ultimately have "x = y1" and "js_join [c] (y # zs) = js_join [c] (y2 # zs')"
        using sep_split [OF _ _ xs] by blast+
      with IH [of "y2 # zs'"] prems ys show ?thesis by auto
    qed
  qed
qed

lemma list_all_slice_last: "list_all P xs \<Longrightarrow> list_all P (slice_last n xs)"
  by (auto simp: slice_last_def list_all_iff dest: in_set_dropD)

lemma fold_slice_last:
  "fold (\<lambda>x xs. slice_last n (xs @ [x])) ys (slice_last n xs) = slice_last n (xs @ ys)"
proof (induction ys arbitrary: xs)
  case Nil
  then show ?case by simp
next
  case (Cons y ys)
  then show ?case by (simp add: slice_last_append)
qed

lemma js_index_Some [simp]:
  "0 \<le> i \<Longrightarrow> i < int (length xs) \<Longrightarrow> js_index xs i = Some (xs ! nat i)"
  by (simp add: js_index_def)

lemma js_for_each_Cons_Done:
  "f x s = Done (x', s') \<Longrightarrow>
   js_for_each f (x # xs) s =
     (case js_for_each f xs s' of
        Done (xs', s'') \<Rightarrow> Done (x' # xs', s'')
      | Threw e (xs', s'') \<Rightarrow> Threw e (x' # xs', s''))"
  by simp

lemma js_for_each_Cons_Threw:
  "f x s = Threw e (x', s') \<Longrightarrow> js_for_each f (x # xs) s = Threw e (x' # xs, s')"
  by simp

text \<open>
  The loop runs to the end when each call returns normally on elements and states that
  satisfy \<open>P\<close> and \<open>Q\<close> and keeps them; every element then satisfies \<open>P\<close>.
\<close>

lemma js_for_each_Done:
  assumes step: "\<And>x s. P x \<Longrightarrow> Q s \<Longrightarrow> \<exists>x' s'. f x s = Done (x', s') \<and> P x' \<and> Q s'"
  shows "list_all P xs \<Longrightarrow> Q s \<Longrightarrow>
    \<exists>ys s'. js_for_each f xs s = Done (ys, s') \<and> list_all P ys \<and> length ys = length xs \<and> Q s'"
proof (induction xs arbitrary: s)
  case Nil
  then show ?case by simp
next
  case (Cons x xs)
  from Cons.prems have "P x" and "list_all P xs" by simp_all
  with step [of x s] Cons.prems(2) obtain x' s' where
    fx: "f x s = Done (x', s')" and "P x'" and "Q s'"
    by blast
  from Cons.IH [OF \<open>list_all P xs\<close> \<open>Q s'\<close>] obtain ys s'' where
    "js_for_each f xs s' = Done (ys, s'')" and "list_all P ys" and "length ys = length xs" and "Q s''"
    by blast
  with fx \<open>P x'\<close> show ?case by (simp add: js_for_each_Cons_Done)
qed

lemma nth_list_update_if: "j < length xs \<Longrightarrow> xs[k := x] ! j = (if k = j then x else xs ! j)"
  by (cases "k < length xs") (auto simp: nth_list_update)

lemma js_join_Cons: "js_join sep (x # xs) = x @ (if xs = [] then [] else sep @ js_join sep xs)"
  by (cases xs) simp_all


end
