(* ===== verification/Timers.thy ===== *)
theory Timers
  imports Prelude
begin

text \<open>
  The host's timer queue and event loop, as the script uses them: \<^verbatim>\<open>setTimeout\<close>,
  \<^verbatim>\<open>clearTimeout\<close> and the order in which callbacks run. Time is in whole
  milliseconds. A timer is a handle, the time it is due and the callback, which each
  component names by a value of its own datatype. Due timers fire earliest first, and in
  the order they were set when two are due at the same time. A user event at time \<open>t\<close>
  can only happen when the clock has not passed \<open>t\<close> and no timer is due before \<open>t\<close>
  (such a timer fires first). The driver \<open>drive\<close> runs a component's two handlers
  (one for user events, one for its timer callbacks) over a trace of inputs; a trace
  that no browser can produce gives \<open>None\<close>.
\<close>

record 'a timers =
  clock :: nat
  next_handle :: nat
  pending :: "(nat \<times> nat \<times> 'a) list"

definition no_timers :: "'a timers" where
  "no_timers = \<lparr>clock = 0, next_handle = 1, pending = []\<rparr>"

definition set_timeout :: "nat \<Rightarrow> 'a \<Rightarrow> 'a timers \<Rightarrow> nat \<times> 'a timers" where
  "set_timeout d f q =
     (next_handle q,
      q\<lparr>next_handle := Suc (next_handle q),
        pending := pending q @ [(next_handle q, clock q + d, f)]\<rparr>)"

definition clear_timeout :: "nat \<Rightarrow> 'a timers \<Rightarrow> 'a timers" where
  "clear_timeout h q = q\<lparr>pending := filter (\<lambda>(h', _, _). h' \<noteq> h) (pending q)\<rparr>"

text \<open>The timer that fires next: least due time, the earliest set among equals.\<close>

fun earliest :: "(nat \<times> nat \<times> 'a) list \<Rightarrow> (nat \<times> nat \<times> 'a) option" where
  "earliest [] = None"
| "earliest (x # xs) =
     (case earliest xs of
        None \<Rightarrow> Some x
      | Some y \<Rightarrow> if fst (snd y) < fst (snd x) then Some y else Some x)"

definition pop_timer :: "'a timers \<Rightarrow> ('a \<times> 'a timers) option" where
  "pop_timer q =
     (case earliest (pending q) of
        None \<Rightarrow> None
      | Some (h, due, f) \<Rightarrow>
          Some (f, q\<lparr>clock := max (clock q) due, pending := remove1 (h, due, f) (pending q)\<rparr>))"

definition timely :: "nat \<Rightarrow> 'a timers \<Rightarrow> bool" where
  "timely t q \<longleftrightarrow> clock q \<le> t \<and> list_all (\<lambda>(_, due, _). t \<le> due) (pending q)"

datatype 'e input = Event nat 'e | Fire

type_synonym ('s, 'a) sys = "'s \<times> 'a timers"

fun drive ::
  "('e \<Rightarrow> ('s, 'a) sys \<Rightarrow> ('s, 'a) sys) \<Rightarrow> ('a \<Rightarrow> ('s, 'a) sys \<Rightarrow> ('s, 'a) sys) \<Rightarrow>
   'e input list \<Rightarrow> ('s, 'a) sys \<Rightarrow> ('s, 'a) sys option" where
  "drive H F [] c = Some c"
| "drive H F (Event t e # is) (s, q) =
     (if timely t q then drive H F is (H e (s, q\<lparr>clock := t\<rparr>)) else None)"
| "drive H F (Fire # is) (s, q) =
     (case pop_timer q of
        None \<Rightarrow> drive H F is (s, q)
      | Some (f, q') \<Rightarrow> drive H F is (F f (s, q')))"

text \<open>The user events of a trace, in order.\<close>

fun event_payloads :: "'e input list \<Rightarrow> 'e list" where
  "event_payloads [] = []"
| "event_payloads (Event t e # is) = e # event_payloads is"
| "event_payloads (Fire # is) = event_payloads is"

subsection \<open>Laws of the timer queue\<close>

lemma earliest_None [simp]: "earliest xs = None \<longleftrightarrow> xs = []"
  by (induction xs) (auto split: option.splits)

lemma earliest_in: "earliest xs = Some x \<Longrightarrow> x \<in> set xs"
  by (induction xs arbitrary: x) (auto split: option.splits if_splits)

lemma earliest_least: "earliest xs = Some x \<Longrightarrow> y \<in> set xs \<Longrightarrow> fst (snd x) \<le> fst (snd y)"
  by (induction xs arbitrary: x) (fastforce split: option.splits if_splits)+

lemma earliest_single [simp]: "earliest [x] = Some x"
  by simp

lemma pending_set_timeout [simp]:
  "pending (snd (set_timeout d f q)) = pending q @ [(next_handle q, clock q + d, f)]"
  by (simp add: set_timeout_def)

lemma clock_set_timeout [simp]: "clock (snd (set_timeout d f q)) = clock q"
  by (simp add: set_timeout_def)

lemma next_handle_set_timeout [simp]:
  "next_handle (snd (set_timeout d f q)) = Suc (next_handle q)"
  by (simp add: set_timeout_def)

lemma fst_set_timeout [simp]: "fst (set_timeout d f q) = next_handle q"
  by (simp add: set_timeout_def)

lemma pop_timer_single [simp]:
  "pending q = [(h, due, f)] \<Longrightarrow>
   pop_timer q = Some (f, q\<lparr>clock := max (clock q) due, pending := []\<rparr>)"
  by (simp add: pop_timer_def)

lemma pop_timer_None: "pop_timer q = None \<longleftrightarrow> pending q = []"
  by (cases "earliest (pending q)") (auto simp: pop_timer_def)

subsection \<open>Laws of the driver\<close>

lemma drive_append:
  "drive H F (xs @ ys) c =
     (case drive H F xs c of None \<Rightarrow> None | Some c' \<Rightarrow> drive H F ys c')"
  by (induction H F xs c rule: drive.induct) (auto split: option.splits)

text \<open>
  The interface a component discharges: if its event handler and its timer callbacks keep
  a property of its own state, every run of the driver keeps it. The handler need keep it
  only for the events the run delivers.
\<close>

lemma drive_inv_on:
  assumes H: "\<And>e s q. e \<in> E \<Longrightarrow> I s \<Longrightarrow> I (fst (H e (s, q)))"
    and F: "\<And>f s q. I s \<Longrightarrow> I (fst (F f (s, q)))"
    and run: "drive H F is c = Some c'"
    and events: "set (event_payloads is) \<subseteq> E"
    and start: "I (fst c)"
  shows "I (fst c')"
  using run events start
proof (induction "is" arbitrary: c)
  case Nil
  then show ?case by simp
next
  case (Cons i "is")
  obtain s q where c: "c = (s, q)" by (cases c)
  show ?case
  proof (cases i)
    case (Event t e)
    with Cons.prems c show ?thesis
      by (auto split: if_splits intro: Cons.IH H)
  next
    case Fire
    with Cons.prems c show ?thesis
      by (auto split: option.splits intro: Cons.IH F)
  qed
qed

lemma drive_inv:
  assumes H: "\<And>e s q. I s \<Longrightarrow> I (fst (H e (s, q)))"
    and F: "\<And>f s q. I s \<Longrightarrow> I (fst (F f (s, q)))"
    and run: "drive H F is c = Some c'"
    and start: "I (fst c)"
  shows "I (fst c')"
  by (rule drive_inv_on [where E = UNIV, OF H F run _ start]) simp_all

text \<open>
  The second interface: a part of the state that only user events change, each by a
  function of the event, is after a run the fold of that function over the trace's events.
\<close>

lemma drive_project:
  assumes H: "\<And>e s q. g (fst (H e (s, q))) = u e (g s)"
    and F: "\<And>f s q. g (fst (F f (s, q))) = g s"
    and run: "drive H F is c = Some c'"
  shows "g (fst c') = fold u (event_payloads is) (g (fst c))"
  using run
proof (induction "is" arbitrary: c)
  case Nil
  then show ?case by simp
next
  case (Cons i "is")
  obtain s q where c: "c = (s, q)" by (cases c)
  show ?case
  proof (cases i)
    case (Event t e)
    with Cons.prems c have "drive H F is (H e (s, q\<lparr>clock := t\<rparr>)) = Some c'"
      by (simp split: if_splits)
    from Cons.IH [OF this] Event c show ?thesis by (simp add: H)
  next
    case Fire
    with Cons.prems c show ?thesis
      by (auto split: option.splits dest: Cons.IH simp: F)
  qed
qed

text \<open>Firing with no timer pending changes nothing.\<close>

lemma drive_idle:
  "pending q = [] \<Longrightarrow> drive H F (replicate n Fire) (s, q) = Some (s, q)"
  by (induction n) (simp_all add: pop_timer_def)

end
