(* ===== verification/Konami.thy ===== *)
theory Konami
  imports Timers
begin

text \<open>
  The Konami-code easter egg of \<^verbatim>\<open>src/script.js\<close> (lines 349--362): a keydown
  listener keeps the last ten key values in \<^verbatim>\<open>konamiCode\<close>; when their
  comma-joined string equals that of \<^verbatim>\<open>konamiPattern\<close> it sets the body's
  animation to the rainbow effect and sets a 5000 ms timer that clears it.
\<close>

definition konamiPattern :: "string list" where
  "konamiPattern = [''ArrowUp'', ''ArrowUp'', ''ArrowDown'', ''ArrowDown'', ''ArrowLeft'',
                    ''ArrowRight'', ''ArrowLeft'', ''ArrowRight'', ''b'', ''a'']"

record konami_state =
  konamiCode :: "string list"
  body_animation :: string

datatype konami_timer = ClearRainbow

definition rainbow :: string where
  "rainbow = ''rainbow 2s linear infinite''"

definition konami_init :: konami_state where
  "konami_init = \<lparr>konamiCode = [], body_animation = ''''\<rparr>"

text \<open>The condition of line 356, on the trimmed window.\<close>

definition konami_match :: "string list \<Rightarrow> bool" where
  "konami_match code \<longleftrightarrow> js_join '','' code = js_join '','' konamiPattern"

definition konami_keydown ::
  "string \<Rightarrow> (konami_state, konami_timer) sys \<Rightarrow> (konami_state, konami_timer) sys" where
  "konami_keydown key c =
     (let (s, q) = c;
          code = slice_last 10 (konamiCode s @ [key]);
          s' = s\<lparr>konamiCode := code\<rparr>
      in if konami_match code
         then (s'\<lparr>body_animation := rainbow\<rparr>, snd (set_timeout 5000 ClearRainbow q))
         else (s', q))"

fun konami_fire ::
  "konami_timer \<Rightarrow> (konami_state, konami_timer) sys \<Rightarrow> (konami_state, konami_timer) sys" where
  "konami_fire ClearRainbow (s, q) = (s\<lparr>body_animation := ''''\<rparr>, q)"

definition konami_run ::
  "string input list \<Rightarrow> (konami_state, konami_timer) sys \<Rightarrow> (konami_state, konami_timer) sys option" where
  "konami_run = drive konami_keydown konami_fire"

text \<open>
  A key value as \<^verbatim>\<open>KeyboardEvent.key\<close> delivers it: never empty, and either the comma
  key itself or a value without a comma (\<^verbatim>\<open>ArrowUp\<close>, \<^verbatim>\<open>b\<close>, \<^verbatim>\<open>Enter\<close>).
\<close>

definition key_value :: "string \<Rightarrow> bool" where
  "key_value k \<longleftrightarrow> k \<noteq> [] \<and> (k = '','' \<or> CHR '','' \<notin> set k)"

definition konami_trace :: "nat \<Rightarrow> string list \<Rightarrow> string input list" where
  "konami_trace t ks = map2 Event [t..<t + length ks] ks"

subsection \<open>Helper lemmas\<close>

lemma konamiPattern_fields: "\<forall>y\<in>set konamiPattern. y \<noteq> [] \<and> CHR '','' \<notin> set y"
  by (simp add: konamiPattern_def)

lemma key_values_fields:
  "list_all key_value code \<Longrightarrow> \<forall>x\<in>set code. x \<noteq> [] \<and> (x = [CHR '',''] \<or> CHR '','' \<notin> set x)"
  by (auto simp: key_value_def list_all_iff)

text \<open>For real key values the string comparison of line 356 is list equality.\<close>

lemma konami_match_iff:
  assumes "list_all key_value code"
  shows "konami_match code \<longleftrightarrow> code = konamiPattern"
proof
  assume "konami_match code"
  then have "js_join [CHR '',''] code = js_join [CHR '',''] konamiPattern"
    by (simp add: konami_match_def)
  with konamiPattern_fields key_values_fields [OF assms]
  show "code = konamiPattern" by (rule js_join_inj)
qed (simp add: konami_match_def)

lemma konami_match_window:
  "list_all key_value (konamiCode s @ [key]) \<Longrightarrow>
   konami_match (slice_last 10 (konamiCode s @ [key])) \<longleftrightarrow>
   slice_last 10 (konamiCode s @ [key]) = konamiPattern"
  by (rule konami_match_iff [OF list_all_slice_last])

lemma konami_keydown_code [simp]:
  "konamiCode (fst (konami_keydown key c)) = slice_last 10 (konamiCode (fst c) @ [key])"
  by (cases c) (simp add: konami_keydown_def Let_def)

lemma konami_fire_code [simp]: "konamiCode (fst (konami_fire f c)) = konamiCode (fst c)"
  by (cases c, cases f) simp

subsection \<open>Properties\<close>

text \<open>
  C1. One keydown appends the key, keeps the last ten keys, and starts the rainbow with
  a 5000 ms clearing timer exactly when those ten keys are the Konami pattern; otherwise
  it changes nothing else.
\<close>

theorem konami_keydown_eq:
  assumes "list_all key_value (konamiCode s @ [key])"
  shows "konami_keydown key (s, q) =
    (if slice_last 10 (konamiCode s @ [key]) = konamiPattern
     then (s\<lparr>konamiCode := konamiPattern, body_animation := rainbow\<rparr>,
           snd (set_timeout 5000 ClearRainbow q))
     else (s\<lparr>konamiCode := slice_last 10 (konamiCode s @ [key])\<rparr>, q))"
  using konami_match_window [OF assms]
  by (simp add: konami_keydown_def Let_def)

theorem konami_keydown_eq_witness:
  "list_all key_value (konamiCode (konami_init\<lparr>konamiCode := butlast konamiPattern\<rparr>) @ [''a'']) \<and>
   konami_keydown ''a'' (konami_init\<lparr>konamiCode := butlast konamiPattern\<rparr>, no_timers) =
    (if slice_last 10 (konamiCode (konami_init\<lparr>konamiCode := butlast konamiPattern\<rparr>) @ [''a'']) = konamiPattern
     then (konami_init\<lparr>konamiCode := butlast konamiPattern, konamiCode := konamiPattern, body_animation := rainbow\<rparr>,
           snd (set_timeout 5000 ClearRainbow no_timers))
     else (konami_init\<lparr>konamiCode := butlast konamiPattern,
             konamiCode := slice_last 10 (konamiCode (konami_init\<lparr>konamiCode := butlast konamiPattern\<rparr>) @ [''a''])\<rparr>,
           no_timers))"
proof -
  have h: "list_all key_value (konamiCode (konami_init\<lparr>konamiCode := butlast konamiPattern\<rparr>) @ [''a''])"
    by (simp add: konamiPattern_def key_value_def)
  show ?thesis by (rule conjI [OF h konami_keydown_eq [OF h]])
qed

text \<open>
  C2. The window is a FIFO of the last ten keys: after any run of the page, the array
  \<^verbatim>\<open>konamiCode\<close> holds the last ten keys pressed (all of them when fewer were
  pressed); the timer callback never touches it.
\<close>

theorem konami_window:
  assumes "konami_run is c = Some c'" and "length (konamiCode (fst c)) \<le> 10"
  shows "konamiCode (fst c') = slice_last 10 (konamiCode (fst c) @ event_payloads is)"
proof -
  have "konamiCode (fst c') =
      fold (\<lambda>k code. slice_last 10 (code @ [k])) (event_payloads is) (konamiCode (fst c))"
    by (rule drive_project [OF _ _ assms(1) [unfolded konami_run_def]]) simp_all
  with assms(2) show ?thesis
    using fold_slice_last [of 10 "event_payloads is" "konamiCode (fst c)"] by simp
qed

theorem konami_window_witness:
  "konamiCode (konami_init\<lparr>konamiCode := drop 2 konamiPattern @ [''x'', ''ArrowUp'']\<rparr>) =
     slice_last 10 (konamiCode (konami_init\<lparr>konamiCode := konamiPattern\<rparr>) @
                    event_payloads (konami_trace 0 [''x'', ''ArrowUp'']))"
proof -
  have run: "konami_run (konami_trace 0 [''x'', ''ArrowUp''])
      (konami_init\<lparr>konamiCode := konamiPattern\<rparr>, no_timers) =
     Some (konami_init\<lparr>konamiCode := drop 2 konamiPattern @ [''x'', ''ArrowUp'']\<rparr>,
           no_timers\<lparr>clock := 1\<rparr>)"
    by code_simp
  have len: "length (konamiCode (fst (konami_init\<lparr>konamiCode := konamiPattern\<rparr>, no_timers :: konami_timer timers))) \<le> 10"
    by (simp add: konamiPattern_def)
  from konami_window [OF run len] show ?thesis by simp
qed

text \<open>
  C3. Completing the pattern at time \<open>t\<close> starts the rainbow at once, and the one timer
  it sets fires at \<open>t + 5000\<close> and clears it.
\<close>

theorem konami_rainbow_cleared_after_5000:
  assumes "clock q \<le> t" and "pending q = []"
    and "list_all key_value (konamiCode s @ [key])"
    and "slice_last 10 (konamiCode s @ [key]) = konamiPattern"
  shows "konami_run [Event t key] (s, q) =
           Some (s\<lparr>konamiCode := konamiPattern, body_animation := rainbow\<rparr>,
                 q\<lparr>clock := t, next_handle := Suc (next_handle q),
                   pending := [(next_handle q, t + 5000, ClearRainbow)]\<rparr>) \<and>
         konami_run [Event t key, Fire] (s, q) =
           Some (s\<lparr>konamiCode := konamiPattern, body_animation := ''''\<rparr>,
                 q\<lparr>clock := t + 5000, next_handle := Suc (next_handle q), pending := []\<rparr>)"
  using assms konami_match_window [OF assms(3)]
  by (simp add: konami_run_def timely_def konami_keydown_def Let_def set_timeout_def pop_timer_def)

theorem konami_rainbow_cleared_after_5000_witness:
  "konami_run [Event 9 ''a''] (konami_init\<lparr>konamiCode := butlast konamiPattern\<rparr>, no_timers) =
     Some (konami_init\<lparr>konamiCode := butlast konamiPattern, konamiCode := konamiPattern,
             body_animation := rainbow\<rparr>,
           no_timers\<lparr>clock := 9, next_handle := 2, pending := [(1, 5009, ClearRainbow)]\<rparr>) \<and>
   konami_run [Event 9 ''a'', Fire] (konami_init\<lparr>konamiCode := butlast konamiPattern\<rparr>, no_timers) =
     Some (konami_init\<lparr>konamiCode := butlast konamiPattern, konamiCode := konamiPattern,
             body_animation := ''''\<rparr>,
           no_timers\<lparr>clock := 5009, next_handle := 2, pending := []\<rparr>)"
proof -
  have h1: "clock (no_timers :: konami_timer timers) \<le> 9"
    and h2: "pending (no_timers :: konami_timer timers) = []"
    by (simp_all add: no_timers_def)
  have h3: "list_all key_value (konamiCode (konami_init\<lparr>konamiCode := butlast konamiPattern\<rparr>) @ [''a''])"
    and h4: "slice_last 10 (konamiCode (konami_init\<lparr>konamiCode := butlast konamiPattern\<rparr>) @ [''a'']) =
         konamiPattern"
    by (simp_all add: konamiPattern_def key_value_def slice_last_def)
  show ?thesis
    using konami_rainbow_cleared_after_5000 [OF h1 h2 h3 h4] by (simp add: no_timers_def)
qed

text \<open>
  C4. The clearing timer is not tied to the activation that set it: when the pattern is
  completed again at time \<open>t\<close> while the timer of an earlier activation is still pending,
  due at \<open>due < t + 5000\<close>, the next timer to fire is the earlier one. It clears the
  rainbow at \<open>due\<close>, less than 5000 ms after the second activation, and the second
  activation's timer stays pending, due at \<open>t + 5000\<close>.
\<close>

theorem konami_reactivation_cut_short:
  assumes "pending q = [(h, due, ClearRainbow)]" and "clock q \<le> t" and "t \<le> due" and "due < t + 5000"
    and "list_all key_value (konamiCode s @ [key])"
    and "slice_last 10 (konamiCode s @ [key]) = konamiPattern"
  shows "konami_run [Event t key, Fire] (s, q) =
           Some (s\<lparr>konamiCode := konamiPattern, body_animation := ''''\<rparr>,
                 q\<lparr>clock := due, next_handle := Suc (next_handle q),
                   pending := [(next_handle q, t + 5000, ClearRainbow)]\<rparr>)"
  using assms konami_match_window [OF assms(5)]
  by (simp add: konami_run_def timely_def konami_keydown_def Let_def set_timeout_def pop_timer_def)

theorem konami_reactivation_cut_short_witness:
  "konami_run [Event 3009 ''a'', Fire]
     (konami_init\<lparr>konamiCode := butlast konamiPattern\<rparr>,
      \<lparr>clock = 3008, next_handle = 2, pending = [(1, 5009, ClearRainbow)]\<rparr>) =
   Some (konami_init\<lparr>konamiCode := konamiPattern, body_animation := ''''\<rparr>,
         \<lparr>clock = 5009, next_handle = 3, pending = [(2, 8009, ClearRainbow)]\<rparr>)"
proof -
  have h1: "pending \<lparr>clock = 3008::nat, next_handle = 2::nat, pending = [(1::nat, 5009::nat, ClearRainbow)]\<rparr> =
      [(1, 5009, ClearRainbow)]"
    and h2: "clock \<lparr>clock = 3008::nat, next_handle = 2::nat, pending = [(1::nat, 5009::nat, ClearRainbow)]\<rparr> \<le> 3009"
    and h3: "(3009::nat) \<le> 5009" and h4: "(5009::nat) < 3009 + 5000"
    by simp_all
  have h5: "list_all key_value (konamiCode (konami_init\<lparr>konamiCode := butlast konamiPattern\<rparr>) @ [''a''])"
    and h6: "slice_last 10 (konamiCode (konami_init\<lparr>konamiCode := butlast konamiPattern\<rparr>) @ [''a'']) =
         konamiPattern"
    by (simp_all add: konamiPattern_def key_value_def slice_last_def)
  show ?thesis using konami_reactivation_cut_short [OF h1 h2 h3 h4 h5 h6] by (simp add: konami_init_def)
qed

end
