(* ===== verification/Particles.thy ===== *)
theory Particles
  imports Prelude
begin

text \<open>
  The canvas particle effect of \<^verbatim>\<open>src/script.js\<close> (lines 379--461): sixty
  \<^verbatim>\<open>Particle\<close> objects drift outwards from the centre of a 350 by 350 canvas and fade;
  each animation frame clears the canvas, updates and draws every particle, and requests
  the next frame. \<^verbatim>\<open>Math.random()\<close> is a stream \<open>rs\<close> of reals read in call order, with
  a counter of the calls made so far; numbers are reals (floating-point rounding is not
  modelled). The 2D context is a record of the three drawing properties the code sets and
  the list of discs painted since the last \<^verbatim>\<open>clearRect\<close>.
\<close>

type_synonym rng = "nat \<Rightarrow> real"

definition canvas_size :: real where
  "canvas_size = 350"

definition centerX :: real where
  "centerX = canvas_size / 2"

definition centerY :: real where
  "centerY = canvas_size / 2"

definition radius :: real where
  "radius = 150"

definition particleCount :: nat where
  "particleCount = 60"

definition colors :: "string list" where
  "colors = [''rgba(102, 126, 234, '', ''rgba(118, 75, 162, '', ''rgba(76, 81, 191, '',
             ''rgba(50, 50, 80, '', ''rgba(40, 40, 60, '']"

text \<open>
  \<^verbatim>\<open>this.color\<close> is \<^verbatim>\<open>colors[Math.floor(Math.random() * colors.length)]\<close>,
  \<open>None\<close> standing for \<^verbatim>\<open>undefined\<close> when the index falls outside the palette.
\<close>

record particle =
  angle :: real
  distance :: real
  speed :: real
  size :: real
  opacity :: real
  fadeSpeed :: real
  color :: "string option"

text \<open>\<^verbatim>\<open>reset()\<close> assigns every field and reads five random numbers.\<close>

definition particle_reset :: "rng \<Rightarrow> nat \<Rightarrow> particle \<times> nat" where
  "particle_reset rs n =
     (\<lparr>angle = rs n * pi * 2,
       distance = radius * 0.8,
       speed = 0.3 + rs (n + 1) * 0.5,
       size = 1 + rs (n + 2) * 3,
       opacity = 0.8,
       fadeSpeed = 0.005 + rs (n + 3) * 0.01,
       color = js_index colors \<lfloor>rs (n + 4) * real (length colors)\<rfloor>\<rparr>,
      n + 5)"

text \<open>The constructor: \<^verbatim>\<open>reset()\<close>, then a random angle and a random distance.\<close>

definition new_particle :: "rng \<Rightarrow> nat \<Rightarrow> particle \<times> nat" where
  "new_particle rs n =
     (let (p, n') = particle_reset rs n
      in (p\<lparr>angle := rs n' * pi * 2, distance := rs (n' + 1) * radius\<rparr>, n' + 2))"

definition particle_update :: "rng \<Rightarrow> particle \<times> nat \<Rightarrow> particle \<times> nat" where
  "particle_update rs pn =
     (let (p, n) = pn;
          p' = p\<lparr>distance := distance p + speed p, opacity := opacity p - fadeSpeed p\<rparr>
      in if opacity p' \<le> 0 \<or> distance p' > radius * 2 then particle_reset rs n else (p', n))"

subsection \<open>The 2D context\<close>

text \<open>
  A paint is what the string assigned to \<^verbatim>\<open>fillStyle\<close> or \<^verbatim>\<open>shadowColor\<close> denotes:
  \<open>Rgba c a\<close> for \<open>c\<close> (the \<^verbatim>\<open>rgba(r, g, b, \<close> prefix) followed by the alpha
  \<open>a\<close> and \<^verbatim>\<open>)\<close>, or another CSS colour. Assigning a string that does not parse as a
  colour (\<^verbatim>\<open>"undefined0.8)"\<close>) is ignored by the canvas.
\<close>

datatype paint = Rgba string real | Css string

record disc =
  disc_x :: real
  disc_y :: real
  disc_r :: real
  disc_fill :: paint
  disc_blur :: real
  disc_shadow :: paint

record canvas_ctx =
  fillStyle :: paint
  shadowBlur :: real
  shadowColor :: paint
  painted :: "disc list"

definition ctx_init :: canvas_ctx where
  "ctx_init = \<lparr>fillStyle = Css ''#000000'', shadowBlur = 0,
               shadowColor = Css ''rgba(0, 0, 0, 0)'', painted = []\<rparr>"

definition set_paint :: "string option \<Rightarrow> real \<Rightarrow> paint \<Rightarrow> paint" where
  "set_paint c a old = (case c of None \<Rightarrow> old | Some c' \<Rightarrow> Rgba c' a)"

text \<open>
  \<^verbatim>\<open>draw()\<close>: the arc (which throws \<^verbatim>\<open>IndexSizeError\<close> for a negative radius), the
  fill with the current fill and shadow settings, and only then the glow settings.
\<close>

definition particle_draw :: "particle \<Rightarrow> canvas_ctx \<Rightarrow> canvas_ctx outcome" where
  "particle_draw p c =
     (let x = centerX + cos (angle p) * distance p;
          y = centerY + sin (angle p) * distance p
      in if size p < 0 then Threw IndexSizeError c
         else
           (let c1 = c\<lparr>fillStyle := set_paint (color p) (opacity p) (fillStyle c)\<rparr>;
                c2 = c1\<lparr>painted := painted c1 @
                          [\<lparr>disc_x = x, disc_y = y, disc_r = size p, disc_fill = fillStyle c1,
                            disc_blur = shadowBlur c1, disc_shadow = shadowColor c1\<rparr>]\<rparr>
            in Done (c2\<lparr>shadowBlur := 10, shadowColor := set_paint (color p) 0.5 (shadowColor c2)\<rparr>)))"

subsection \<open>The animation loop\<close>

record particle_sim =
  particles :: "particle list"
  draws :: nat
  ctx :: canvas_ctx
  animating :: bool

text \<open>The body of the \<^verbatim>\<open>forEach\<close> in \<^verbatim>\<open>animateParticles\<close>.\<close>

definition update_and_draw ::
  "rng \<Rightarrow> particle \<Rightarrow> nat \<times> canvas_ctx \<Rightarrow> (particle \<times> nat \<times> canvas_ctx) outcome" where
  "update_and_draw rs p nc =
     (let (n, c) = nc; (p', n') = particle_update rs (p, n)
      in case particle_draw p' c of
           Done c' \<Rightarrow> Done (p', n', c')
         | Threw e c' \<Rightarrow> Threw e (p', n', c'))"

text \<open>
  One call of \<^verbatim>\<open>animateParticles\<close>. An exception in the loop also skips the
  \<^verbatim>\<open>requestAnimationFrame\<close> call, so the animation stops for good.
\<close>

definition animate_frame :: "rng \<Rightarrow> particle_sim \<Rightarrow> particle_sim" where
  "animate_frame rs s =
     (if \<not> animating s then s
      else
        (case js_for_each (update_and_draw rs) (particles s) (draws s, (ctx s)\<lparr>painted := []\<rparr>) of
           Done (ps, n, c) \<Rightarrow> s\<lparr>particles := ps, draws := n, ctx := c\<rparr>
         | Threw e (ps, n, c) \<Rightarrow> s\<lparr>particles := ps, draws := n, ctx := c, animating := False\<rparr>))"

text \<open>The creation loop: \<open>k\<close> constructors in a row.\<close>

fun make_particles :: "rng \<Rightarrow> nat \<Rightarrow> nat \<Rightarrow> particle list \<times> nat" where
  "make_particles rs 0 n = ([], n)"
| "make_particles rs (Suc k) n =
     (let (p, n') = new_particle rs n; (ps, n'') = make_particles rs k n' in (p # ps, n''))"

text \<open>
  Start-up when \<^verbatim>\<open>#particleCanvas\<close> exists: sixty particles are created, then the
  first frame runs at once.
\<close>

definition particles_created :: "rng \<Rightarrow> particle_sim" where
  "particles_created rs =
     (let (ps, n) = make_particles rs particleCount 0
      in \<lparr>particles = ps, draws = n, ctx = ctx_init, animating = True\<rparr>)"

definition particles_start :: "rng \<Rightarrow> particle_sim" where
  "particles_start rs = animate_frame rs (particles_created rs)"

text \<open>The state after the first frame and \<open>k\<close> further animation frames.\<close>

definition particles_after :: "rng \<Rightarrow> nat \<Rightarrow> particle_sim" where
  "particles_after rs k = (animate_frame rs ^^ k) (particles_start rs)"

subsection \<open>Specification predicates\<close>

text \<open>
  \<^verbatim>\<open>Math.random()\<close> returns a number in \<open>[0, 1)\<close>; a particle is well-formed when
  every field lies in the range its constructor and \<^verbatim>\<open>reset()\<close> draw it from and
  its opacity and distance are those of a live particle; the simulation is well-formed
  when the loop is still running over sixty well-formed particles.
\<close>


definition random_stream :: "rng \<Rightarrow> bool" where
  "random_stream rs \<longleftrightarrow> (\<forall>k. 0 \<le> rs k \<and> rs k < 1)"

definition particle_ok :: "particle \<Rightarrow> bool" where
  "particle_ok p \<longleftrightarrow>
     0 < opacity p \<and> opacity p \<le> 0.8 \<and> 0 \<le> distance p \<and> distance p \<le> radius * 2 \<and>
     0.3 \<le> speed p \<and> speed p < 0.8 \<and> 1 \<le> size p \<and> size p < 4 \<and>
     0.005 \<le> fadeSpeed p \<and> fadeSpeed p < 0.015 \<and> color p \<in> Some ` set colors \<and>
     0 \<le> angle p \<and> angle p < 2 * pi"

text \<open>A concrete random stream and particle, for the witnesses.\<close>

definition half_stream :: rng where
  "half_stream = (\<lambda>_. 1 / 2)"

definition demo_particle :: particle where
  "demo_particle = fst (particle_reset half_stream 0)"

definition sim_ok :: "particle_sim \<Rightarrow> bool" where
  "sim_ok s \<longleftrightarrow> animating s \<and> length (particles s) = particleCount \<and> list_all particle_ok (particles s)"

subsection \<open>Properties\<close>

lemma random_color:
  assumes "0 \<le> r" and "r < 1"
  shows "js_index colors \<lfloor>r * real (length colors)\<rfloor> \<in> Some ` set colors"
proof -
  have len: "length colors = 5" by (simp add: colors_def)
  from assms have lo: "0 \<le> \<lfloor>r * 5\<rfloor>" and hi: "\<lfloor>r * 5\<rfloor> < 5"
    by (simp_all add: floor_less_iff)
  from lo hi have "nat \<lfloor>r * 5\<rfloor> < length colors" by (simp add: len nat_less_iff)
  with lo hi show ?thesis using nth_mem [of "nat \<lfloor>r * 5\<rfloor>" colors] by (simp add: len)
qed

lemma random_angle: "0 \<le> r \<Longrightarrow> r < 1 \<Longrightarrow> 0 \<le> r * pi * 2 \<and> r * pi * 2 < 2 * pi"
  by (simp add: mult.commute [of _ pi] mult.assoc)

lemma particle_reset_ok:
  assumes "random_stream rs"
  shows "particle_ok (fst (particle_reset rs n))" and "snd (particle_reset rs n) = n + 5"
proof -
  from assms have r: "\<And>k. 0 \<le> rs k \<and> rs k < 1" by (simp add: random_stream_def)
  show "particle_ok (fst (particle_reset rs n))"
    using r [of n] r [of "n + 1"] r [of "n + 2"] r [of "n + 3"] r [of "n + 4"]
      random_color [of "rs (n + 4)"] random_angle [of "rs n"]
    by (simp add: particle_reset_def particle_ok_def radius_def)
  show "snd (particle_reset rs n) = n + 5" by (simp add: particle_reset_def)
qed

lemma new_particle_ok:
  assumes "random_stream rs"
  shows "particle_ok (fst (new_particle rs n))" and "snd (new_particle rs n) = n + 7"
proof -
  from assms have r: "\<And>k. 0 \<le> rs k \<and> rs k < 1" by (simp add: random_stream_def)
  obtain p n' where pr: "particle_reset rs n = (p, n')" by (cases "particle_reset rs n")
  with particle_reset_ok [OF assms, of n] have "particle_ok p" and n': "n' = n + 5" by simp_all
  moreover have "0 \<le> rs (n' + 1) * radius" and "rs (n' + 1) * radius \<le> radius * 2"
    using r [of "n' + 1"] by (simp_all add: radius_def)
  ultimately show "particle_ok (fst (new_particle rs n))"
    using pr random_angle [of "rs n'"] r [of n']
    by (simp add: new_particle_def particle_ok_def)
  show "snd (new_particle rs n) = n + 7" using pr n' by (simp add: new_particle_def)
qed

lemma particle_update_ok:
  assumes "random_stream rs" and "particle_ok p"
  shows "particle_ok (fst (particle_update rs (p, n)))"
  using assms particle_reset_ok [OF assms(1), of n]
  by (auto simp: particle_update_def particle_ok_def Let_def)

lemma particle_draw_ok:
  "particle_ok p \<Longrightarrow>
   particle_draw p c =
     Done (c\<lparr>fillStyle := set_paint (color p) (opacity p) (fillStyle c),
             painted := painted c @
               [\<lparr>disc_x = centerX + cos (angle p) * distance p,
                 disc_y = centerY + sin (angle p) * distance p, disc_r = size p,
                 disc_fill = set_paint (color p) (opacity p) (fillStyle c),
                 disc_blur = shadowBlur c, disc_shadow = shadowColor c\<rparr>],
             shadowBlur := 10, shadowColor := set_paint (color p) 0.5 (shadowColor c)\<rparr>)"
  by (simp add: particle_draw_def particle_ok_def Let_def)

lemma update_and_draw_ok:
  assumes "random_stream rs" and "particle_ok p"
  shows "\<exists>p' nc'. update_and_draw rs p nc = Done (p', nc') \<and> particle_ok p'"
proof -
  obtain n c where nc: "nc = (n, c)" by (cases nc)
  obtain p' n' where u: "particle_update rs (p, n) = (p', n')" by (cases "particle_update rs (p, n)")
  from particle_update_ok [OF assms, of n] u have ok: "particle_ok p'" by simp
  then show ?thesis
    by (simp add: update_and_draw_def nc u particle_draw_ok)
qed

lemma animate_frame_ok:
  assumes "random_stream rs" and "sim_ok s"
  shows "sim_ok (animate_frame rs s)"
proof -
  from assms(2) have run: "animating s" and len: "length (particles s) = particleCount"
    and ok: "list_all particle_ok (particles s)"
    by (simp_all add: sim_ok_def)
  have step: "\<And>p nc. particle_ok p \<Longrightarrow> True \<Longrightarrow>
      \<exists>p' nc'. update_and_draw rs p nc = Done (p', nc') \<and> particle_ok p' \<and> True"
    using update_and_draw_ok [OF assms(1)] by blast
  obtain ps nc where loop: "js_for_each (update_and_draw rs) (particles s) (draws s, (ctx s)\<lparr>painted := []\<rparr>) =
      Done (ps, nc)" and "list_all particle_ok ps" and "length ps = length (particles s)"
    using js_for_each_Done [where f = "update_and_draw rs" and P = particle_ok and Q = "\<lambda>_. True",
        OF step ok TrueI] by blast
  with run len show ?thesis
    by (cases nc) (simp add: animate_frame_def sim_ok_def)
qed

lemma make_particles_ok:
  assumes "random_stream rs"
  shows "length (fst (make_particles rs k n)) = k \<and> list_all particle_ok (fst (make_particles rs k n))"
proof (induction k arbitrary: n)
  case 0
  then show ?case by simp
next
  case (Suc k)
  obtain p n' where np: "new_particle rs n = (p, n')" by (cases "new_particle rs n")
  with new_particle_ok [OF assms, of n] have "particle_ok p" by simp
  with Suc.IH [of n'] np show ?case by (cases "make_particles rs k n'") simp
qed

lemma particles_created_ok:
  assumes "random_stream rs"
  shows "sim_ok (particles_created rs)"
proof -
  obtain ps n where mk: "make_particles rs particleCount 0 = (ps, n)"
    by (cases "make_particles rs particleCount 0")
  with make_particles_ok [OF assms, of particleCount 0] show ?thesis
    by (simp add: particles_created_def sim_ok_def)
qed

lemma particles_start_ok: "random_stream rs \<Longrightarrow> sim_ok (particles_start rs)"
  by (simp add: particles_start_def animate_frame_ok particles_created_ok)

lemma half_stream_random: "random_stream half_stream"
  by (simp add: random_stream_def half_stream_def)

lemma demo_particle_ok: "particle_ok demo_particle"
  by (simp add: demo_particle_def particle_reset_ok half_stream_random)

text \<open>
  C5. From start-up on, after any number of frames, the animation is still running (no
  frame threw and skipped \<^verbatim>\<open>requestAnimationFrame\<close>) over sixty particles, each with
  opacity in \<open>(0, 0.8]\<close>, distance in \<open>[0, 300]\<close>, and speed, size, fade rate,
  colour and angle in the ranges \<^verbatim>\<open>reset()\<close> draws them from.
\<close>

theorem particles_invariant: "random_stream rs \<Longrightarrow> sim_ok (particles_after rs k)"
  by (induction k) (simp_all add: particles_after_def particles_start_ok animate_frame_ok)

lemma particle_update_step:
  assumes "random_stream rs" and "particle_ok p" and "particle_update rs (p, n) = (p', n')"
  shows "(n' = n \<and> p' = p\<lparr>distance := distance p + speed p, opacity := opacity p - fadeSpeed p\<rparr>) \<or>
         (n' = n + 5 \<and> p' = fst (particle_reset rs n))"
  using assms(3) particle_reset_ok(2) [OF assms(1), of n]
  by (auto simp: particle_update_def Let_def split: if_splits)

text \<open>
  C6. The guard of \<^verbatim>\<open>update()\<close> decides the branch: the particle stays alive exactly
  when its opacity is above its fade rate and its next distance is at most twice the radius
  (240). Then the update strictly lowers its opacity and strictly raises its distance,
  every other field staying, and reads no random number; otherwise it is reset to a fresh
  well-formed particle at opacity 0.8 and distance 120, reading five random numbers.
\<close>

theorem particle_update_guard:
  assumes "random_stream rs" and "particle_ok p" and "particle_update rs (p, n) = (p', n')"
  shows "if fadeSpeed p < opacity p \<and> distance p + speed p \<le> radius * 2
         then n' = n \<and> opacity p' < opacity p \<and> distance p < distance p' \<and>
           fadeSpeed p' = fadeSpeed p \<and> speed p' = speed p \<and> size p' = size p \<and>
           angle p' = angle p \<and> color p' = color p
         else n' = n + 5 \<and> opacity p' = 0.8 \<and> distance p' = 120 \<and> particle_ok p'"
proof (cases "fadeSpeed p < opacity p \<and> distance p + speed p \<le> radius * 2")
  case True
  with assms(2,3) show ?thesis by (auto simp: particle_update_def particle_ok_def)
next
  case False
  then have "particle_update rs (p, n) = particle_reset rs n"
    by (auto simp: particle_update_def)
  with assms(3) particle_reset_ok [OF assms(1), of n] False show ?thesis
    by (auto simp: particle_reset_def radius_def)
qed

lemma particle_updates:
  assumes "random_stream rs" and "particle_ok p"
  shows "particle_ok (fst ((particle_update rs ^^ j) (p, n))) \<and>
         n \<le> snd ((particle_update rs ^^ j) (p, n)) \<and>
         (snd ((particle_update rs ^^ j) (p, n)) = n \<longrightarrow>
            opacity (fst ((particle_update rs ^^ j) (p, n))) = opacity p - real j * fadeSpeed p \<and>
            fadeSpeed (fst ((particle_update rs ^^ j) (p, n))) = fadeSpeed p)"
proof (induction j)
  case 0
  with assms(2) show ?case by simp
next
  case (Suc j)
  obtain pj nj where pj: "(particle_update rs ^^ j) (p, n) = (pj, nj)"
    by (cases "(particle_update rs ^^ j) (p, n)")
  obtain p' n' where p': "particle_update rs (pj, nj) = (p', n')"
    by (cases "particle_update rs (pj, nj)")
  from Suc.IH pj have ok: "particle_ok pj" and mono: "n \<le> nj"
    and same: "nj = n \<Longrightarrow> opacity pj = opacity p - real j * fadeSpeed p \<and> fadeSpeed pj = fadeSpeed p"
    by simp_all
  from particle_update_ok [OF assms(1) ok, of nj] p' have "particle_ok p'" by simp
  moreover from particle_update_step [OF assms(1) ok p'] mono
  have "n \<le> n'" and "n' = n \<Longrightarrow> opacity p' = opacity p - real (Suc j) * fadeSpeed p \<and> fadeSpeed p' = fadeSpeed p"
    using same by (auto simp: algebra_simps)
  ultimately show ?case using pj p' by simp
qed

text \<open>
  C7. Every particle is reset within 160 updates: its fade rate is at least 0.005 and its
  opacity at most 0.8, so the 160th update at the latest finds it faded; a reset is seen
  as five more calls of \<^verbatim>\<open>Math.random()\<close>.
\<close>

theorem particle_reset_within_160:
  assumes "random_stream rs" and "particle_ok p"
  shows "n < snd ((particle_update rs ^^ 160) (p, n))"
proof -
  let ?q = "(particle_update rs ^^ 160) (p, n)"
  from particle_updates [OF assms, of 160 n]
  have ok: "particle_ok (fst ?q)" and mono: "n \<le> snd ?q"
    and same: "snd ?q = n \<Longrightarrow> opacity (fst ?q) = opacity p - 160 * fadeSpeed p"
    by simp_all
  have "snd ?q \<noteq> n"
  proof
    assume "snd ?q = n"
    with same have "opacity (fst ?q) = opacity p - 160 * fadeSpeed p" .
    moreover from assms(2) have "opacity p - 160 * fadeSpeed p \<le> 0"
      by (simp add: particle_ok_def)
    ultimately show False using ok by (simp add: particle_ok_def)
  qed
  with mono show ?thesis by simp
qed

text \<open>
  C8. Drawing a well-formed particle never throws, appends one disc, and puts the disc's
  centre at the particle's distance from the canvas centre, at most 300 px away (so
  beyond the 175 px half-width of the canvas for the outer part of the ring).
\<close>

theorem particle_disc_position:
  assumes "particle_ok p"
  shows "\<exists>c'. particle_draw p c = Done c' \<and> painted c' = butlast (painted c') @ [last (painted c')] \<and>
     butlast (painted c') = painted c \<and>
     (disc_x (last (painted c')) - centerX)\<^sup>2 + (disc_y (last (painted c')) - centerY)\<^sup>2 =
       (distance p)\<^sup>2 \<and> distance p \<le> 300"
proof -
  have "(cos (angle p) * distance p)\<^sup>2 + (sin (angle p) * distance p)\<^sup>2 = (distance p)\<^sup>2"
    by (simp add: power_mult_distrib distrib_right [symmetric])
  with assms show ?thesis by (simp add: particle_draw_ok particle_ok_def radius_def)
qed

lemma particle_ok_color: "particle_ok p \<Longrightarrow> set_paint (color p) a old = Rgba (the (color p)) a"
  by (auto simp: particle_ok_def set_paint_def)

lemma for_each_paints:
  assumes "random_stream rs" and "list_all particle_ok ps"
    and "js_for_each (update_and_draw rs) ps (n, c) = Done (ps', n', c')"
  shows "map disc_shadow (painted c') =
           map disc_shadow (painted c) @ take (length ps') (shadowColor c # map (\<lambda>p. Rgba (the (color p)) 0.5) ps') \<and>
         map disc_fill (painted c') =
           map disc_fill (painted c) @ map (\<lambda>p. Rgba (the (color p)) (opacity p)) ps'"
  using assms(2,3)
proof (induction ps arbitrary: n c ps' n' c')
  case Nil
  then show ?case by simp
next
  case (Cons p ps)
  obtain p1 n1 where u: "particle_update rs (p, n) = (p1, n1)" by (cases "particle_update rs (p, n)")
  from Cons.prems(1) have okp: "particle_ok p" and okps: "list_all particle_ok ps" by simp_all
  from particle_update_ok [OF assms(1) okp, of n] u have ok1: "particle_ok p1" by simp
  define c1 where "c1 = c\<lparr>fillStyle := Rgba (the (color p1)) (opacity p1),
             painted := painted c @
               [\<lparr>disc_x = centerX + cos (angle p1) * distance p1,
                 disc_y = centerY + sin (angle p1) * distance p1, disc_r = size p1,
                 disc_fill = Rgba (the (color p1)) (opacity p1),
                 disc_blur = shadowBlur c, disc_shadow = shadowColor c\<rparr>],
             shadowBlur := 10, shadowColor := Rgba (the (color p1)) 0.5\<rparr>"
  have step: "update_and_draw rs p (n, c) = Done (p1, n1, c1)"
    using ok1 by (simp add: update_and_draw_def u particle_draw_ok particle_ok_color c1_def)
  with Cons.prems(2) obtain ps'' where rest: "js_for_each (update_and_draw rs) ps (n1, c1) = Done (ps'', n', c')"
    and ps': "ps' = p1 # ps''"
    by (auto simp: js_for_each_Cons_Done split: outcome.splits prod.splits)
  from Cons.IH [OF okps rest] ps' show ?case by (simp add: c1_def)
qed

text \<open>
  C9. In every frame each disc is filled with its own colour, but drawn with the glow
  set by the particle drawn before it: \<^verbatim>\<open>shadowColor\<close> and \<^verbatim>\<open>shadowBlur\<close> are
  assigned after \<^verbatim>\<open>fill()\<close>. The first disc of a frame carries the glow left by the
  previous frame's last particle, and on the first frame the context's default
  transparent shadow.
\<close>

theorem frame_glow_lag:
  assumes "random_stream rs" and "sim_ok s"
  shows "map disc_shadow (painted (ctx (animate_frame rs s))) =
           shadowColor (ctx s) # map (\<lambda>p. Rgba (the (color p)) 0.5) (butlast (particles (animate_frame rs s))) \<and>
         map disc_fill (painted (ctx (animate_frame rs s))) =
           map (\<lambda>p. Rgba (the (color p)) (opacity p)) (particles (animate_frame rs s))"
proof -
  from assms(2) have run: "animating s" and ok: "list_all particle_ok (particles s)"
    and len: "length (particles s) = particleCount"
    by (simp_all add: sim_ok_def)
  have step: "\<And>p nc. particle_ok p \<Longrightarrow> True \<Longrightarrow>
      \<exists>p' nc'. update_and_draw rs p nc = Done (p', nc') \<and> particle_ok p' \<and> True"
    using update_and_draw_ok [OF assms(1)] by blast
  obtain ps nc where loop0: "js_for_each (update_and_draw rs) (particles s) (draws s, (ctx s)\<lparr>painted := []\<rparr>) =
      Done (ps, nc)" and "length ps = length (particles s)"
    using js_for_each_Done [where f = "update_and_draw rs" and P = particle_ok and Q = "\<lambda>_. True",
        OF step ok TrueI] by blast
  moreover obtain n c where "nc = (n, c)" by (cases nc)
  ultimately have loop: "js_for_each (update_and_draw rs) (particles s) (draws s, (ctx s)\<lparr>painted := []\<rparr>) =
      Done (ps, n, c)" and "length ps = length (particles s)" by simp_all
  with len have "ps \<noteq> []" by (auto simp: particleCount_def)
  moreover have "animate_frame rs s = s\<lparr>particles := ps, draws := n, ctx := c\<rparr>"
    using run loop by (simp add: animate_frame_def)
  moreover note for_each_paints [OF assms(1) ok loop]
  moreover have "take (length ps) (shadowColor (ctx s) # map (\<lambda>p. Rgba (the (color p)) 0.5) ps) =
      shadowColor (ctx s) # map (\<lambda>p. Rgba (the (color p)) 0.5) (butlast ps)"
    using \<open>ps \<noteq> []\<close> by (cases ps rule: rev_cases) simp_all
  ultimately show ?thesis by simp
qed

subsection \<open>Witnesses\<close>

lemma demo_update:
  "particle_update half_stream (demo_particle, 0) = (demo_particle\<lparr>distance := 120.55, opacity := 0.79\<rparr>, 0)"
  by (simp add: particle_update_def demo_particle_def particle_reset_def half_stream_def radius_def)

theorem particles_invariant_witness:
  "random_stream half_stream \<and> sim_ok (particles_after half_stream 3)"
  using half_stream_random particles_invariant [OF half_stream_random, of 3] by simp

theorem particle_update_guard_witness:
  "random_stream half_stream \<and> particle_ok demo_particle \<and>
   particle_update half_stream (demo_particle, 0) = (demo_particle\<lparr>distance := 120.55, opacity := 0.79\<rparr>, 0) \<and>
   opacity (demo_particle\<lparr>distance := 120.55, opacity := 0.79\<rparr>) < opacity demo_particle \<and>
   distance demo_particle < distance (demo_particle\<lparr>distance := 120.55, opacity := 0.79\<rparr>)"
proof -
  have alive: "fadeSpeed demo_particle < opacity demo_particle \<and> distance demo_particle + speed demo_particle \<le> radius * 2"
    by (simp add: demo_particle_def particle_reset_def half_stream_def radius_def)
  have "(0::nat) = 0 \<and> opacity (demo_particle\<lparr>distance := 120.55, opacity := 0.79\<rparr>) < opacity demo_particle \<and>
      distance demo_particle < distance (demo_particle\<lparr>distance := 120.55, opacity := 0.79\<rparr>)"
    using particle_update_guard [OF half_stream_random demo_particle_ok demo_update] alive
    by simp
  then show ?thesis using half_stream_random demo_particle_ok demo_update by simp
qed

theorem particle_reset_within_160_witness:
  "random_stream half_stream \<and> particle_ok demo_particle \<and>
   0 < snd ((particle_update half_stream ^^ 160) (demo_particle, 0))"
  using half_stream_random demo_particle_ok
    particle_reset_within_160 [OF half_stream_random demo_particle_ok, of 0]
  by simp

theorem particle_disc_position_witness:
  "particle_ok demo_particle \<and>
   (\<exists>c'. particle_draw demo_particle ctx_init = Done c' \<and>
     painted c' = butlast (painted c') @ [last (painted c')] \<and> butlast (painted c') = [] \<and>
     (disc_x (last (painted c')) - centerX)\<^sup>2 + (disc_y (last (painted c')) - centerY)\<^sup>2 =
       (distance demo_particle)\<^sup>2 \<and> distance demo_particle \<le> 300)"
  using demo_particle_ok particle_disc_position [OF demo_particle_ok, of ctx_init]
  by (simp add: ctx_init_def)

theorem frame_glow_lag_witness:
  "random_stream half_stream \<and> sim_ok (particles_created half_stream) \<and>
   map disc_shadow (painted (ctx (particles_start half_stream))) =
     Css ''rgba(0, 0, 0, 0)'' #
     map (\<lambda>p. Rgba (the (color p)) 0.5) (butlast (particles (particles_start half_stream)))"
proof -
  have ok: "sim_ok (particles_created half_stream)"
    by (rule particles_created_ok [OF half_stream_random])
  have sh: "shadowColor (ctx (particles_created half_stream)) = Css ''rgba(0, 0, 0, 0)''"
    by (simp add: particles_created_def ctx_init_def split: prod.splits)
  from frame_glow_lag [OF half_stream_random ok] sh half_stream_random ok show ?thesis
    by (simp add: particles_start_def)
qed

end
