(* ===== verification/JsNumber.thy ===== *)
theory JsNumber
  imports Prelude
begin

text \<open>
  JavaScript numbers where the script can leave the finite reals: a finite value is
  \<open>Num r\<close> (rounding is not modelled), and \<open>NaN\<close>, \<open>PosInf\<close>, \<open>NegInf\<close> follow
  IEEE 754 division and multiplication. A zero divisor is taken as \<open>+0\<close>, which is what
  the script's divisors (differences of equal integers, or constants) evaluate to; signed
  zeros are otherwise not distinguished.
\<close>

datatype jsnum = Num real | NaN | PosInf | NegInf

fun js_div :: "jsnum \<Rightarrow> jsnum \<Rightarrow> jsnum" where
  "js_div (Num a) (Num b) =
     (if b \<noteq> 0 then Num (a / b) else if 0 < a then PosInf else if a < 0 then NegInf else NaN)"
| "js_div PosInf (Num b) = (if b < 0 then NegInf else PosInf)"
| "js_div NegInf (Num b) = (if b < 0 then PosInf else NegInf)"
| "js_div (Num a) PosInf = Num 0"
| "js_div (Num a) NegInf = Num 0"
| "js_div _ _ = NaN"

fun js_mul :: "jsnum \<Rightarrow> jsnum \<Rightarrow> jsnum" where
  "js_mul (Num a) (Num b) = Num (a * b)"
| "js_mul PosInf (Num b) = (if 0 < b then PosInf else if b < 0 then NegInf else NaN)"
| "js_mul NegInf (Num b) = (if 0 < b then NegInf else if b < 0 then PosInf else NaN)"
| "js_mul (Num a) PosInf = (if 0 < a then PosInf else if a < 0 then NegInf else NaN)"
| "js_mul (Num a) NegInf = (if 0 < a then NegInf else if a < 0 then PosInf else NaN)"
| "js_mul PosInf PosInf = PosInf"
| "js_mul NegInf NegInf = PosInf"
| "js_mul PosInf NegInf = NegInf"
| "js_mul NegInf PosInf = NegInf"
| "js_mul _ _ = NaN"

fun js_add :: "jsnum \<Rightarrow> jsnum \<Rightarrow> jsnum" where
  "js_add (Num a) (Num b) = Num (a + b)"
| "js_add PosInf (Num b) = PosInf"
| "js_add NegInf (Num b) = NegInf"
| "js_add (Num a) PosInf = PosInf"
| "js_add (Num a) NegInf = NegInf"
| "js_add PosInf PosInf = PosInf"
| "js_add NegInf NegInf = NegInf"
| "js_add _ _ = NaN"

text \<open>\<open>a >= b\<close>: every comparison with \<open>NaN\<close> is false.\<close>

fun js_ge :: "jsnum \<Rightarrow> jsnum \<Rightarrow> bool" where
  "js_ge (Num a) (Num b) \<longleftrightarrow> b \<le> a"
| "js_ge PosInf b \<longleftrightarrow> b \<noteq> NaN"
| "js_ge a NegInf \<longleftrightarrow> a \<noteq> NaN"
| "js_ge NegInf b \<longleftrightarrow> False"
| "js_ge a PosInf \<longleftrightarrow> False"
| "js_ge _ _ \<longleftrightarrow> False"

lemma js_div_finite [simp, js_simps]: "b \<noteq> 0 \<Longrightarrow> js_div (Num a) (Num b) = Num (a / b)"
  by simp

lemma js_div_zero [js_simps]:
  "js_div (Num a) (Num 0) = (if 0 < a then PosInf else if a < 0 then NegInf else NaN)"
  by simp

lemma js_ge_NaN [simp, js_simps]: "\<not> js_ge NaN b" "\<not> js_ge a NaN"
  by (cases b; simp) (cases a; simp)

end
