(* ===== verification/ScrollNav.thy ===== *)
theory ScrollNav
  imports JsNumber
begin

text \<open>
  The navigation and scroll listeners of \<^verbatim>\<open>src/script.js\<close>: the hamburger toggle and
  the link clicks that close the menu (lines 4--21), and the four listeners on the
  window's scroll event, in registration order: the navbar's \<^verbatim>\<open>scrolled\<close> class
  (26--32), \<^verbatim>\<open>highlightNavLink\<close> (87--105), the progress bar (206--223) and the
  animation-frame throttle \<^verbatim>\<open>updateOnScroll\<close> (325--337), whose frame callback calls
  \<^verbatim>\<open>highlightNavLink\<close> again. An element that may be missing is an \<open>option\<close>
  (\<open>None\<close>: the \<^verbatim>\<open>?.\<close> call does nothing); a class is a boolean. The layout
  (section offsets, document and viewport heights) is fixed during a run.
\<close>

record nav_link =
  href :: string
  link_active :: bool

record section_box =
  section_id :: string
  offsetTop :: int
  offsetHeight :: int

subsection \<open>The selector \<^verbatim>\<open>.nav-link[href*="id"]\<close>\<close>

text \<open>
  The section id is pasted into a double-quoted CSS string. A double quote or a line
  break in it makes the selector invalid, and \<^verbatim>\<open>querySelector\<close> throws a
  \<^verbatim>\<open>SyntaxError\<close>. Otherwise the result is the first link in document order whose
  \<^verbatim>\<open>href\<close> contains the id. Two cases are outside this model of the CSS parser. A
  double quote ends the string early and the rest of the id is parsed as selector syntax;
  that text is sometimes valid (the id \<^verbatim>\<open>x"], [a="\<close> yields a selector list matching
  other elements), where the model throws. Backslash escapes are not resolved: an id with a
  backslash is matched as written, and one ending in a backslash throws in the browser but
  not here. The theorems about the highlighter describe the browser for ids without a
  quote or a backslash; the page's own ids contain neither character.
\<close>

definition css_string_ok :: "string \<Rightarrow> bool" where
  "css_string_ok v \<longleftrightarrow> (\<forall>c\<in>set v. c \<notin> {CHR 0x22, CHR 0x0A, CHR 0x0D, CHR 0x0C})"

fun first_link :: "string \<Rightarrow> nav_link list \<Rightarrow> nat option" where
  "first_link v [] = None"
| "first_link v (l # ls) =
     (if css_contains (href l) v then Some 0 else map_option Suc (first_link v ls))"

definition query_nav_link :: "string \<Rightarrow> nav_link list \<Rightarrow> nat option outcome" where
  "query_nav_link v ls = (if css_string_ok v then Done (first_link v ls) else Threw SyntaxError None)"

text \<open>\<^verbatim>\<open>?.classList.add('active')\<close> and \<^verbatim>\<open>?.classList.remove('active')\<close>.\<close>

definition set_active :: "nat option \<Rightarrow> bool \<Rightarrow> nav_link list \<Rightarrow> nav_link list" where
  "set_active i b ls =
     (case i of None \<Rightarrow> ls | Some k \<Rightarrow> ls[k := (ls ! k)\<lparr>link_active := b\<rparr>])"

subsection \<open>\<^verbatim>\<open>highlightNavLink\<close>\<close>

definition in_band :: "real \<Rightarrow> section_box \<Rightarrow> bool" where
  "in_band y s \<longleftrightarrow>
     (let sectionTop = offsetTop s - 100
      in real_of_int sectionTop < y \<and> y \<le> real_of_int (sectionTop + offsetHeight s))"

definition highlight_section :: "real \<Rightarrow> section_box \<Rightarrow> nav_link list \<Rightarrow> nav_link list outcome" where
  "highlight_section y s ls =
     (case query_nav_link (section_id s) ls of
        Done i \<Rightarrow> Done (set_active i (in_band y s) ls)
      | Threw e _ \<Rightarrow> Threw e ls)"

fun highlightNavLink :: "real \<Rightarrow> section_box list \<Rightarrow> nav_link list \<Rightarrow> nav_link list outcome" where
  "highlightNavLink y [] ls = Done ls"
| "highlightNavLink y (s # ss) ls =
     (case highlight_section y s ls of
        Done ls' \<Rightarrow> highlightNavLink y ss ls'
      | Threw e ls' \<Rightarrow> Threw e ls')"

subsection \<open>The page state and its listeners\<close>

record scroll_page =
  scrollY :: real
  scrollHeight :: int
  clientHeight :: int
  sections :: "section_box list"
  links :: "nav_link list"
  navbar_scrolled :: "bool option"
  menu_active :: "bool option"
  burger_active :: "bool option"
  ticking :: bool
  raf_requests :: nat
  progress_width :: real
  reported :: "js_error list"

datatype page_event = HamburgerClick | NavLinkClick | Scroll real | AnimationFrame

definition hamburger_click :: "scroll_page \<Rightarrow> scroll_page" where
  "hamburger_click s =
     (case burger_active s of
        None \<Rightarrow> s
      | Some b \<Rightarrow> s\<lparr>menu_active := map_option Not (menu_active s), burger_active := Some (\<not> b)\<rparr>)"

definition nav_link_click :: "scroll_page \<Rightarrow> scroll_page" where
  "nav_link_click s =
     s\<lparr>menu_active := map_option (\<lambda>_. False) (menu_active s),
       burger_active := map_option (\<lambda>_. False) (burger_active s)\<rparr>"

definition navbar_on_scroll :: "scroll_page \<Rightarrow> scroll_page" where
  "navbar_on_scroll s = s\<lparr>navbar_scrolled := map_option (\<lambda>_. 100 < scrollY s) (navbar_scrolled s)\<rparr>"

text \<open>A listener that throws is reported; the other listeners still run.\<close>

definition highlight_on_scroll :: "scroll_page \<Rightarrow> scroll_page" where
  "highlight_on_scroll s =
     (case highlightNavLink (scrollY s) (sections s) (links s) of
        Done ls \<Rightarrow> s\<lparr>links := ls\<rparr>
      | Threw e ls \<Rightarrow> s\<lparr>links := ls, reported := reported s @ [e]\<rparr>)"

text \<open>
  \<^verbatim>\<open>progressBar.style.width = `${scrolled}%`\<close>: a string that is not a valid
  non-negative length percentage (\<^verbatim>\<open>NaN%\<close>, \<^verbatim>\<open>Infinity%\<close>, a negative value) is
  rejected by the style declaration, which keeps its old value.
\<close>

definition css_width_percent :: "jsnum \<Rightarrow> real \<Rightarrow> real" where
  "css_width_percent v old = (case v of Num r \<Rightarrow> if 0 \<le> r then r else old | _ \<Rightarrow> old)"

definition scrolled_percent :: "scroll_page \<Rightarrow> jsnum" where
  "scrolled_percent s =
     (let windowHeight = scrollHeight s - clientHeight s
      in js_mul (js_div (Num (scrollY s)) (Num (real_of_int windowHeight))) (Num 100))"

definition progress_on_scroll :: "scroll_page \<Rightarrow> scroll_page" where
  "progress_on_scroll s = s\<lparr>progress_width := css_width_percent (scrolled_percent s) (progress_width s)\<rparr>"

definition updateOnScroll :: "scroll_page \<Rightarrow> scroll_page" where
  "updateOnScroll s =
     (if \<not> ticking s then s\<lparr>raf_requests := Suc (raf_requests s), ticking := True\<rparr> else s)"

definition scroll_event :: "real \<Rightarrow> scroll_page \<Rightarrow> scroll_page" where
  "scroll_event y s =
     updateOnScroll (progress_on_scroll (highlight_on_scroll (navbar_on_scroll (s\<lparr>scrollY := y\<rparr>))))"

text \<open>
  The callback passed to \<^verbatim>\<open>requestAnimationFrame\<close>: \<^verbatim>\<open>ticking\<close> is cleared only
  after \<^verbatim>\<open>highlightNavLink\<close> returns normally.
\<close>

definition raf_callback :: "scroll_page \<Rightarrow> scroll_page" where
  "raf_callback s =
     (case highlightNavLink (scrollY s) (sections s) (links s) of
        Done ls \<Rightarrow> s\<lparr>links := ls, ticking := False\<rparr>
      | Threw e ls \<Rightarrow> s\<lparr>links := ls, reported := reported s @ [e]\<rparr>)"

text \<open>A rendered frame runs the callbacks requested before it.\<close>

definition animation_frame :: "scroll_page \<Rightarrow> scroll_page" where
  "animation_frame s = (raf_callback ^^ raf_requests s) (s\<lparr>raf_requests := 0\<rparr>)"

fun page_step :: "page_event \<Rightarrow> scroll_page \<Rightarrow> scroll_page" where
  "page_step HamburgerClick s = hamburger_click s"
| "page_step NavLinkClick s = nav_link_click s"
| "page_step (Scroll y) s = scroll_event y s"
| "page_step AnimationFrame s = animation_frame s"

definition page_run :: "page_event list \<Rightarrow> scroll_page \<Rightarrow> scroll_page" where
  "page_run es s = fold page_step es s"

subsection \<open>Specification predicates\<close>

definition throttle_ok :: "scroll_page \<Rightarrow> bool" where
  "throttle_ok s \<longleftrightarrow> raf_requests s \<le> 1 \<and> (raf_requests s = 1 \<longrightarrow> ticking s)"

definition throttle_stuck :: "scroll_page \<Rightarrow> bool" where
  "throttle_stuck s \<longleftrightarrow> ticking s \<and> raf_requests s = 0"

definition link_target :: "nav_link list \<Rightarrow> section_box \<Rightarrow> nat option" where
  "link_target ls s = first_link (section_id s) ls"

definition highlight_spec :: "real \<Rightarrow> section_box list \<Rightarrow> nav_link list \<Rightarrow> nav_link list" where
  "highlight_spec y secs ls =
     map (\<lambda>i. (ls ! i)\<lparr>link_active :=
                (case filter (\<lambda>s. link_target ls s = Some i) secs of
                   [] \<Rightarrow> link_active (ls ! i)
                 | ss \<Rightarrow> in_band y (last ss))\<rparr>)
       [0..<length ls]"

definition sections_ordered :: "section_box list \<Rightarrow> bool" where
  "sections_ordered secs \<longleftrightarrow> sorted_wrt (\<lambda>a b. offsetTop a + offsetHeight a \<le> offsetTop b) secs"

text \<open>A concrete page for the witnesses: two stacked sections and their links.\<close>

definition demo_page :: scroll_page where
  "demo_page =
     \<lparr>scrollY = 0, scrollHeight = 2000, clientHeight = 800,
      sections = [\<lparr>section_id = ''about'', offsetTop = 0, offsetHeight = 600\<rparr>,
                  \<lparr>section_id = ''projects'', offsetTop = 600, offsetHeight = 800\<rparr>],
      links = [\<lparr>href = ''#about'', link_active = False\<rparr>, \<lparr>href = ''#projects'', link_active = False\<rparr>],
      navbar_scrolled = Some False, menu_active = Some False, burger_active = Some False,
      ticking = False, raf_requests = 0, progress_width = 0, reported = []\<rparr>"

definition quote_page :: scroll_page where
  "quote_page = demo_page\<lparr>sections := [\<lparr>section_id = [CHR ''a'', CHR 0x22, CHR ''b''],
                                            offsetTop = 0, offsetHeight = 600\<rparr>]\<rparr>"

subsection \<open>Properties\<close>


lemma raf_fields_listeners [simp]:
  "raf_requests (navbar_on_scroll s) = raf_requests s" "ticking (navbar_on_scroll s) = ticking s"
  "raf_requests (highlight_on_scroll s) = raf_requests s" "ticking (highlight_on_scroll s) = ticking s"
  "raf_requests (progress_on_scroll s) = raf_requests s" "ticking (progress_on_scroll s) = ticking s"
  "raf_requests (hamburger_click s) = raf_requests s" "ticking (hamburger_click s) = ticking s"
  "raf_requests (nav_link_click s) = raf_requests s" "ticking (nav_link_click s) = ticking s"
  "raf_requests (raf_callback s) = raf_requests s"
  by (simp_all add: navbar_on_scroll_def highlight_on_scroll_def progress_on_scroll_def
      hamburger_click_def nav_link_click_def raf_callback_def
      split: outcome.splits option.splits)

lemma raf_requests_callbacks [simp]: "raf_requests ((raf_callback ^^ k) s) = raf_requests s"
  by (induction k) simp_all

lemma page_step_throttle_ok: "throttle_ok s \<Longrightarrow> throttle_ok (page_step e s)"
  by (cases e) (auto simp: throttle_ok_def scroll_event_def updateOnScroll_def animation_frame_def)

text \<open>
  C13. The animation-frame throttle never has more than one frame callback pending, and one is pending only while \<^verbatim>\<open>ticking\<close> is set, over any sequence of clicks, scroll events and frames.
\<close>

theorem throttle_at_most_one_request: "throttle_ok s \<Longrightarrow> throttle_ok (page_run es s)"
  by (induction es arbitrary: s) (simp_all add: page_run_def page_step_throttle_ok)

lemma page_step_stuck: "throttle_stuck s \<Longrightarrow> throttle_stuck (page_step e s)"
  by (cases e) (auto simp: throttle_stuck_def scroll_event_def updateOnScroll_def animation_frame_def)

lemma page_run_stuck: "throttle_stuck s \<Longrightarrow> throttle_stuck (page_run es s)"
  by (induction es arbitrary: s) (simp_all add: page_run_def page_step_stuck)

subsection \<open>The highlighter\<close>

lemma first_link_less: "first_link v ls = Some i \<Longrightarrow> i < length ls"
  by (induction v ls arbitrary: i rule: first_link.induct) (auto split: if_splits)

lemma first_link_hrefs: "map href ls = map href ls' \<Longrightarrow> first_link v ls = first_link v ls'"
proof (induction v ls arbitrary: ls' rule: first_link.induct)
  case (1 v)
  then show ?case by simp
next
  case (2 v l ls)
  then show ?case by (cases ls') auto
qed

lemma first_link_before:
  "j < length ls \<Longrightarrow> css_contains (href (ls ! j)) v \<Longrightarrow>
   \<exists>k\<le>j. first_link v ls = Some k \<and> css_contains (href (ls ! k)) v"
proof (induction v ls arbitrary: j rule: first_link.induct)
  case (1 v)
  then show ?case by simp
next
  case (2 v l ls)
  show ?case
  proof (cases "css_contains (href l) v")
    case True
    then show ?thesis by simp
  next
    case False
    with "2.prems" obtain j' where j: "j = Suc j'" by (cases j) auto
    with "2.prems" obtain k where "k \<le> j'" "first_link v ls = Some k" "css_contains (href (ls ! k)) v"
      using "2.IH" [OF False, of j'] by auto
    with False j show ?thesis by (intro exI [of _ "Suc k"]) simp
  qed
qed

lemma hrefs_set_active [simp]: "map href (set_active i b ls) = map href ls"
proof (cases i)
  case None
  then show ?thesis by (simp add: set_active_def)
next
  case (Some k)
  show ?thesis
  proof (cases "k < length ls")
    case True
    then have "(map href ls)[k := href (ls ! k)] = map href ls"
      by (metis list_update_id nth_map)
    with Some show ?thesis by (simp add: set_active_def map_update)
  next
    case False
    with Some show ?thesis by (simp add: set_active_def list_update_beyond)
  qed
qed

lemma length_set_active [simp]: "length (set_active i b ls) = length ls"
  by (simp add: set_active_def split: option.splits)

lemma highlightNavLink_snoc:
  "highlightNavLink y (ss @ [s]) ls =
     (case highlightNavLink y ss ls of Done ls' \<Rightarrow> highlight_section y s ls' | Threw e ls' \<Rightarrow> Threw e ls')"
  by (induction ss arbitrary: ls) (auto split: outcome.splits)

lemma length_highlight_spec [simp]: "length (highlight_spec y secs ls) = length ls"
  by (simp add: highlight_spec_def)

lemma hrefs_highlight_spec [simp]: "map href (highlight_spec y secs ls) = map href ls"
  by (rule nth_equalityI) (simp_all add: highlight_spec_def)

lemma highlight_spec_Nil [simp]: "highlight_spec y [] ls = ls"
  by (rule nth_equalityI) (simp_all add: highlight_spec_def)

lemma case_list_last_snoc:
  "case_list a (\<lambda>z zs. g (last (z # zs))) (xs @ [x]) = g x"
  by (cases xs) simp_all

lemma highlight_spec_snoc:
  "highlight_spec y (ss @ [s]) ls =
     set_active (link_target ls s) (in_band y s) (highlight_spec y ss ls)"
proof (rule nth_equalityI)
  show "length (highlight_spec y (ss @ [s]) ls) =
        length (set_active (link_target ls s) (in_band y s) (highlight_spec y ss ls))"
    by simp
next
  fix i assume "i < length (highlight_spec y (ss @ [s]) ls)"
  then have i: "i < length ls" by simp
  show "highlight_spec y (ss @ [s]) ls ! i =
        set_active (link_target ls s) (in_band y s) (highlight_spec y ss ls) ! i"
    using i by (cases "link_target ls s = Some i")
      (auto simp: highlight_spec_def set_active_def nth_list_update case_list_last_snoc split: option.splits)
qed

lemma highlight_section_ok:
  "css_string_ok (section_id s) \<Longrightarrow>
   highlight_section y s ls = Done (set_active (first_link (section_id s) ls) (in_band y s) ls)"
  by (simp add: highlight_section_def query_nav_link_def)

lemma highlight_refines_spec:
  assumes "list_all (\<lambda>s. css_string_ok (section_id s)) secs"
  shows "highlightNavLink y secs ls = Done (highlight_spec y secs ls)"
  using assms
proof (induction secs rule: rev_induct)
  case Nil
  then show ?case by simp
next
  case (snoc s ss)
  then have ok: "css_string_ok (section_id s)" and IH: "highlightNavLink y ss ls = Done (highlight_spec y ss ls)"
    by simp_all
  have "first_link (section_id s) (highlight_spec y ss ls) = link_target ls s"
    unfolding link_target_def by (rule first_link_hrefs) simp
  with IH ok show ?case
    by (simp add: highlightNavLink_snoc highlight_section_ok highlight_spec_snoc)
qed

lemma filter_distinct_target:
  "distinct (map f xs) \<Longrightarrow> k < length xs \<Longrightarrow> filter (\<lambda>x. f x = f (xs ! k)) xs = [xs ! k]"
proof (induction xs arbitrary: k)
  case Nil
  then show ?case by simp
next
  case (Cons x xs)
  show ?case
  proof (cases k)
    case 0
    from Cons.prems(1) have "\<forall>z\<in>set xs. f z \<noteq> f x" by (auto simp: image_iff)
    with 0 show ?thesis by (simp add: filter_empty_conv)
  next
    case (Suc k')
    with Cons.prems have "f x \<noteq> f (xs ! k')" by (auto simp: image_iff)
    with Cons.IH [of k'] Cons.prems Suc show ?thesis by simp
  qed
qed

lemma highlight_spec_target:
  assumes "distinct (map (link_target ls) secs)" and "k < length secs"
    and "link_target ls (secs ! k) = Some i" and "i < length ls"
  shows "link_active (highlight_spec y secs ls ! i) = in_band y (secs ! k)"
  using filter_distinct_target [OF assms(1,2)] assms(3,4)
  by (simp add: highlight_spec_def)

lemma highlight_spec_other:
  "(\<forall>s\<in>set secs. link_target ls s \<noteq> Some i) \<Longrightarrow> i < length ls \<Longrightarrow> highlight_spec y secs ls ! i = ls ! i"
  by (simp add: highlight_spec_def filter_empty_conv)

lemma bands_disjoint:
  assumes "sections_ordered secs" and "a < length secs" and "b < length secs"
    and "in_band y (secs ! a)" and "in_band y (secs ! b)"
  shows "a = b"
proof (rule ccontr)
  assume "a \<noteq> b"
  then consider "a < b" | "b < a" by arith
  then show False
  proof cases
    case 1
    with assms(1,3) have "offsetTop (secs ! a) + offsetHeight (secs ! a) \<le> offsetTop (secs ! b)"
      by (simp add: sections_ordered_def sorted_wrt_iff_nth_less)
    with assms(4,5) show False by (simp add: in_band_def Let_def)
  next
    case 2
    with assms(1,2) have "offsetTop (secs ! b) + offsetHeight (secs ! b) \<le> offsetTop (secs ! a)"
      by (simp add: sections_ordered_def sorted_wrt_iff_nth_less)
    with assms(4,5) show False by (simp add: in_band_def Let_def)
  qed
qed

lemma highlight_spec_section:
  assumes "distinct (map (link_target ls) secs)" and "\<forall>s\<in>set secs. link_target ls s \<noteq> None"
    and "a < length secs"
  shows "link_active (highlight_spec y secs ls ! the (link_target ls (secs ! a))) = in_band y (secs ! a)"
proof -
  from assms(2,3) obtain i where t: "link_target ls (secs ! a) = Some i"
    by (metis nth_mem option.exhaust)
  then have "i < length ls" by (simp add: link_target_def first_link_less)
  with highlight_spec_target [OF assms(1,3) t] t show ?thesis by simp
qed

text \<open>
  C11. With the sections stacked in document order without overlap and each section resolving to its own link, \<^verbatim>\<open>highlightNavLink\<close> leaves at most one section link active, one exactly when the scroll offset lies in some section band, and every other link unchanged.
\<close>

theorem highlight_one_active:
  assumes ids: "list_all (\<lambda>s. css_string_ok (section_id s)) secs"
    and ord: "sections_ordered secs"
    and dist: "distinct (map (link_target ls) secs)"
    and found: "\<forall>s\<in>set secs. link_target ls s \<noteq> None"
  shows "\<exists>ls'. highlightNavLink y secs ls = Done ls' \<and>
    (\<forall>a<length secs. \<forall>b<length secs.
       link_active (ls' ! the (link_target ls (secs ! a))) \<and>
       link_active (ls' ! the (link_target ls (secs ! b))) \<longrightarrow> a = b) \<and>
    ((\<exists>a<length secs. link_active (ls' ! the (link_target ls (secs ! a)))) \<longleftrightarrow>
       (\<exists>s\<in>set secs. in_band y s)) \<and>
    (\<forall>i<length ls. (\<forall>s\<in>set secs. link_target ls s \<noteq> Some i) \<longrightarrow> ls' ! i = ls ! i)"
proof (intro exI conjI allI impI)
  show "highlightNavLink y secs ls = Done (highlight_spec y secs ls)"
    by (rule highlight_refines_spec [OF ids])
  note act = highlight_spec_section [OF dist found]
  fix a b
  assume "a < length secs" and "b < length secs"
    and "link_active (highlight_spec y secs ls ! the (link_target ls (secs ! a))) \<and>
         link_active (highlight_spec y secs ls ! the (link_target ls (secs ! b)))"
  with act show "a = b" by (auto intro: bands_disjoint [OF ord])
next
  note act = highlight_spec_section [OF dist found]
  show "(\<exists>a<length secs. link_active (highlight_spec y secs ls ! the (link_target ls (secs ! a)))) \<longleftrightarrow>
        (\<exists>s\<in>set secs. in_band y s)"
  proof
    assume "\<exists>a<length secs. link_active (highlight_spec y secs ls ! the (link_target ls (secs ! a)))"
    then obtain a where "a < length secs" and "in_band y (secs ! a)" using act by blast
    then show "\<exists>s\<in>set secs. in_band y s" by (blast intro: nth_mem)
  next
    assume "\<exists>s\<in>set secs. in_band y s"
    then obtain a where "a < length secs" and "in_band y (secs ! a)" by (auto simp: in_set_conv_nth)
    then show "\<exists>a<length secs. link_active (highlight_spec y secs ls ! the (link_target ls (secs ! a)))"
      using act by blast
  qed
next
  fix i assume "i < length ls" and "\<forall>s\<in>set secs. link_target ls s \<noteq> Some i"
  then show "highlight_spec y secs ls ! i = ls ! i" by (rule highlight_spec_other [rotated])
qed

lemma highlightNavLink_throws:
  "\<exists>sec\<in>set secs. \<not> css_string_ok (section_id sec) \<Longrightarrow> \<exists>e ls'. highlightNavLink y secs ls = Threw e ls'"
proof (induction secs arbitrary: ls)
  case Nil
  then show ?case by simp
next
  case (Cons sec secs)
  show ?case
  proof (cases "css_string_ok (section_id sec)")
    case True
    with Cons show ?thesis by (simp add: highlight_section_ok)
  next
    case False
    then show ?thesis by (simp add: highlight_section_def query_nav_link_def)
  qed
qed

lemma listener_frame [simp]:
  "sections (navbar_on_scroll s) = sections s" "links (navbar_on_scroll s) = links s"
  "scrollY (navbar_on_scroll s) = scrollY s" "progress_width (navbar_on_scroll s) = progress_width s"
  "scrollHeight (navbar_on_scroll s) = scrollHeight s" "clientHeight (navbar_on_scroll s) = clientHeight s"
  "menu_active (navbar_on_scroll s) = menu_active s" "burger_active (navbar_on_scroll s) = burger_active s"
  "sections (highlight_on_scroll s) = sections s" "scrollY (highlight_on_scroll s) = scrollY s"
  "progress_width (highlight_on_scroll s) = progress_width s"
  "scrollHeight (highlight_on_scroll s) = scrollHeight s" "clientHeight (highlight_on_scroll s) = clientHeight s"
  "menu_active (highlight_on_scroll s) = menu_active s" "burger_active (highlight_on_scroll s) = burger_active s"
  "sections (progress_on_scroll s) = sections s" "links (progress_on_scroll s) = links s"
  "scrollY (progress_on_scroll s) = scrollY s"
  "menu_active (progress_on_scroll s) = menu_active s" "burger_active (progress_on_scroll s) = burger_active s"
  "sections (updateOnScroll s) = sections s" "links (updateOnScroll s) = links s"
  "scrollY (updateOnScroll s) = scrollY s" "progress_width (updateOnScroll s) = progress_width s"
  "menu_active (updateOnScroll s) = menu_active s" "burger_active (updateOnScroll s) = burger_active s"
  "sections (raf_callback s) = sections s" "scrollY (raf_callback s) = scrollY s"
  "menu_active (raf_callback s) = menu_active s" "burger_active (raf_callback s) = burger_active s"
  by (simp_all add: navbar_on_scroll_def highlight_on_scroll_def progress_on_scroll_def
      updateOnScroll_def raf_callback_def split: outcome.splits)

lemma scroll_event_frame [simp]:
  "ticking (scroll_event y s)" "sections (scroll_event y s) = sections s"
  "scrollY (scroll_event y s) = y"
  by (simp_all add: scroll_event_def updateOnScroll_def)

lemma menu_callbacks [simp]:
  "menu_active ((raf_callback ^^ k) s) = menu_active s"
  "burger_active ((raf_callback ^^ k) s) = burger_active s"
  by (induction k) simp_all

text \<open>
  C14. A section id that makes the selector invalid (a double quote) throws inside the frame callback before \<^verbatim>\<open>ticking = false\<close>: after one scroll and one frame the throttle is stuck with \<^verbatim>\<open>ticking\<close> set and no callback pending, and stays stuck whatever happens next.
\<close>

theorem throttle_stuck_forever:
  assumes ok: "throttle_ok s" and bad: "\<exists>sec\<in>set (sections s). \<not> css_string_ok (section_id sec)"
  shows "throttle_stuck (page_run (Scroll y # AnimationFrame # es) s)"
proof -
  let ?s1 = "scroll_event y s"
  have ok1: "throttle_ok ?s1" using page_step_throttle_ok [OF ok, of "Scroll y"] by simp
  have "throttle_stuck (animation_frame ?s1)"
  proof (cases "raf_requests ?s1")
    case 0
    then show ?thesis by (simp add: animation_frame_def throttle_stuck_def)
  next
    case (Suc r)
    with ok1 have r: "raf_requests ?s1 = 1" by (simp add: throttle_ok_def)
    from bad obtain e ls where "highlightNavLink y (sections s) (links ?s1) = Threw e ls"
      using highlightNavLink_throws by blast
    with r show ?thesis
      by (simp add: animation_frame_def throttle_stuck_def raf_callback_def)
  qed
  then show ?thesis
    using page_run_stuck [of "animation_frame ?s1" es] by (simp add: page_run_def)
qed

lemma page_step_menu_sync:
  "menu_active s = burger_active s \<Longrightarrow> menu_active (page_step e s) = burger_active (page_step e s)"
  by (cases e) (auto simp: hamburger_click_def nav_link_click_def scroll_event_def
      animation_frame_def split: option.splits)

text \<open>
  C15. The menu and the hamburger toggle together: if their \<^verbatim>\<open>active\<close> classes agree at the start they agree after any run, and a click on a navigation link leaves the menu closed.
\<close>

theorem menu_burger_sync:
  assumes "menu_active s = burger_active s"
  shows "menu_active (page_run es s) = burger_active (page_run es s) \<and>
         menu_active (page_run (es @ [NavLinkClick]) s) \<noteq> Some True"
proof -
  have "menu_active (page_run es s) = burger_active (page_run es s)"
    using assms by (induction es arbitrary: s) (simp_all add: page_run_def page_step_menu_sync)
  moreover have "menu_active (page_run (es @ [NavLinkClick]) s) \<noteq> Some True"
    by (simp add: page_run_def nav_link_click_def)
  ultimately show ?thesis by simp
qed

lemma progress_scroll_event:
  "progress_width (scroll_event y s) =
     css_width_percent (scrolled_percent (s\<lparr>scrollY := y\<rparr>)) (progress_width s)"
  by (simp add: scroll_event_def progress_on_scroll_def scrolled_percent_def)

text \<open>
  C16. On a page taller than the viewport, a scroll offset within the scrollable range sets the progress bar to \<^verbatim>\<open>scrollY / (scrollHeight - clientHeight) * 100\<close>, a width between 0 and 100 per cent.
\<close>

theorem progress_bounds:
  assumes "0 < scrollHeight s - clientHeight s" and "0 \<le> y"
    and "y \<le> real_of_int (scrollHeight s - clientHeight s)"
  shows "progress_width (scroll_event y s) = y / real_of_int (scrollHeight s - clientHeight s) * 100 \<and>
         0 \<le> progress_width (scroll_event y s) \<and> progress_width (scroll_event y s) \<le> 100"
proof -
  define h where "h = real_of_int (scrollHeight s - clientHeight s)"
  from assms(1) have h: "0 < h" by (simp add: h_def)
  from assms(3) have "y \<le> h" by (simp add: h_def)
  with h assms(2) have "0 \<le> y / h * 100" and "y / h * 100 \<le> 100"
    by (simp_all add: pos_divide_le_eq)
  moreover have "scrolled_percent (s\<lparr>scrollY := y\<rparr>) = Num (y / h * 100)"
    using h by (simp add: scrolled_percent_def h_def)
  ultimately show ?thesis
    unfolding h_def by (simp add: progress_scroll_event css_width_percent_def)
qed

text \<open>
  C17. On a page no taller than the viewport the percentage is \<^verbatim>\<open>NaN\<close> or infinite; the resulting width string is rejected and the bar keeps its previous width.
\<close>

theorem progress_short_page:
  assumes "scrollHeight s = clientHeight s"
  shows "scrolled_percent (s\<lparr>scrollY := y\<rparr>) \<in> {NaN, PosInf, NegInf} \<and>
         progress_width (scroll_event y s) = progress_width s"
  using assms
  by (auto simp: progress_scroll_event scrolled_percent_def css_width_percent_def)

text \<open>
  C10. A scroll event recomputes the active link at once, to the declarative specification \<open>highlight_spec\<close> (the last section resolving to a link decides it), and in addition requests a frame callback that recomputes it again when none is pending: the frame throttle does not limit the recomputation.
\<close>

theorem scroll_recomputes_synchronously:
  assumes "list_all (\<lambda>sec. css_string_ok (section_id sec)) (sections s)"
  shows "links (scroll_event y s) = highlight_spec y (sections s) (links s) \<and>
         raf_requests (scroll_event y s) = (if ticking s then raf_requests s else Suc (raf_requests s))"
  using highlight_refines_spec [OF assms, of y "links s"]
  by (simp add: scroll_event_def highlight_on_scroll_def updateOnScroll_def)

text \<open>
  C12. The substring selector picks the first link in document order whose href merely
  contains the section id: whenever link \<open>j\<close> contains it, the section's pass activates
  (or deactivates) some link \<open>k \<le> j\<close> and touches no other. With links
  \<^verbatim>\<open>#projects-archive\<close> and \<^verbatim>\<open>#projects\<close>, scrolling into section
  \<^verbatim>\<open>projects\<close> activates the archive link and never the section's own link.
\<close>

theorem substring_selector_wrong_link:
  assumes "css_string_ok (section_id sec)" and "j < length ls"
    and "css_contains (href (ls ! j)) (section_id sec)"
  shows "\<exists>k\<le>j. css_contains (href (ls ! k)) (section_id sec) \<and>
    highlightNavLink y [sec] ls = Done (ls[k := (ls ! k)\<lparr>link_active := in_band y sec\<rparr>])"
proof -
  from first_link_before [OF assms(2,3)] obtain k where
    k: "k \<le> j" "first_link (section_id sec) ls = Some k" "css_contains (href (ls ! k)) (section_id sec)"
    by blast
  with assms(1) show ?thesis
    by (intro exI [of _ k]) (simp add: highlight_section_def query_nav_link_def set_active_def)
qed

subsection \<open>Witnesses\<close>

lemma demo_page_throttle_ok: "throttle_ok demo_page"
  by (simp add: throttle_ok_def demo_page_def)

lemma demo_ids_ok: "list_all (\<lambda>sec. css_string_ok (section_id sec)) (sections demo_page)"
  by code_simp

theorem throttle_at_most_one_request_witness:
  "throttle_ok demo_page \<and> throttle_ok (page_run [Scroll 10, Scroll 20, AnimationFrame] demo_page)"
  using demo_page_throttle_ok throttle_at_most_one_request [OF demo_page_throttle_ok] by simp

theorem highlight_one_active_witness:
  "\<exists>ls'. highlightNavLink 700 (sections demo_page) (links demo_page) = Done ls' \<and>
    (\<forall>a<length (sections demo_page). \<forall>b<length (sections demo_page).
       link_active (ls' ! the (link_target (links demo_page) (sections demo_page ! a))) \<and>
       link_active (ls' ! the (link_target (links demo_page) (sections demo_page ! b))) \<longrightarrow> a = b) \<and>
    ((\<exists>a<length (sections demo_page).
        link_active (ls' ! the (link_target (links demo_page) (sections demo_page ! a)))) \<longleftrightarrow>
       (\<exists>s\<in>set (sections demo_page). in_band 700 s)) \<and>
    (\<forall>i<length (links demo_page).
       (\<forall>s\<in>set (sections demo_page). link_target (links demo_page) s \<noteq> Some i) \<longrightarrow>
       ls' ! i = links demo_page ! i)"
proof -
  have ord: "sections_ordered (sections demo_page)"
    by (simp add: sections_ordered_def demo_page_def)
  have dist: "distinct (map (link_target (links demo_page)) (sections demo_page))"
    by code_simp
  have found: "\<forall>s\<in>set (sections demo_page). link_target (links demo_page) s \<noteq> None"
    by code_simp
  show ?thesis by (rule highlight_one_active [OF demo_ids_ok ord dist found])
qed

theorem throttle_stuck_forever_witness:
  "throttle_ok quote_page \<and> (\<exists>sec\<in>set (sections quote_page). \<not> css_string_ok (section_id sec)) \<and>
   throttle_stuck (page_run [Scroll 50, AnimationFrame] quote_page)"
proof -
  have ok: "throttle_ok quote_page" by (simp add: throttle_ok_def quote_page_def demo_page_def)
  have bad: "\<exists>sec\<in>set (sections quote_page). \<not> css_string_ok (section_id sec)"
    by (simp add: quote_page_def css_string_ok_def)
  show ?thesis using ok bad throttle_stuck_forever [OF ok bad, of 50 "[]"] by simp
qed

theorem menu_burger_sync_witness:
  "menu_active demo_page = burger_active demo_page \<and>
   menu_active (page_run [HamburgerClick, Scroll 30] demo_page) =
     burger_active (page_run [HamburgerClick, Scroll 30] demo_page) \<and>
   menu_active (page_run ([HamburgerClick, Scroll 30] @ [NavLinkClick]) demo_page) \<noteq> Some True"
proof -
  have h: "menu_active demo_page = burger_active demo_page" by (simp add: demo_page_def)
  show ?thesis using h menu_burger_sync [OF h, of "[HamburgerClick, Scroll 30]"] by simp
qed

theorem progress_bounds_witness:
  "progress_width (scroll_event 600 demo_page) = 50"
proof -
  have "0 < scrollHeight demo_page - clientHeight demo_page" and "(0::real) \<le> 600"
    and "600 \<le> real_of_int (scrollHeight demo_page - clientHeight demo_page)"
    by (simp_all add: demo_page_def)
  from progress_bounds [OF this] show ?thesis by (simp add: demo_page_def)
qed

theorem progress_short_page_witness:
  "scrolled_percent ((demo_page\<lparr>scrollHeight := 800\<rparr>)\<lparr>scrollY := 0\<rparr>) \<in> {NaN, PosInf, NegInf} \<and>
   progress_width (scroll_event 0 (demo_page\<lparr>scrollHeight := 800\<rparr>)) = 0"
proof -
  have "scrollHeight (demo_page\<lparr>scrollHeight := 800\<rparr>) = clientHeight (demo_page\<lparr>scrollHeight := 800\<rparr>)"
    by (simp add: demo_page_def)
  from progress_short_page [OF this, of 0] show ?thesis by (simp add: demo_page_def)
qed

theorem scroll_recomputes_synchronously_witness:
  "links (scroll_event 700 demo_page) = highlight_spec 700 (sections demo_page) (links demo_page) \<and>
   raf_requests (scroll_event 700 demo_page) = 1"
  using scroll_recomputes_synchronously [OF demo_ids_ok, of 700] by (simp add: demo_page_def)

theorem substring_selector_wrong_link_witness:
  "highlightNavLink 50 [\<lparr>section_id = ''projects'', offsetTop = 0, offsetHeight = 1000\<rparr>]
     [\<lparr>href = ''#projects-archive'', link_active = False\<rparr>, \<lparr>href = ''#projects'', link_active = False\<rparr>] =
   Done [\<lparr>href = ''#projects-archive'', link_active = True\<rparr>, \<lparr>href = ''#projects'', link_active = False\<rparr>]"
proof -
  have h1: "css_string_ok (section_id \<lparr>section_id = ''projects'', offsetTop = 0, offsetHeight = 1000\<rparr>)"
    by code_simp
  have h2: "0 < length [\<lparr>href = ''#projects-archive'', link_active = False\<rparr>, \<lparr>href = ''#projects'', link_active = False\<rparr>]"
    by simp
  have h3: "css_contains (href ([\<lparr>href = ''#projects-archive'', link_active = False\<rparr>,
      \<lparr>href = ''#projects'', link_active = False\<rparr>] ! 0)) (section_id \<lparr>section_id = ''projects'', offsetTop = 0, offsetHeight = 1000\<rparr>)"
    by code_simp
  have band: "in_band 50 \<lparr>section_id = ''projects'', offsetTop = 0, offsetHeight = 1000\<rparr>"
    by (simp add: in_band_def)
  from substring_selector_wrong_link [OF h1 h2 h3, of 50] band show ?thesis by auto
qed

end
