(* ===== verification/Storage.thy ===== *)
theory Storage
  imports Prelude "HOL-Library.AList"
begin

text \<open>
  The browser's \<^verbatim>\<open>localStorage\<close> as the script uses it (\<^verbatim>\<open>getItem\<close>,
  \<^verbatim>\<open>setItem\<close>): an ordered list of key/value strings with distinct keys, and a quota on
  the total length of keys and values, which the host fixes. Following the Web Storage
  standard, \<^verbatim>\<open>setItem\<close> does nothing when the key already holds the value, and throws
  a \<^verbatim>\<open>QuotaExceededError\<close>, leaving the store unchanged, when the new value does not
  fit. Lengths are counted in characters of the model's strings.
\<close>

record storage =
  items :: "(string \<times> string) list"
  quota :: nat

definition get_item :: "string \<Rightarrow> storage \<Rightarrow> string option" where
  "get_item k st = map_of (items st) k"

definition storage_used :: "(string \<times> string) list \<Rightarrow> nat" where
  "storage_used xs = sum_list (map (\<lambda>(k, v). length k + length v) xs)"

definition set_item :: "string \<Rightarrow> string \<Rightarrow> storage \<Rightarrow> storage outcome" where
  "set_item k v st =
     (if map_of (items st) k = Some v then Done st
      else let xs = AList.update k v (items st)
           in if quota st < storage_used xs then Threw QuotaExceededError st
              else Done (st\<lparr>items := xs\<rparr>))"

text \<open>A store the host can hold: distinct keys, within the quota.\<close>

definition storage_ok :: "storage \<Rightarrow> bool" where
  "storage_ok st \<longleftrightarrow> distinct (map fst (items st)) \<and> storage_used (items st) \<le> quota st"

definition empty_storage :: "nat \<Rightarrow> storage" where
  "empty_storage n = \<lparr>items = [], quota = n\<rparr>"

subsection \<open>Laws of the store\<close>

lemma set_item_same [simp]: "get_item k st = Some v \<Longrightarrow> set_item k v st = Done st"
  by (simp add: set_item_def get_item_def)

lemma set_item_fits:
  "get_item k st \<noteq> Some v \<Longrightarrow> storage_used (AList.update k v (items st)) \<le> quota st \<Longrightarrow>
   set_item k v st = Done (st\<lparr>items := AList.update k v (items st)\<rparr>)"
  by (simp add: set_item_def get_item_def Let_def)

lemma set_item_quota:
  "get_item k st \<noteq> Some v \<Longrightarrow> quota st < storage_used (AList.update k v (items st)) \<Longrightarrow>
   set_item k v st = Threw QuotaExceededError st"
  by (simp add: set_item_def get_item_def Let_def)

text \<open>\<^verbatim>\<open>setItem\<close> either stores exactly the value under its key, or throws and
  changes nothing.\<close>

lemma set_item_cases:
  "(\<exists>st'. set_item k v st = Done st' \<and> get_item k st' = Some v \<and>
          (\<forall>k'. k' \<noteq> k \<longrightarrow> get_item k' st' = get_item k' st) \<and> quota st' = quota st) \<or>
   set_item k v st = Threw QuotaExceededError st"
  by (auto simp: set_item_def get_item_def Let_def update_conv')

lemma get_item_set_item:
  "set_item k v st = Done st' \<Longrightarrow> get_item k' st' = (if k' = k then Some v else get_item k' st)"
  by (auto simp: set_item_def get_item_def Let_def update_conv' split: if_splits)

lemma set_item_Threw: "set_item k v st = Threw e st' \<Longrightarrow> e = QuotaExceededError \<and> st' = st"
  by (auto simp: set_item_def Let_def split: if_splits)

lemma set_item_ok: "storage_ok st \<Longrightarrow> storage_ok (state_of (set_item k v st))"
  by (auto simp: set_item_def storage_ok_def Let_def distinct_update)

lemma set_item_ok_Done: "storage_ok st \<Longrightarrow> set_item k v st = Done st' \<Longrightarrow> storage_ok st'"
  using set_item_ok [of st k v] by simp

text \<open>Within the quota \<^verbatim>\<open>setItem\<close> returns normally.\<close>

lemma set_item_within_quota:
  "storage_used (AList.update k v (items st)) \<le> quota st \<Longrightarrow>
   \<exists>st'. set_item k v st = Done st' \<and> get_item k st' = Some v \<and>
         (\<forall>k'. k' \<noteq> k \<longrightarrow> get_item k' st' = get_item k' st)"
  by (auto simp: set_item_def get_item_def Let_def update_conv')

lemma storage_ok_empty [simp]: "storage_ok (empty_storage n)"
  by (simp add: storage_ok_def empty_storage_def storage_used_def)

lemma get_item_empty [simp]: "get_item k (empty_storage n) = None"
  by (simp add: get_item_def empty_storage_def)

end
