(* ===== verification/NotifyForm.thy ===== *)
theory NotifyForm
  imports Timers Storage
begin

text \<open>
  The live-stream notification form of \<^verbatim>\<open>src/script.js\<close> (lines 466--488). Its
  submit listener prevents the default submission, reads the e-mail field and, when it is
  non-empty, sets the button text to \<^verbatim>\<open>Subscribed!\<close>, stores the address under
  \<^verbatim>\<open>streamNotificationEmail\<close> and sets a 2000 ms timer that restores the button text
  read at submission and clears the field. A form child that is missing is \<open>None\<close>;
  reading it throws a \<^verbatim>\<open>TypeError\<close>. An exception ends the listener with its earlier
  writes kept, and the host reports it.
\<close>

record notify_form =
  email_value :: "string option"
  btn_text :: "string option"
  notify_store :: storage
  notify_reported :: "js_error list"

datatype notify_timer = ResetForm string

datatype notify_event = TypeEmail string | Submit

type_synonym notify_sys = "(notify_form, notify_timer) sys"

definition notify_key :: string where
  "notify_key = ''streamNotificationEmail''"

definition subscribed :: string where
  "subscribed = ''Subscribed!''"

definition notify_submit :: "notify_sys \<Rightarrow> notify_sys outcome" where
  "notify_submit c =
     (let (s, q) = c in
      case email_value s of
        None \<Rightarrow> Threw TypeError c
      | Some email \<Rightarrow>
          if email = [] then Done c
          else case btn_text s of
            None \<Rightarrow> Threw TypeError c
          | Some originalBtnText \<Rightarrow>
              let s1 = s\<lparr>btn_text := Some subscribed\<rparr>
              in case set_item notify_key email (notify_store s1) of
                   Threw e _ \<Rightarrow> Threw e (s1, q)
                 | Done st \<Rightarrow>
                     Done (s1\<lparr>notify_store := st\<rparr>,
                           snd (set_timeout 2000 (ResetForm originalBtnText) q)))"

fun notify_fire :: "notify_timer \<Rightarrow> notify_sys \<Rightarrow> notify_sys outcome" where
  "notify_fire (ResetForm t) (s, q) =
     (case btn_text s of
        None \<Rightarrow> Threw TypeError (s, q)
      | Some _ \<Rightarrow>
          (case email_value s of
             None \<Rightarrow> Threw TypeError (s\<lparr>btn_text := Some t\<rparr>, q)
           | Some _ \<Rightarrow> Done (s\<lparr>btn_text := Some t, email_value := Some []\<rparr>, q)))"

text \<open>The host reports an exception that ends a listener or a timer callback.\<close>

primrec notify_report :: "notify_sys outcome \<Rightarrow> notify_sys" where
  "notify_report (Done c) = c"
| "notify_report (Threw e c) = (fst c\<lparr>notify_reported := notify_reported (fst c) @ [e]\<rparr>, snd c)"

text \<open>Typing into the field changes its value; a submission runs the listener.\<close>

fun notify_handle :: "notify_event \<Rightarrow> notify_sys \<Rightarrow> notify_sys" where
  "notify_handle (TypeEmail v) (s, q) = (s\<lparr>email_value := map_option (\<lambda>_. v) (email_value s)\<rparr>, q)"
| "notify_handle Submit c = notify_report (notify_submit c)"

definition notify_run :: "notify_event input list \<Rightarrow> notify_sys \<Rightarrow> notify_sys option" where
  "notify_run = drive notify_handle (\<lambda>f c. notify_report (notify_fire f c))"

definition demo_form :: notify_form where
  "demo_form =
     \<lparr>email_value = Some ''fan@example.org'', btn_text = Some ''Notify Me'',
      notify_store = empty_storage 5242880, notify_reported = []\<rparr>"

subsection \<open>Helper lemmas\<close>

lemma notify_submit_empty [simp]: "email_value s = Some [] \<Longrightarrow> notify_submit (s, q) = Done (s, q)"
  by (simp add: notify_submit_def)

lemma notify_submit_Done:
  "email_value s = Some E \<Longrightarrow> E \<noteq> [] \<Longrightarrow> btn_text s = Some b \<Longrightarrow>
   set_item notify_key E (notify_store s) = Done st \<Longrightarrow>
   notify_submit (s, q) =
     Done (s\<lparr>btn_text := Some subscribed, notify_store := st\<rparr>,
           snd (set_timeout 2000 (ResetForm b) q))"
  by (simp add: notify_submit_def)

lemma notify_submit_Threw:
  "email_value s = Some E \<Longrightarrow> E \<noteq> [] \<Longrightarrow> btn_text s = Some b \<Longrightarrow>
   set_item notify_key E (notify_store s) = Threw e st \<Longrightarrow>
   notify_submit (s, q) = Threw e (s\<lparr>btn_text := Some subscribed\<rparr>, q)"
  by (simp add: notify_submit_def)

lemma notify_store_report [simp]:
  "notify_store (fst (notify_report r)) = notify_store (fst (state_of r))"
  by (cases r) auto

lemma notify_fire_store [simp]:
  "notify_store (fst (state_of (notify_fire f c))) = notify_store (fst c)"
  by (cases c, cases f) (simp split: option.splits)

lemma notify_submit_store_ok:
  assumes ok: "storage_ok (notify_store (fst c))"
  shows "storage_ok (notify_store (fst (state_of (notify_submit c))))"
proof -
  obtain s q where c: "c = (s, q)" by (cases c)
  show ?thesis
  proof (cases "\<exists>E b. email_value s = Some E \<and> E \<noteq> [] \<and> btn_text s = Some b")
    case False
    with ok c show ?thesis by (auto simp: notify_submit_def split: option.splits)
  next
    case True
    then obtain E b where E: "email_value s = Some E" "E \<noteq> []" and b: "btn_text s = Some b"
      by blast
    show ?thesis
    proof (cases "set_item notify_key E (notify_store s)")
      case (Done st)
      with ok c have "storage_ok st" by (simp add: set_item_ok_Done)
      with c show ?thesis by (simp add: notify_submit_Done [OF E b Done])
    next
      case (Threw e st)
      with ok c show ?thesis by (simp add: notify_submit_Threw [OF E b Threw])
    qed
  qed
qed

lemma notify_event_store_ok:
  "storage_ok (notify_store s) \<Longrightarrow> storage_ok (notify_store (fst (notify_handle e (s, q))))"
  using notify_submit_store_ok [of "(s, q)"] by (cases e) simp_all

lemma notify_report_email [simp]:
  "email_value (fst (notify_report r)) = email_value (fst (state_of r))"
  by (cases r) auto

lemma notify_submit_email [simp]:
  "email_value (fst (state_of (notify_submit c))) = email_value (fst c)"
  by (cases c) (auto simp: notify_submit_def Let_def split: option.splits outcome.splits)

lemma notify_submit_store_cases:
  "notify_store (fst (state_of (notify_submit (s, q)))) = notify_store s \<or>
   (\<exists>E. email_value s = Some E \<and> E \<noteq> [] \<and>
      set_item notify_key E (notify_store s) = Done (notify_store (fst (state_of (notify_submit (s, q))))))"
  by (auto simp: notify_submit_def Let_def split: option.splits outcome.splits)

lemma notify_fire_email:
  "email_value (fst (state_of (notify_fire f c))) = email_value (fst c) \<or>
   email_value (fst (state_of (notify_fire f c))) = Some []"
  by (cases c, cases f) (simp split: option.splits)

subsection \<open>Properties\<close>

text \<open>
  C18. A submission with an empty field changes nothing. A submission with a non-empty address, when it fits in the store, sets the button to \<^verbatim>\<open>Subscribed!\<close>, stores exactly that address under \<^verbatim>\<open>streamNotificationEmail\<close> (overwriting any earlier one, other keys untouched) and sets one 2000 ms timer that will restore the button text read at submission.
\<close>

theorem notify_submit_stores:
  assumes "email_value s = Some E" and "btn_text s = Some b"
    and "storage_used (AList.update notify_key E (items (notify_store s))) \<le> quota (notify_store s)"
  shows "(E = [] \<longrightarrow> notify_submit (s, q) = Done (s, q)) \<and>
    (E \<noteq> [] \<longrightarrow> (\<exists>st. notify_submit (s, q) =
        Done (s\<lparr>btn_text := Some subscribed, notify_store := st\<rparr>,
              snd (set_timeout 2000 (ResetForm b) q)) \<and>
      get_item notify_key st = Some E \<and>
      (\<forall>k. k \<noteq> notify_key \<longrightarrow> get_item k st = get_item k (notify_store s))))"
proof (intro conjI impI)
  assume "E = []"
  with assms(1) show "notify_submit (s, q) = Done (s, q)" by simp
next
  assume E: "E \<noteq> []"
  from set_item_within_quota [OF assms(3)] obtain st where
    st: "set_item notify_key E (notify_store s) = Done st" "get_item notify_key st = Some E"
      "\<forall>k. k \<noteq> notify_key \<longrightarrow> get_item k st = get_item k (notify_store s)"
    by blast
  with notify_submit_Done [OF assms(1) E assms(2) st(1)]
  show "\<exists>st. notify_submit (s, q) =
        Done (s\<lparr>btn_text := Some subscribed, notify_store := st\<rparr>,
              snd (set_timeout 2000 (ResetForm b) q)) \<and>
      get_item notify_key st = Some E \<and>
      (\<forall>k. k \<noteq> notify_key \<longrightarrow> get_item k st = get_item k (notify_store s))"
    by blast
qed

theorem notify_submit_stores_witness:
  "email_value demo_form = Some ''fan@example.org'' \<and> btn_text demo_form = Some ''Notify Me'' \<and>
   storage_used (AList.update notify_key ''fan@example.org'' (items (notify_store demo_form)))
     \<le> quota (notify_store demo_form) \<and>
   (\<exists>st. notify_submit (demo_form, no_timers) =
        Done (demo_form\<lparr>btn_text := Some subscribed, notify_store := st\<rparr>,
              snd (set_timeout 2000 (ResetForm ''Notify Me'') no_timers)) \<and>
      get_item notify_key st = Some ''fan@example.org'' \<and>
      (\<forall>k. k \<noteq> notify_key \<longrightarrow> get_item k st = get_item k (notify_store demo_form)))"
proof -
  have h: "email_value demo_form = Some ''fan@example.org''" "btn_text demo_form = Some ''Notify Me''"
    "storage_used (AList.update notify_key ''fan@example.org'' (items (notify_store demo_form)))
       \<le> quota (notify_store demo_form)"
    by (simp_all add: demo_form_def empty_storage_def storage_used_def notify_key_def)
  have "''fan@example.org'' \<noteq> []" by simp
  then show ?thesis using h notify_submit_stores [OF h, of no_timers] by blast
qed

text \<open>
  C19. After one successful submission at time \<open>t\<close>, the timer fires at \<open>t + 2000\<close>, restores the original button text and clears the field; the address stays stored and nothing is reported.
\<close>

theorem notify_reset_after_2000:
  assumes "email_value s = Some E" "E \<noteq> []" "btn_text s = Some b"
    and "storage_used (AList.update notify_key E (items (notify_store s))) \<le> quota (notify_store s)"
    and "pending q = []" "clock q \<le> t"
  shows "\<exists>s' q'. notify_run [Event t Submit, Fire] (s, q) = Some (s', q') \<and>
    btn_text s' = Some b \<and> email_value s' = Some [] \<and>
    get_item notify_key (notify_store s') = Some E \<and>
    pending q' = [] \<and> clock q' = t + 2000 \<and> notify_reported s' = notify_reported s"
proof -
  from set_item_within_quota [OF assms(4)] obtain st where
    st: "set_item notify_key E (notify_store s) = Done st" "get_item notify_key st = Some E"
    by blast
  have "timely t q" using assms(5,6) by (simp add: timely_def)
  with assms(1-3,5) st show ?thesis
    by (simp add: notify_run_def notify_submit_Done set_timeout_def)
qed

theorem notify_reset_after_2000_witness:
  "\<exists>s' q'. notify_run [Event 100 Submit, Fire] (demo_form, no_timers) = Some (s', q') \<and>
    btn_text s' = Some ''Notify Me'' \<and> email_value s' = Some [] \<and>
    get_item notify_key (notify_store s') = Some ''fan@example.org'' \<and>
    pending q' = [] \<and> clock q' = 100 + 2000 \<and> notify_reported s' = notify_reported demo_form"
  by (rule notify_reset_after_2000 [where E = "''fan@example.org''"])
     (simp_all add: demo_form_def empty_storage_def storage_used_def notify_key_def no_timers_def)

text \<open>
  C20. A second submission before the first timer has fired (the field is not cleared until then) reads \<^verbatim>\<open>Subscribed!\<close> as the original text. When both timers have fired, the button shows \<^verbatim>\<open>Subscribed!\<close> for good and no timer is left to restore it.
\<close>

theorem notify_double_submit_stuck:
  assumes "email_value s = Some E" "E \<noteq> []" "btn_text s = Some b"
    and "storage_used (AList.update notify_key E (items (notify_store s))) \<le> quota (notify_store s)"
    and "pending q = []" "clock q \<le> t" "t \<le> t'" "t' \<le> t + 2000"
  shows "\<exists>s' q'. notify_run [Event t Submit, Event t' Submit, Fire, Fire] (s, q) = Some (s', q') \<and>
    btn_text s' = Some subscribed \<and> email_value s' = Some [] \<and> pending q' = []"
proof -
  from set_item_within_quota [OF assms(4)] obtain st where
    st: "set_item notify_key E (notify_store s) = Done st" "get_item notify_key st = Some E"
    by blast
  have "timely t q" using assms(5,6) by (simp add: timely_def)
  with assms(1-3,5,7,8) st show ?thesis
    by (simp add: notify_run_def notify_submit_Done set_timeout_def timely_def pop_timer_def)
qed

theorem notify_double_submit_stuck_witness:
  "\<exists>s' q'. notify_run [Event 100 Submit, Event 600 Submit, Fire, Fire] (demo_form, no_timers) = Some (s', q') \<and>
    btn_text s' = Some subscribed \<and> email_value s' = Some [] \<and> pending q' = []"
  by (rule notify_double_submit_stuck [where E = "''fan@example.org''" and b = "''Notify Me''"])
     (simp_all add: demo_form_def empty_storage_def storage_used_def notify_key_def no_timers_def)

text \<open>
  C21. When the address does not fit in the store, \<^verbatim>\<open>setItem\<close> throws a \<^verbatim>\<open>QuotaExceededError\<close> after the button was set to \<^verbatim>\<open>Subscribed!\<close>: the address is not stored, no reset timer is set, and however many timers fire later the button keeps saying \<^verbatim>\<open>Subscribed!\<close>.
\<close>

theorem notify_quota_stuck:
  assumes "email_value s = Some E" "E \<noteq> []" "btn_text s = Some b"
    and "get_item notify_key (notify_store s) \<noteq> Some E"
    and "quota (notify_store s) < storage_used (AList.update notify_key E (items (notify_store s)))"
    and "pending q = []" "clock q \<le> t"
  shows "notify_run (Event t Submit # replicate n Fire) (s, q) =
    Some (s\<lparr>btn_text := Some subscribed, notify_reported := notify_reported s @ [QuotaExceededError]\<rparr>,
          q\<lparr>clock := t\<rparr>)"
proof -
  have "notify_submit (s, q\<lparr>clock := t\<rparr>) = Threw QuotaExceededError (s\<lparr>btn_text := Some subscribed\<rparr>, q\<lparr>clock := t\<rparr>)"
    by (rule notify_submit_Threw [OF assms(1-3) set_item_quota [OF assms(4,5)]])
  moreover have "timely t q" using assms(6,7) by (simp add: timely_def)
  ultimately show ?thesis using assms(6) by (simp add: notify_run_def drive_idle)
qed

theorem notify_quota_stuck_witness:
  "notify_run (Event 100 Submit # replicate 3 Fire) (demo_form\<lparr>notify_store := empty_storage 10\<rparr>, no_timers) =
    Some (demo_form\<lparr>notify_store := empty_storage 10, btn_text := Some subscribed,
                    notify_reported := [QuotaExceededError]\<rparr>,
          (no_timers :: notify_timer timers)\<lparr>clock := 100\<rparr>)"
proof -
  have "notify_run (Event 100 Submit # replicate 3 Fire) (demo_form\<lparr>notify_store := empty_storage 10\<rparr>, no_timers) =
    Some (demo_form\<lparr>notify_store := empty_storage 10\<rparr>\<lparr>btn_text := Some subscribed,
            notify_reported := notify_reported (demo_form\<lparr>notify_store := empty_storage 10\<rparr>) @ [QuotaExceededError]\<rparr>,
          (no_timers :: notify_timer timers)\<lparr>clock := 100\<rparr>)"
    by (rule notify_quota_stuck [where E = "''fan@example.org''"])
       (simp_all add: demo_form_def empty_storage_def storage_used_def notify_key_def no_timers_def get_item_def)
  then show ?thesis by (simp add: demo_form_def)
qed

text \<open>
  C22. Over any run of the form the store changes only under
  \<^verbatim>\<open>streamNotificationEmail\<close>, and what it holds there is either what it held
  before or a non-empty address the field held: its value at the start or a value typed
  into it during the run.
\<close>

theorem notify_store_writes_address:
  assumes "notify_run is c = Some c'"
  shows "(\<forall>k. k \<noteq> notify_key \<longrightarrow> get_item k (notify_store (fst c')) = get_item k (notify_store (fst c))) \<and>
    (get_item notify_key (notify_store (fst c')) = get_item notify_key (notify_store (fst c)) \<or>
     (\<exists>v. get_item notify_key (notify_store (fst c')) = Some v \<and> v \<noteq> [] \<and>
        (email_value (fst c) = Some v \<or> TypeEmail v \<in> set (event_payloads is))))"
proof -
  define V where "V = {v. email_value (fst c) = Some v \<or> TypeEmail v \<in> set (event_payloads is)}"
  define st0 where "st0 = notify_store (fst c)"
  define I where "I = (\<lambda>s :: notify_form. (\<forall>k. k \<noteq> notify_key \<longrightarrow> get_item k (notify_store s) = get_item k st0) \<and>
    (get_item notify_key (notify_store s) = get_item notify_key st0 \<or>
     (\<exists>v\<in>V. v \<noteq> [] \<and> get_item notify_key (notify_store s) = Some v)) \<and>
    (\<forall>v. email_value s = Some v \<longrightarrow> v = [] \<or> v \<in> V))"
  define E where "E = {e. e = Submit \<or> (\<exists>v\<in>V. e = TypeEmail v)}"
  have H: "I (fst (notify_handle e (s, q)))" if "e \<in> E" "I s" for e s and q :: "notify_timer timers"
  proof (cases e)
    case (TypeEmail v)
    with that show ?thesis by (auto simp: I_def E_def)
  next
    case Submit
    let ?r = "notify_submit (s, q)"
    have em: "email_value (fst (notify_handle e (s, q))) = email_value s"
      and st: "notify_store (fst (notify_handle e (s, q))) = notify_store (fst (state_of ?r))"
      using Submit by simp_all
    from notify_submit_store_cases [of s q] show ?thesis
    proof
      assume "notify_store (fst (state_of ?r)) = notify_store s"
      with that(2) em st show ?thesis by (simp only: I_def) blast
    next
      assume "\<exists>E. email_value s = Some E \<and> E \<noteq> [] \<and>
        set_item notify_key E (notify_store s) = Done (notify_store (fst (state_of ?r)))"
      then obtain E where E: "email_value s = Some E" "E \<noteq> []"
        and set: "set_item notify_key E (notify_store s) = Done (notify_store (fst (state_of ?r)))"
        by blast
      have EV: "E \<in> V" using that(2) E unfolding I_def by blast
      have g: "get_item k (notify_store (fst (notify_handle e (s, q)))) =
          (if k = notify_key then Some E else get_item k (notify_store s))" for k
        using get_item_set_item [OF set, of k] st by simp
      have frame: "\<forall>k. k \<noteq> notify_key \<longrightarrow> get_item k (notify_store s) = get_item k st0"
        and fld: "\<forall>v. email_value s = Some v \<longrightarrow> v = [] \<or> v \<in> V"
        using that(2) unfolding I_def by blast+
      show ?thesis unfolding I_def
      proof (intro conjI allI impI)
        fix k assume "k \<noteq> notify_key"
        then show "get_item k (notify_store (fst (notify_handle e (s, q)))) = get_item k st0"
          using g [of k] frame by simp
      next
        show "get_item notify_key (notify_store (fst (notify_handle e (s, q)))) = get_item notify_key st0 \<or>
          (\<exists>v\<in>V. v \<noteq> [] \<and> get_item notify_key (notify_store (fst (notify_handle e (s, q)))) = Some v)"
          using g [of notify_key] EV E(2) by simp
      next
        fix v assume "email_value (fst (notify_handle e (s, q))) = Some v"
        then show "v = [] \<or> v \<in> V" using em fld by simp
      qed
    qed
  qed
  have F: "I (fst (notify_report (notify_fire f (s, q))))" if "I s" for f s and q :: "notify_timer timers"
    using that notify_fire_email [of f "(s, q)"] by (auto simp: I_def)
  have events: "set (event_payloads is) \<subseteq> E"
  proof
    fix e assume e: "e \<in> set (event_payloads is)"
    show "e \<in> E"
    proof (cases e)
      case (TypeEmail v)
      with e have "v \<in> V" by (simp add: V_def)
      with TypeEmail show ?thesis by (auto simp: E_def)
    qed (simp add: E_def)
  qed
  have start: "I (fst c)" by (auto simp: I_def V_def st0_def)
  from assms have "drive notify_handle (\<lambda>f c. notify_report (notify_fire f c)) is c = Some c'"
    by (simp add: notify_run_def)
  from drive_inv_on [OF H F this events start] show ?thesis
    by (auto simp: I_def V_def st0_def)
qed

theorem notify_store_writes_address_witness:
  "notify_run [Event 1 (TypeEmail ''a@b.org''), Event 2 Submit]
     (demo_form\<lparr>notify_store := \<lparr>items = [(''theme'', ''dark'')], quota = 100\<rparr>\<rparr>, no_timers) =
   Some (demo_form\<lparr>email_value := Some ''a@b.org'', btn_text := Some subscribed,
           notify_store := \<lparr>items = [(''theme'', ''dark''), (notify_key, ''a@b.org'')], quota = 100\<rparr>\<rparr>,
         \<lparr>clock = 2, next_handle = 2, pending = [(1, 2002, ResetForm ''Notify Me'')]\<rparr>) \<and>
   get_item ''theme'' \<lparr>items = [(''theme'', ''dark''), (notify_key, ''a@b.org'')], quota = 100\<rparr> = Some ''dark''"
proof -
  have run: "notify_run [Event 1 (TypeEmail ''a@b.org''), Event 2 Submit]
     (demo_form\<lparr>notify_store := \<lparr>items = [(''theme'', ''dark'')], quota = 100\<rparr>\<rparr>, no_timers) =
   Some (demo_form\<lparr>email_value := Some ''a@b.org'', btn_text := Some subscribed,
           notify_store := \<lparr>items = [(''theme'', ''dark''), (notify_key, ''a@b.org'')], quota = 100\<rparr>\<rparr>,
         \<lparr>clock = 2, next_handle = 2, pending = [(1, 2002, ResetForm ''Notify Me'')]\<rparr>)"
    by (simp add: notify_run_def timely_def no_timers_def notify_submit_def set_item_def set_timeout_def
        demo_form_def notify_key_def storage_used_def)
  have "''theme'' \<noteq> notify_key" by (simp add: notify_key_def)
  with notify_store_writes_address [OF run] have
    "get_item ''theme'' \<lparr>items = [(''theme'', ''dark''), (notify_key, ''a@b.org'')], quota = 100\<rparr> =
     get_item ''theme'' \<lparr>items = [(''theme'', ''dark'')], quota = 100\<rparr>"
    by simp
  with run show ?thesis by (simp add: get_item_def)
qed

end
