(* ===== verification/Typing.thy ===== *)
theory Typing
  imports Timers
begin

text \<open>
  The typing effect of \<^verbatim>\<open>src/script.js\<close> (lines 110--134). On the window's
  \<^verbatim>\<open>load\<close> event the script reads the text of \<^verbatim>\<open>.hero-subtitle\<close> and sets a
  1500 ms timer that calls \<^verbatim>\<open>typeWriter(subtitle, originalText, 80)\<close>. That function
  empties the element and calls its inner \<^verbatim>\<open>type\<close>, which appends the character at
  the closure's index \<^verbatim>\<open>i\<close>, increments it and sets a timer for itself, until
  \<^verbatim>\<open>i\<close> reaches the text's length. The closure's text, index and speed travel in the
  timer value. The subtitle is \<open>None\<close> when the page has no such element.
\<close>

record typing_page =
  subtitle :: "string option"

datatype typing_timer = StartTyping string | TypeNext string nat nat

datatype typing_event = WindowLoad

type_synonym typing_sys = "(typing_page, typing_timer) sys"

text \<open>\<^verbatim>\<open>type()\<close> with the closure's \<^verbatim>\<open>text\<close>, \<^verbatim>\<open>i\<close> and \<^verbatim>\<open>speed\<close>.\<close>

definition type_step :: "string \<Rightarrow> nat \<Rightarrow> nat \<Rightarrow> typing_sys \<Rightarrow> typing_sys" where
  "type_step text i speed c =
     (let (s, q) = c
      in if i < length text
         then (s\<lparr>subtitle := map_option (\<lambda>tc. tc @ [text ! i]) (subtitle s)\<rparr>,
               snd (set_timeout speed (TypeNext text (Suc i) speed) q))
         else (s, q))"

definition typeWriter :: "string \<Rightarrow> nat \<Rightarrow> typing_sys \<Rightarrow> typing_sys" where
  "typeWriter text speed c =
     (let (s, q) = c in type_step text 0 speed (s\<lparr>subtitle := map_option (\<lambda>_. []) (subtitle s)\<rparr>, q))"

fun typing_fire :: "typing_timer \<Rightarrow> typing_sys \<Rightarrow> typing_sys" where
  "typing_fire (StartTyping text) c = typeWriter text 80 c"
| "typing_fire (TypeNext text i speed) c = type_step text i speed c"

fun typing_load :: "typing_event \<Rightarrow> typing_sys \<Rightarrow> typing_sys" where
  "typing_load WindowLoad (s, q) =
     (case subtitle s of
        None \<Rightarrow> (s, q)
      | Some originalText \<Rightarrow> (s, snd (set_timeout 1500 (StartTyping originalText) q)))"

definition typing_run :: "typing_event input list \<Rightarrow> typing_sys \<Rightarrow> typing_sys option" where
  "typing_run = drive typing_load typing_fire"

subsection \<open>Helper lemmas\<close>

lemma fire_type_next:
  assumes "pending q = [(h, d, TypeNext T i sp)]" "i < length T" "subtitle s = Some (take i T)"
  shows "drive typing_load typing_fire (Fire # rest) (s, q) =
    drive typing_load typing_fire rest
      (s\<lparr>subtitle := Some (take (Suc i) T)\<rparr>,
       q\<lparr>clock := max (clock q) d, next_handle := Suc (next_handle q),
         pending := [(next_handle q, max (clock q) d + sp, TypeNext T (Suc i) sp)]\<rparr>)"
  using assms by (simp add: type_step_def set_timeout_def take_Suc_conv_app_nth)

lemma fire_type_last:
  assumes "pending q = [(h, d, TypeNext T (length T) sp)]"
  shows "drive typing_load typing_fire (Fire # rest) (s, q) =
    drive typing_load typing_fire rest (s, q\<lparr>clock := max (clock q) d, pending := []\<rparr>)"
  using assms by (simp add: type_step_def)

lemma typing_fires:
  assumes "i + k \<le> length T" "subtitle s = Some (take i T)"
    "pending q = [(h, d, TypeNext T i sp)]" "clock q \<le> d"
  shows "\<exists>h' q'. drive typing_load typing_fire (replicate k Fire) (s, q) =
      Some (s\<lparr>subtitle := Some (take (i + k) T)\<rparr>, q') \<and>
    pending q' = [(h', d + sp * k, TypeNext T (i + k) sp)] \<and>
    clock q' = (if k = 0 then clock q else d + sp * (k - 1))"
  using assms
proof (induction k arbitrary: i s q h d)
  case 0
  then show ?case by simp
next
  case (Suc k)
  let ?s = "s\<lparr>subtitle := Some (take (Suc i) T)\<rparr>"
  let ?q = "q\<lparr>clock := d, next_handle := Suc (next_handle q),
              pending := [(next_handle q, d + sp, TypeNext T (Suc i) sp)]\<rparr>"
  have fire: "drive typing_load typing_fire (replicate (Suc k) Fire) (s, q) =
      drive typing_load typing_fire (replicate k Fire) (?s, ?q)"
    using fire_type_next [OF Suc.prems(3) _ Suc.prems(2), of "replicate k Fire"] Suc.prems(1,4)
    by (simp add: max_def)
  from Suc.IH [of "Suc i" ?s ?q] Suc.prems(1) obtain h' q' where
    "drive typing_load typing_fire (replicate k Fire) (?s, ?q) =
       Some (?s\<lparr>subtitle := Some (take (Suc i + k) T)\<rparr>, q')"
    "pending q' = [(h', d + sp + sp * k, TypeNext T (Suc i + k) sp)]"
    "clock q' = (if k = 0 then d else d + sp + sp * (k - 1))"
    by auto
  with fire show ?case by (cases k) (auto simp: algebra_simps)
qed

lemma typing_load_fire:
  assumes "subtitle s = Some T" "T \<noteq> []" "pending q = []" "clock q \<le> t"
  shows "typing_run (Event t WindowLoad # Fire # rest) (s, q) =
    drive typing_load typing_fire rest
      (s\<lparr>subtitle := Some (take 1 T)\<rparr>,
       q\<lparr>clock := t + 1500, next_handle := Suc (Suc (next_handle q)),
         pending := [(Suc (next_handle q), t + 1500 + 80, TypeNext T 1 80)]\<rparr>)"
  using assms
  by (simp add: typing_run_def timely_def set_timeout_def typeWriter_def type_step_def take_Suc_conv_app_nth
                hd_conv_nth [symmetric] take_Suc)

subsection \<open>Properties\<close>

text \<open>
  C23. The typing effect terminates: after the load event at \<open>t\<close> and one timer per
  character plus one, the subtitle shows its original text again, no timer is pending, and
  the clock stands at \<open>t + 1500 + 80 \<cdot> length T\<close>; any further timer turn changes nothing.
\<close>

theorem typing_terminates:
  assumes "subtitle s = Some T" "pending q = []" "clock q \<le> t"
  shows "\<exists>q'. typing_run (Event t WindowLoad # replicate (Suc (length T) + n) Fire) (s, q) = Some (s, q') \<and>
    pending q' = [] \<and> clock q' = t + 1500 + 80 * length T"
proof (cases "T = []")
  case True
  with assms show ?thesis
    by (simp add: typing_run_def timely_def set_timeout_def typeWriter_def type_step_def drive_idle)
next
  case False
  let ?s1 = "s\<lparr>subtitle := Some (take 1 T)\<rparr>"
  let ?q1 = "q\<lparr>clock := t + 1500, next_handle := Suc (Suc (next_handle q)),
               pending := [(Suc (next_handle q), t + 1500 + 80, TypeNext T 1 80)]\<rparr>"
  have split: "replicate (Suc (length T) + n) Fire =
      Fire # replicate (length T - 1) Fire @ Fire # replicate n Fire"
    using False by (cases T) (simp_all add: replicate_app_Cons_same replicate_add)
  from typing_fires [of 1 "length T - 1" T ?s1 ?q1] False obtain h' q' where
    run: "drive typing_load typing_fire (replicate (length T - 1) Fire) (?s1, ?q1) =
      Some (?s1\<lparr>subtitle := Some T\<rparr>, q')" and
    p: "pending q' = [(h', t + 1500 + 80 + 80 * (length T - 1), TypeNext T (length T) 80)]" and
    c: "clock q' = (if length T - 1 = 0 then t + 1500 else t + 1500 + 80 + 80 * (length T - 1 - 1))"
    by auto
  have due: "t + 1500 + 80 + 80 * (length T - 1) = t + 1500 + 80 * length T"
    using False by (cases T) simp_all
  have cq: "clock q' \<le> t + 1500 + 80 * length T"
    using c False by (cases T) auto
  have "typing_run (Event t WindowLoad # replicate (Suc (length T) + n) Fire) (s, q) =
      drive typing_load typing_fire (replicate (length T - 1) Fire @ Fire # replicate n Fire) (?s1, ?q1)"
    unfolding split by (rule typing_load_fire [OF assms(1) False assms(2,3)])
  also have "\<dots> = drive typing_load typing_fire (Fire # replicate n Fire) (?s1\<lparr>subtitle := Some T\<rparr>, q')"
    by (simp only: drive_append run) simp
  also have "\<dots> = drive typing_load typing_fire (replicate n Fire)
      (?s1\<lparr>subtitle := Some T\<rparr>, q'\<lparr>clock := max (clock q') (t + 1500 + 80 + 80 * (length T - 1)), pending := []\<rparr>)"
    by (rule fire_type_last [OF p])
  also have "\<dots> = Some (s, q'\<lparr>clock := t + 1500 + 80 * length T, pending := []\<rparr>)"
    using assms(1) cq due by (simp add: drive_idle max_def)
  finally show ?thesis by auto
qed

theorem typing_terminates_witness:
  "\<exists>q'. typing_run (Event 0 WindowLoad # replicate (Suc (length ''Dev'') + 2) Fire)
          (\<lparr>subtitle = Some ''Dev''\<rparr>, no_timers) = Some (\<lparr>subtitle = Some ''Dev''\<rparr>, q') \<and>
     pending q' = [] \<and> clock q' = 0 + 1500 + 80 * length ''Dev''"
  by (rule typing_terminates) (simp_all add: no_timers_def)

text \<open>
  C24. The subtitle is typed one character per 80 ms: after the load event and \<open>m\<close>
  timer turns (\<open>0 < m \<le> length T\<close>), it shows the first \<open>m\<close> characters, the
  \<open>m\<close>-th having appeared at \<open>t + 1500 + 80 (m - 1)\<close>, and the single pending timer
  will continue at index \<open>m\<close> 80 ms later.
\<close>

theorem typing_shows_prefix:
  assumes "subtitle s = Some T" "pending q = []" "clock q \<le> t" "0 < m" "m \<le> length T"
  shows "\<exists>h q'. typing_run (Event t WindowLoad # replicate m Fire) (s, q) =
      Some (s\<lparr>subtitle := Some (take m T)\<rparr>, q') \<and>
    clock q' = t + 1500 + 80 * (m - 1) \<and> pending q' = [(h, t + 1500 + 80 * m, TypeNext T m 80)]"
proof -
  have T: "T \<noteq> []" using assms(4,5) by auto
  let ?s1 = "s\<lparr>subtitle := Some (take 1 T)\<rparr>"
  let ?q1 = "q\<lparr>clock := t + 1500, next_handle := Suc (Suc (next_handle q)),
               pending := [(Suc (next_handle q), t + 1500 + 80, TypeNext T 1 80)]\<rparr>"
  from typing_fires [of 1 "m - 1" T ?s1 ?q1] assms(4,5) obtain h' q' where
    run: "drive typing_load typing_fire (replicate (m - 1) Fire) (?s1, ?q1) =
      Some (?s1\<lparr>subtitle := Some (take m T)\<rparr>, q')" and
    p: "pending q' = [(h', t + 1500 + 80 + 80 * (m - 1), TypeNext T m 80)]" and
    c: "clock q' = (if m - 1 = 0 then t + 1500 else t + 1500 + 80 + 80 * (m - 1 - 1))"
    by auto
  have m: "replicate m Fire = Fire # replicate (m - 1) Fire" using assms(4) by (cases m) simp_all
  have c': "clock q' = t + 1500 + 80 * (m - 1)" and due: "t + 1500 + 80 + 80 * (m - 1) = t + 1500 + 80 * m"
    using c assms(4) by (cases m; auto simp: algebra_simps)+
  have "typing_run (Event t WindowLoad # replicate m Fire) (s, q) =
      Some (s\<lparr>subtitle := Some (take m T)\<rparr>, q')"
  proof -
    have "typing_run (Event t WindowLoad # replicate m Fire) (s, q) =
        drive typing_load typing_fire (replicate (m - 1) Fire) (?s1, ?q1)"
      unfolding m by (rule typing_load_fire [OF assms(1) T assms(2,3)])
    with run show ?thesis by simp
  qed
  with c' p due show ?thesis by metis
qed

theorem typing_shows_prefix_witness:
  "\<exists>h q'. typing_run (Event 0 WindowLoad # replicate 2 Fire) (\<lparr>subtitle = Some ''Dev''\<rparr>, no_timers) =
      Some (\<lparr>subtitle = Some ''Dev''\<rparr>\<lparr>subtitle := Some (take 2 ''Dev'')\<rparr>, q') \<and>
    clock q' = 0 + 1500 + 80 * (2 - 1) \<and> pending q' = [(h, 0 + 1500 + 80 * 2, TypeNext ''Dev'' 2 80)]"
  by (rule typing_shows_prefix) (simp_all add: no_timers_def)

end
