(* ===== verification/Embed.thy ===== *)
theory Embed
  imports Timers
begin

text \<open>
  The live-stream embed fallback of \<^verbatim>\<open>src/script.js\<close> (lines 573--589). On the
  window's \<^verbatim>\<open>load\<close> event, when both \<^verbatim>\<open>#twitchPlayer\<close> and
  \<^verbatim>\<open>#streamFallback\<close> exist, the script sets a 5000 ms timer that hides the player and
  shows the fallback, and only then adds a \<^verbatim>\<open>load\<close> listener to the player that clears
  that timer. The handle the listener captured is part of the state (\<open>None\<close>: no listener
  yet). By the HTML standard an iframe's loading delays its document's \<^verbatim>\<open>load\<close> event,
  so the player's first \<^verbatim>\<open>load\<close> event comes before the window's.
\<close>

record embed_page =
  player_display :: "string option"
  fallback_display :: "string option"
  fallback_handle :: "nat option"

datatype embed_timer = ShowFallback

datatype embed_event = EmbedWindowLoad | PlayerLoad

type_synonym embed_sys = "(embed_page, embed_timer) sys"

definition embed_window_load :: "embed_sys \<Rightarrow> embed_sys" where
  "embed_window_load c =
     (let (s, q) = c
      in if player_display s \<noteq> None \<and> fallback_display s \<noteq> None
         then let (fallbackTimeout, q') = set_timeout 5000 ShowFallback q
              in (s\<lparr>fallback_handle := Some fallbackTimeout\<rparr>, q')
         else (s, q))"

definition player_load :: "embed_sys \<Rightarrow> embed_sys" where
  "player_load c =
     (let (s, q) = c
      in case fallback_handle s of None \<Rightarrow> (s, q) | Some h \<Rightarrow> (s, clear_timeout h q))"

fun embed_fire :: "embed_timer \<Rightarrow> embed_sys \<Rightarrow> embed_sys" where
  "embed_fire ShowFallback (s, q) =
     (s\<lparr>player_display := map_option (\<lambda>_. ''none'') (player_display s),
        fallback_display := map_option (\<lambda>_. ''block'') (fallback_display s)\<rparr>, q)"

fun embed_handle :: "embed_event \<Rightarrow> embed_sys \<Rightarrow> embed_sys" where
  "embed_handle EmbedWindowLoad c = embed_window_load c"
| "embed_handle PlayerLoad c = player_load c"

definition embed_run :: "embed_event input list \<Rightarrow> embed_sys \<Rightarrow> embed_sys option" where
  "embed_run = drive embed_handle embed_fire"

definition demo_embed :: embed_page where
  "demo_embed = \<lparr>player_display = Some [], fallback_display = Some ''none'', fallback_handle = None\<rparr>"

subsection \<open>Properties\<close>

text \<open>
  C25. The player's first \<^verbatim>\<open>load\<close> event, which the host delivers before the
  window's, finds no listener: the fallback timer set at window load is never cleared, and
  5000 ms later the player is hidden and the fallback shown even though the player loaded.
\<close>

theorem embed_fallback_after_player_loaded:
  assumes "player_display s = Some p" "fallback_display s = Some f" "fallback_handle s = None"
    and "pending q = []" "clock q \<le> t0" "t0 \<le> t"
  shows "embed_run [Event t0 PlayerLoad, Event t EmbedWindowLoad, Fire] (s, q) =
    Some (s\<lparr>player_display := Some ''none'', fallback_display := Some ''block'',
            fallback_handle := Some (next_handle q)\<rparr>,
          q\<lparr>clock := t + 5000, next_handle := Suc (next_handle q), pending := []\<rparr>)"
  using assms
  by (simp add: embed_run_def timely_def player_load_def embed_window_load_def set_timeout_def)

theorem embed_fallback_after_player_loaded_witness:
  "embed_run [Event 900 PlayerLoad, Event 1000 EmbedWindowLoad, Fire] (demo_embed, no_timers) =
    Some (demo_embed\<lparr>player_display := Some ''none'', fallback_display := Some ''block'',
            fallback_handle := Some (next_handle (no_timers :: embed_timer timers))\<rparr>,
          (no_timers :: embed_timer timers)\<lparr>clock := 1000 + 5000,
             next_handle := Suc (next_handle (no_timers :: embed_timer timers)), pending := []\<rparr>)"
  by (rule embed_fallback_after_player_loaded) (simp_all add: demo_embed_def no_timers_def)

text \<open>
  C26. A player \<^verbatim>\<open>load\<close> event after the window's (a reload of the iframe) within the
  5000 ms clears the timer: however many timer turns follow, the player stays visible and
  the fallback hidden.
\<close>

theorem embed_reload_cancels:
  assumes "player_display s = Some p" "fallback_display s = Some f" "fallback_handle s = None"
    and "pending q = []" "clock q \<le> t" "t \<le> t'" "t' \<le> t + 5000"
  shows "embed_run (Event t EmbedWindowLoad # Event t' PlayerLoad # replicate n Fire) (s, q) =
    Some (s\<lparr>fallback_handle := Some (next_handle q)\<rparr>,
          q\<lparr>clock := t', next_handle := Suc (next_handle q), pending := []\<rparr>)"
  using assms
  by (simp add: embed_run_def timely_def player_load_def embed_window_load_def set_timeout_def
                clear_timeout_def drive_idle)

theorem embed_reload_cancels_witness:
  "embed_run (Event 1000 EmbedWindowLoad # Event 3000 PlayerLoad # replicate 2 Fire) (demo_embed, no_timers) =
    Some (demo_embed\<lparr>fallback_handle := Some (next_handle (no_timers :: embed_timer timers))\<rparr>,
          (no_timers :: embed_timer timers)\<lparr>clock := 3000,
             next_handle := Suc (next_handle (no_timers :: embed_timer timers)), pending := []\<rparr>)"
  by (rule embed_reload_cancels) (simp_all add: demo_embed_def no_timers_def)

end
