(* ===== verification/Json.thy ===== *)
theory Json
  imports Prelude
begin

text \<open>
  \<^verbatim>\<open>JSON.stringify\<close> and \<^verbatim>\<open>JSON.parse\<close> as the past-streams widget uses them,
  following the JSON grammar (RFC 8259) and ECMA-262's \<^verbatim>\<open>QuoteJSONString\<close>. A number
  is kept as its JSON lexeme (its value is never computed by the script; the ids it writes
  are integers, printed as decimal). An object is the list of its properties in creation
  order; a repeated key in the text overwrites the earlier value in place, as
  \<^verbatim>\<open>CreateDataProperty\<close> does. Characters are 8-bit: a \<^verbatim>\<open>\u\<close> escape above
  \<^verbatim>\<open>00FF\<close> is outside the model and rejected. The parser is a recursive descent with
  fuel; the fuel given, one more than the length of the text, is never the reason it fails.
\<close>

datatype json = JNull | JBool bool | JNum string | JStr string | JArr "json list"
  | JObj "(string \<times> json) list"

subsection \<open>\<^verbatim>\<open>JSON.stringify\<close>\<close>

definition bslash :: char where
  "bslash = CHR 0x5C"

definition hex_digit :: "nat \<Rightarrow> char" where
  "hex_digit n = char_of (if n < 10 then 48 + n else 87 + n)"

definition quote_char :: "char \<Rightarrow> string" where
  "quote_char c =
     (if c = CHR 0x22 then [bslash, CHR 0x22]
      else if c = bslash then [bslash, bslash]
      else if c = CHR 0x08 then [bslash, CHR ''b'']
      else if c = CHR 0x0C then [bslash, CHR ''f'']
      else if c = CHR 0x0A then [bslash, CHR ''n'']
      else if c = CHR 0x0D then [bslash, CHR ''r'']
      else if c = CHR 0x09 then [bslash, CHR ''t'']
      else if of_char c < (32::nat)
      then [bslash, CHR ''u'', CHR ''0'', CHR ''0'',
            hex_digit (of_char c div 16), hex_digit (of_char c mod 16)]
      else [c])"

definition quote_json :: "string \<Rightarrow> string" where
  "quote_json s = CHR 0x22 # concat (map quote_char s) @ [CHR 0x22]"

fun json_stringify :: "json \<Rightarrow> string" where
  "json_stringify JNull = ''null''"
| "json_stringify (JBool b) = (if b then ''true'' else ''false'')"
| "json_stringify (JNum n) = n"
| "json_stringify (JStr s) = quote_json s"
| "json_stringify (JArr vs) = ''['' @ js_join '','' (map json_stringify vs) @ '']''"
| "json_stringify (JObj ps) =
     ''{'' @ js_join '','' (map (\<lambda>p. quote_json (fst p) @ '':'' @ json_stringify (snd p)) ps) @ ''}''"

subsection \<open>\<^verbatim>\<open>JSON.parse\<close>\<close>

definition is_ws :: "char \<Rightarrow> bool" where
  "is_ws c \<longleftrightarrow> c = CHR '' '' \<or> c = CHR 0x09 \<or> c = CHR 0x0A \<or> c = CHR 0x0D"

definition skip_ws :: "string \<Rightarrow> string" where
  "skip_ws s = dropWhile is_ws s"

definition is_digit :: "char \<Rightarrow> bool" where
  "is_digit c \<longleftrightarrow> (48::nat) \<le> of_char c \<and> of_char c \<le> (57::nat)"

definition hex_val :: "char \<Rightarrow> nat option" where
  "hex_val c =
     (let k = of_char c
      in if 48 \<le> k \<and> k \<le> 57 then Some (k - 48)
         else if 97 \<le> k \<and> k \<le> 102 then Some (k - 87)
         else if 65 \<le> k \<and> k \<le> 70 then Some (k - 55)
         else None)"

definition hex4 :: "char \<Rightarrow> char \<Rightarrow> char \<Rightarrow> char \<Rightarrow> nat option" where
  "hex4 a b c d =
     (case (hex_val a, hex_val b, hex_val c, hex_val d) of
        (Some w, Some x, Some y, Some z) \<Rightarrow> Some (((w * 16 + x) * 16 + y) * 16 + z)
      | _ \<Rightarrow> None)"

definition prepend :: "char \<Rightarrow> (string \<times> string) option \<Rightarrow> (string \<times> string) option" where
  "prepend c r = map_option (\<lambda>(s, rest). (c # s, rest)) r"

text \<open>The characters of a string literal after its opening quote, up to the closing one.\<close>

fun parse_chars :: "string \<Rightarrow> (string \<times> string) option" where
  "parse_chars [] = None"
| "parse_chars (c # cs) =
     (if c = CHR 0x22 then Some ([], cs)
      else if c = bslash then
        (case cs of
           [] \<Rightarrow> None
         | e # cs' \<Rightarrow>
             if e = CHR 0x22 \<or> e = bslash \<or> e = CHR ''/'' then prepend e (parse_chars cs')
             else if e = CHR ''b'' then prepend (CHR 0x08) (parse_chars cs')
             else if e = CHR ''f'' then prepend (CHR 0x0C) (parse_chars cs')
             else if e = CHR ''n'' then prepend (CHR 0x0A) (parse_chars cs')
             else if e = CHR ''r'' then prepend (CHR 0x0D) (parse_chars cs')
             else if e = CHR ''t'' then prepend (CHR 0x09) (parse_chars cs')
             else if e = CHR ''u'' then
               (case cs' of
                  a # b # c # d # r \<Rightarrow>
                    (case hex4 a b c d of
                       Some k \<Rightarrow> if k < 256 then prepend (char_of k) (parse_chars r) else None
                     | None \<Rightarrow> None)
                | _ \<Rightarrow> None)
             else None)
      else if of_char c < (32::nat) then None
      else prepend c (parse_chars cs))"

text \<open>A number: \<open>-? (0 | [1-9][0-9]*) (. [0-9]+)? ([eE] [+-]? [0-9]+)?\<close>.\<close>

definition digits1 :: "string \<Rightarrow> (string \<times> string) option" where
  "digits1 s = (let d = takeWhile is_digit s in if d = [] then None else Some (d, drop (length d) s))"

definition num_int :: "string \<Rightarrow> (string \<times> string) option" where
  "num_int s = (case s of [] \<Rightarrow> None | c # r \<Rightarrow> if c = CHR ''0'' then Some ([c], r) else digits1 s)"

definition num_frac :: "string \<Rightarrow> (string \<times> string) option" where
  "num_frac s =
     (case s of
        c # r \<Rightarrow> if c = CHR ''.'' then map_option (\<lambda>(d, r'). (c # d, r')) (digits1 r) else Some ([], s)
      | [] \<Rightarrow> Some ([], []))"

definition num_exp :: "string \<Rightarrow> (string \<times> string) option" where
  "num_exp s =
     (case s of
        c # r \<Rightarrow>
          if c = CHR ''e'' \<or> c = CHR ''E'' then
            (case r of
               g # r' \<Rightarrow>
                 if g = CHR ''+'' \<or> g = CHR ''-'' then map_option (\<lambda>(d, r''). (c # g # d, r'')) (digits1 r')
                 else map_option (\<lambda>(d, r''). (c # d, r'')) (digits1 r)
             | [] \<Rightarrow> None)
          else Some ([], s)
      | [] \<Rightarrow> Some ([], []))"

definition parse_number :: "string \<Rightarrow> (string \<times> string) option" where
  "parse_number s =
     (let (sg, s1) = (case s of c # r \<Rightarrow> if c = CHR ''-'' then ([c], r) else ([], s) | [] \<Rightarrow> ([], []))
      in case num_int s1 of
           None \<Rightarrow> None
         | Some (i, s2) \<Rightarrow>
             (case num_frac s2 of
                None \<Rightarrow> None
              | Some (f, s3) \<Rightarrow>
                  (case num_exp s3 of
                     None \<Rightarrow> None
                   | Some (e, s4) \<Rightarrow> Some (sg @ i @ f @ e, s4))))"

text \<open>A property definition: a repeated key keeps its place and takes the new value.\<close>

definition obj_set :: "string \<Rightarrow> json \<Rightarrow> (string \<times> json) list \<Rightarrow> (string \<times> json) list" where
  "obj_set k v ps =
     (if k \<in> set (map fst ps) then map (\<lambda>(k', v'). if k' = k then (k', v) else (k', v')) ps
      else ps @ [(k, v)])"

fun parse_value :: "nat \<Rightarrow> string \<Rightarrow> (json \<times> string) option"
and parse_elems :: "nat \<Rightarrow> json list \<Rightarrow> string \<Rightarrow> (json \<times> string) option"
and parse_members :: "nat \<Rightarrow> (string \<times> json) list \<Rightarrow> string \<Rightarrow> (json \<times> string) option" where
  "parse_value 0 s = None"
| "parse_value (Suc n) s =
     (case skip_ws s of
        [] \<Rightarrow> None
      | c # r \<Rightarrow>
          if c = CHR ''['' then
            (case skip_ws r of
               [] \<Rightarrow> None
             | d # r' \<Rightarrow> if d = CHR '']'' then Some (JArr [], r') else parse_elems n [] r)
          else if c = CHR ''{'' then
            (case skip_ws r of
               [] \<Rightarrow> None
             | d # r' \<Rightarrow> if d = CHR ''}'' then Some (JObj [], r') else parse_members n [] r)
          else if c = CHR 0x22 then map_option (apfst JStr) (parse_chars r)
          else if take 4 (c # r) = ''null'' then Some (JNull, drop 3 r)
          else if take 4 (c # r) = ''true'' then Some (JBool True, drop 3 r)
          else if take 5 (c # r) = ''false'' then Some (JBool False, drop 4 r)
          else map_option (apfst JNum) (parse_number (c # r)))"
| "parse_elems 0 acc s = None"
| "parse_elems (Suc n) acc s =
     (case parse_value n s of
        None \<Rightarrow> None
      | Some (v, r) \<Rightarrow>
          (case skip_ws r of
             [] \<Rightarrow> None
           | d # r' \<Rightarrow>
               if d = CHR '','' then parse_elems n (acc @ [v]) r'
               else if d = CHR '']'' then Some (JArr (acc @ [v]), r')
               else None))"
| "parse_members 0 acc s = None"
| "parse_members (Suc n) acc s =
     (case skip_ws s of
        [] \<Rightarrow> None
      | d # r \<Rightarrow>
          if d \<noteq> CHR 0x22 then None
          else
            (case parse_chars r of
               None \<Rightarrow> None
             | Some (k, r1) \<Rightarrow>
                 (case skip_ws r1 of
                    [] \<Rightarrow> None
                  | e # r2 \<Rightarrow>
                      if e \<noteq> CHR '':'' then None
                      else
                        (case parse_value n r2 of
                           None \<Rightarrow> None
                         | Some (v, r3) \<Rightarrow>
                             (case skip_ws r3 of
                                [] \<Rightarrow> None
                              | f # r4 \<Rightarrow>
                                  if f = CHR '','' then parse_members n (obj_set k v acc) r4
                                  else if f = CHR ''}'' then Some (JObj (obj_set k v acc), r4)
                                  else None)))))"

text \<open>\<^verbatim>\<open>JSON.parse(s)\<close>: \<open>None\<close> is the \<^verbatim>\<open>SyntaxError\<close> it throws.\<close>

definition json_parse :: "string \<Rightarrow> json option" where
  "json_parse s =
     (case parse_value (Suc (length s)) s of
        Some (v, r) \<Rightarrow> if skip_ws r = [] then Some v else None
      | None \<Rightarrow> None)"

subsection \<open>Well-formed values\<close>

text \<open>
  The values \<^verbatim>\<open>JSON.stringify\<close> is applied to here: numbers that are integers
  printed in decimal (the \<^verbatim>\<open>Date.now()\<close> ids), objects without repeated keys.
\<close>

definition int_lexeme_ok :: "string \<Rightarrow> bool" where
  "int_lexeme_ok s \<longleftrightarrow>
     (let ds = (case s of c # r \<Rightarrow> if c = CHR ''-'' then r else s | [] \<Rightarrow> [])
      in ds \<noteq> [] \<and> list_all is_digit ds \<and> (hd ds = CHR ''0'' \<longrightarrow> ds = ''0''))"

fun json_wf :: "json \<Rightarrow> bool" where
  "json_wf (JNum n) = int_lexeme_ok n"
| "json_wf (JArr vs) = list_all json_wf vs"
| "json_wf (JObj ps) = (distinct (map fst ps) \<and> list_all (\<lambda>p. json_wf (snd p)) ps)"
| "json_wf _ = True"

text \<open>The fuel a value needs, and what may follow a value in the text.\<close>

fun jneed :: "json \<Rightarrow> nat" where
  "jneed (JArr vs) = Suc (sum_list (map (\<lambda>v. Suc (jneed v)) vs))"
| "jneed (JObj ps) = Suc (sum_list (map (\<lambda>p. Suc (jneed (snd p))) ps))"
| "jneed _ = 1"

definition json_stop :: "string \<Rightarrow> bool" where
  "json_stop r \<longleftrightarrow> r = [] \<or> hd r = CHR '','' \<or> hd r = CHR '']'' \<or> hd r = CHR ''}'' \<or> is_ws (hd r)"

subsection \<open>Round trip\<close>

text \<open>
  Parsing what \<^verbatim>\<open>JSON.stringify\<close> printed gives the value back, for well-formed
  values; the parser needs no more fuel than \<open>jneed\<close>, which the printed length bounds.
\<close>

lemma hex_val_hex_digit [simp]: "n < 16 \<Longrightarrow> hex_val (hex_digit n) = Some n"
  by (auto simp: hex_val_def hex_digit_def Let_def)

lemma hex4_quote:
  "(k::nat) < 32 \<Longrightarrow> hex4 (CHR ''0'') (CHR ''0'') (hex_digit (k div 16)) (hex_digit (k mod 16)) = Some k"
proof -
  assume "k < 32"
  then have "k div 16 < 16" "k mod 16 < 16" by simp_all
  moreover have "hex_val (CHR ''0'') = Some 0" by (simp add: hex_val_def)
  ultimately show ?thesis by (simp add: hex4_def)
qed

lemma parse_chars_quote:
  "parse_chars (concat (map quote_char s) @ CHR 0x22 # rest) = Some (s, rest)"
proof (induction s)
  case Nil
  then show ?case by simp
next
  case (Cons c s)
  have u: "of_char c < (32::nat) \<Longrightarrow>
      hex4 (CHR ''0'') (CHR ''0'') (hex_digit (of_char c div 16)) (hex_digit (of_char c mod 16)) = Some (of_char c)"
    by (rule hex4_quote)
  show ?case
    using Cons.IH u
    by (simp add: quote_char_def prepend_def bslash_def)
qed


lemma is_ws_simps [simp]:
  "\<not> is_ws CHR ''['' " "\<not> is_ws CHR '']''" "\<not> is_ws CHR ''{''" "\<not> is_ws CHR ''}''"
  "\<not> is_ws CHR '',''" "\<not> is_ws CHR '':''" "\<not> is_ws (CHR 0x22)"
  by (simp_all add: is_ws_def)

lemma skip_ws_Cons [simp]: "\<not> is_ws c \<Longrightarrow> skip_ws (c # r) = c # r"
  by (simp add: skip_ws_def)

lemma stop_not_digit: "json_stop rest \<Longrightarrow> takeWhile is_digit rest = []"
  by (cases rest) (auto simp: json_stop_def is_digit_def is_ws_def)

lemma stop_frac: "json_stop rest \<Longrightarrow> num_frac rest = Some ([], rest)"
  by (cases rest) (auto simp: json_stop_def num_frac_def is_ws_def)

lemma stop_exp: "json_stop rest \<Longrightarrow> num_exp rest = Some ([], rest)"
  by (cases rest) (auto simp: json_stop_def num_exp_def is_ws_def)

lemma digits1_app:
  "ds \<noteq> [] \<Longrightarrow> list_all is_digit ds \<Longrightarrow> json_stop rest \<Longrightarrow> digits1 (ds @ rest) = Some (ds, rest)"
  by (simp add: digits1_def Let_def takeWhile_append2 list_all_iff stop_not_digit)

lemma num_int_app:
  assumes "ds \<noteq> []" "list_all is_digit ds" "hd ds = CHR ''0'' \<longrightarrow> ds = ''0''" "json_stop rest"
  shows "num_int (ds @ rest) = Some (ds, rest)"
proof -
  have n: "num_int (ds @ rest) =
      (if hd ds = CHR ''0'' then Some ([hd ds], tl ds @ rest) else digits1 (ds @ rest))"
    using assms(1) by (cases ds) (simp_all add: num_int_def)
  show ?thesis
  proof (cases "hd ds = CHR ''0''")
    case True
    with assms(3) n show ?thesis by simp
  next
    case False
    with n digits1_app [OF assms(1,2,4)] show ?thesis by simp
  qed
qed

lemma parse_number_int:
  assumes "int_lexeme_ok lx" "json_stop rest"
  shows "parse_number (lx @ rest) = Some (lx, rest)"
proof (cases lx)
  case Nil
  with assms show ?thesis by (simp add: int_lexeme_ok_def)
next
  case (Cons c r)
  show ?thesis
  proof (cases "c = CHR ''-''")
    case True
    with assms Cons have "num_int (r @ rest) = Some (r, rest)"
      by (intro num_int_app) (simp_all add: int_lexeme_ok_def)
    with True Cons assms(2) show ?thesis by (simp add: parse_number_def stop_frac stop_exp)
  next
    case False
    with assms Cons have "num_int (lx @ rest) = Some (lx, rest)"
      by (intro num_int_app) (simp_all add: int_lexeme_ok_def)
    with False Cons assms(2) show ?thesis by (simp add: parse_number_def stop_frac stop_exp)
  qed
qed

lemma int_lexeme_hd:
  "int_lexeme_ok lx \<Longrightarrow> \<exists>c r. lx = c # r \<and> (c = CHR ''-'' \<or> is_digit c)"
  by (cases lx) (auto simp: int_lexeme_ok_def split: if_splits)

lemma is_digit_not:
  "is_digit c \<Longrightarrow> c \<noteq> CHR ''['' \<and> c \<noteq> CHR ''{'' \<and> c \<noteq> CHR 0x22 \<and> c \<noteq> CHR ''n'' \<and>
     c \<noteq> CHR ''t'' \<and> c \<noteq> CHR ''f'' \<and> \<not> is_ws c \<and> c \<noteq> CHR '']'' \<and> c \<noteq> CHR ''}''"
  by (auto simp: is_digit_def is_ws_def)


lemma parse_value_other:
  assumes "\<not> is_ws c" "c \<noteq> CHR ''['' " "c \<noteq> CHR ''{''" "c \<noteq> CHR 0x22"
     "c \<noteq> CHR ''n''" "c \<noteq> CHR ''t''" "c \<noteq> CHR ''f''"
  shows "parse_value (Suc n) (c # r) = map_option (apfst JNum) (parse_number (c # r))"
  using assms by simp

lemma parse_num_stringify:
  assumes "int_lexeme_ok lx" "json_stop rest"
  shows "parse_value (Suc n) (lx @ rest) = Some (JNum lx, rest)"
proof -
  obtain c r where lx: "lx = c # r" and c: "c = CHR ''-'' \<or> is_digit c"
    using int_lexeme_hd [OF assms(1)] by blast
  from c have h: "\<not> is_ws c \<and> c \<noteq> CHR ''['' \<and> c \<noteq> CHR ''{'' \<and> c \<noteq> CHR 0x22 \<and>
     c \<noteq> CHR ''n'' \<and> c \<noteq> CHR ''t'' \<and> c \<noteq> CHR ''f''"
  proof
    assume "c = CHR ''-''"
    then show ?thesis by (simp add: is_ws_def)
  next
    assume "is_digit c"
    from is_digit_not [OF this] show ?thesis by simp
  qed
  from parse_value_other [of c n "r @ rest"] h parse_number_int [OF assms] lx
  show ?thesis by simp
qed


lemma stringify_hd:
  assumes "json_wf v"
  shows "\<exists>c r. json_stringify v = c # r \<and> \<not> is_ws c \<and> c \<noteq> CHR '']'' \<and> c \<noteq> CHR ''}''"
proof (cases v)
  case (JNum n)
  with assms have "int_lexeme_ok n" by simp
  then obtain c r where n: "n = c # r" and c: "c = CHR ''-'' \<or> is_digit c"
    using int_lexeme_hd by blast
  from c have "\<not> is_ws c \<and> c \<noteq> CHR '']'' \<and> c \<noteq> CHR ''}''"
  proof
    assume "c = CHR ''-''"
    then show ?thesis by (simp add: is_ws_def)
  next
    assume "is_digit c"
    from is_digit_not [OF this] show ?thesis by simp
  qed
  with JNum n show ?thesis by simp
next
  case JNull
  then show ?thesis by (simp add: is_ws_def)
next
  case (JBool b)
  then show ?thesis by (cases b) (simp_all add: is_ws_def)
next
  case (JStr x)
  then show ?thesis by (simp add: quote_json_def)
next
  case (JArr vs)
  then show ?thesis by simp
next
  case (JObj ps)
  then show ?thesis by simp
qed

lemma parse_elems_stringify:
  assumes IH: "\<And>v n rest. v \<in> set vs \<Longrightarrow> jneed v \<le> n \<Longrightarrow> json_stop rest \<Longrightarrow>
      parse_value n (json_stringify v @ rest) = Some (v, rest)"
    and "vs \<noteq> []" "sum_list (map (\<lambda>v. Suc (jneed v)) vs) \<le> m"
  shows "parse_elems m acc (js_join '','' (map json_stringify vs) @ CHR '']'' # rest) =
    Some (JArr (acc @ vs), rest)"
  using assms
proof (induction vs arbitrary: acc m)
  case Nil
  then show ?case by simp
next
  case (Cons v vs)
  then obtain m' where m: "m = Suc m'" and need: "jneed v \<le> m'"
    and rest_need: "sum_list (map (\<lambda>v. Suc (jneed v)) vs) \<le> m'"
    by (cases m) auto
  show ?case
  proof (cases vs)
    case Nil
    have "parse_value m' (json_stringify v @ CHR '']'' # rest) = Some (v, CHR '']'' # rest)"
      by (rule Cons.prems(1)) (simp_all add: need json_stop_def)
    with m Nil show ?thesis by simp
  next
    case (Cons y ys)
    have v: "parse_value m' (json_stringify v @ CHR '','' # js_join '','' (map json_stringify vs) @ CHR '']'' # rest) =
        Some (v, CHR '','' # js_join '','' (map json_stringify vs) @ CHR '']'' # rest)"
      by (rule Cons.prems(1)) (simp_all add: need json_stop_def)
    have r: "parse_elems m' (acc @ [v]) (js_join '','' (map json_stringify vs) @ CHR '']'' # rest) =
        Some (JArr ((acc @ [v]) @ vs), rest)"
      by (rule Cons.IH) (use Cons.prems(1) rest_need Cons in auto)
    from v r m Cons show ?thesis by simp
  qed
qed


lemma obj_set_new: "k \<notin> set (map fst ps) \<Longrightarrow> obj_set k v ps = ps @ [(k, v)]"
  by (simp add: obj_set_def)

lemma parse_members_stringify:
  assumes IH: "\<And>p n rest. p \<in> set ps \<Longrightarrow> jneed (snd p) \<le> n \<Longrightarrow> json_stop rest \<Longrightarrow>
      parse_value n (json_stringify (snd p) @ rest) = Some (snd p, rest)"
    and "ps \<noteq> []" "distinct (map fst (acc @ ps))" "sum_list (map (\<lambda>p. Suc (jneed (snd p))) ps) \<le> m"
  shows "parse_members m acc
      (js_join '','' (map (\<lambda>p. quote_json (fst p) @ '':'' @ json_stringify (snd p)) ps) @ CHR ''}'' # rest) =
    Some (JObj (acc @ ps), rest)"
  using assms
proof (induction ps arbitrary: acc m)
  case Nil
  then show ?case by simp
next
  case (Cons p ps)
  obtain k v where p: "p = (k, v)" by (cases p)
  from Cons.prems(4) obtain m' where m: "m = Suc m'" and need: "jneed v \<le> m'"
    and rest_need: "sum_list (map (\<lambda>p. Suc (jneed (snd p))) ps) \<le> m'"
    using p by (cases m) auto
  from Cons.prems(3) p have k: "k \<notin> set (map fst acc)" by auto
  define T where "T = (if ps = [] then CHR ''}'' # rest
      else CHR '','' # js_join '','' (map (\<lambda>p. quote_json (fst p) @ '':'' @ json_stringify (snd p)) ps) @ CHR ''}'' # rest)"
  have stop: "json_stop T" by (simp add: T_def json_stop_def)
  have v: "parse_value m' (json_stringify v @ T) = Some (v, T)"
    using Cons.prems(1) [of p m' T] p need stop by simp
  have str: "js_join '','' (map (\<lambda>p. quote_json (fst p) @ '':'' @ json_stringify (snd p)) (p # ps)) @ CHR ''}'' # rest =
      CHR 0x22 # concat (map quote_char k) @ CHR 0x22 # CHR '':'' # json_stringify v @ T"
    by (simp add: js_join_Cons p quote_json_def T_def)
  have step: "parse_members m acc (CHR 0x22 # concat (map quote_char k) @ CHR 0x22 # CHR '':'' # json_stringify v @ T) =
      (case skip_ws T of [] \<Rightarrow> None
       | f # r4 \<Rightarrow> if f = CHR '','' then parse_members m' (obj_set k v acc) r4
                   else if f = CHR ''}'' then Some (JObj (obj_set k v acc), r4) else None)"
    using m v by (simp add: parse_chars_quote)
  show ?case
  proof (cases "ps = []")
    case True
    with step str k show ?thesis by (simp add: T_def obj_set_new p)
  next
    case False
    have "parse_members m' (acc @ [(k, v)])
        (js_join '','' (map (\<lambda>p. quote_json (fst p) @ '':'' @ json_stringify (snd p)) ps) @ CHR ''}'' # rest) =
        Some (JObj ((acc @ [(k, v)]) @ ps), rest)"
      by (rule Cons.IH) (use Cons.prems(1,3) rest_need False p in auto)
    with step str k False p show ?thesis by (simp add: T_def obj_set_new)
  qed
qed


lemma parse_value_stringify:
  "json_wf v \<Longrightarrow> jneed v \<le> n \<Longrightarrow> json_stop rest \<Longrightarrow>
   parse_value n (json_stringify v @ rest) = Some (v, rest)"
proof (induction v arbitrary: n rest)
  case JNull
  then obtain n' where "n = Suc n'" by (cases n) auto
  then show ?case by (simp add: is_ws_def)
next
  case (JBool b)
  then obtain n' where "n = Suc n'" by (cases n) auto
  then show ?case by (cases b) (simp_all add: is_ws_def)
next
  case (JNum x)
  then obtain n' where n: "n = Suc n'" by (cases n) auto
  from JNum.prems have "int_lexeme_ok x" by simp
  then show ?case
    unfolding n json_stringify.simps by (rule parse_num_stringify [OF _ JNum.prems(3)])
next
  case (JStr x)
  then obtain n' where "n = Suc n'" by (cases n) auto
  then show ?case by (simp add: quote_json_def parse_chars_quote)
next
  case (JArr vs)
  then obtain n' where n: "n = Suc n'" and need: "sum_list (map (\<lambda>v. Suc (jneed v)) vs) \<le> n'"
    by (cases n) auto
  show ?case
  proof (cases vs)
    case Nil
    with n show ?thesis by simp
  next
    case (Cons v1 vs')
    from JArr.prems(1) Cons have "json_wf v1" by simp
    then obtain c r where c: "json_stringify v1 = c # r" "\<not> is_ws c" "c \<noteq> CHR '']''"
      using stringify_hd by blast
    have IH: "\<And>v n rest. v \<in> set vs \<Longrightarrow> jneed v \<le> n \<Longrightarrow> json_stop rest \<Longrightarrow>
        parse_value n (json_stringify v @ rest) = Some (v, rest)"
      using JArr.IH JArr.prems(1) by (simp add: list_all_iff)
    have "parse_elems n' [] (js_join '','' (map json_stringify vs) @ CHR '']'' # rest) = Some (JArr ([] @ vs), rest)"
      by (rule parse_elems_stringify [OF IH]) (use Cons need in simp_all)
    with n c Cons show ?thesis by (simp add: js_join_Cons)
  qed
next
  case (JObj ps)
  then obtain n' where n: "n = Suc n'" and need: "sum_list (map (\<lambda>p. Suc (jneed (snd p))) ps) \<le> n'"
    by (cases n) auto
  show ?case
  proof (cases ps)
    case Nil
    with n show ?thesis by simp
  next
    case (Cons p1 ps')
    have IH: "\<And>p n rest. p \<in> set ps \<Longrightarrow> jneed (snd p) \<le> n \<Longrightarrow> json_stop rest \<Longrightarrow>
        parse_value n (json_stringify (snd p) @ rest) = Some (snd p, rest)"
    proof -
      fix p n rest
      assume "p \<in> set ps" "jneed (snd p) \<le> n" "json_stop rest"
      moreover have "snd p \<in> Basic_BNFs.snds p" by (cases p) simp
      moreover from \<open>p \<in> set ps\<close> JObj.prems(1) have "json_wf (snd p)" by (simp add: list_all_iff)
      ultimately show "parse_value n (json_stringify (snd p) @ rest) = Some (snd p, rest)"
        using JObj.IH by blast
    qed
    have "parse_members n' []
        (js_join '','' (map (\<lambda>p. quote_json (fst p) @ '':'' @ json_stringify (snd p)) ps) @ CHR ''}'' # rest) =
        Some (JObj ([] @ ps), rest)"
      by (rule parse_members_stringify [OF IH]) (use Cons need JObj.prems(1) in simp_all)
    with n Cons show ?thesis by (simp add: js_join_Cons quote_json_def)
  qed
qed


lemma length_js_join: "length (js_join [c] xs) = sum_list (map length xs) + (length xs - 1)"
  by (induction "[c]" xs rule: js_join.induct) simp_all

lemma jneed_le_length: "json_wf v \<Longrightarrow> jneed v \<le> length (json_stringify v)"
proof (induction v)
  case (JNum x)
  then show ?case using int_lexeme_hd [of x] by auto
next
  case (JStr x)
  then show ?case by (simp add: quote_json_def)
next
  case (JArr vs)
  have "sum_list (map (\<lambda>v. Suc (jneed v)) vs) \<le> sum_list (map (\<lambda>v. Suc (length (json_stringify v))) vs)"
    using JArr by (intro sum_list_mono) (simp add: list_all_iff)
  also have "\<dots> = length vs + sum_list (map length (map json_stringify vs))"
    by (simp add: sum_list_Suc comp_def)
  finally show ?case by (simp add: length_js_join)
next
  case (JObj ps)
  have "sum_list (map (\<lambda>p. Suc (jneed (snd p))) ps) \<le>
        sum_list (map (\<lambda>p. length (quote_json (fst p) @ '':'' @ json_stringify (snd p))) ps)"
  proof (intro sum_list_mono)
    fix p assume p: "p \<in> set ps"
    have "snd p \<in> Basic_BNFs.snds p" by (cases p) simp
    with p JObj have "jneed (snd p) \<le> length (json_stringify (snd p))" by (auto simp: list_all_iff)
    then show "Suc (jneed (snd p)) \<le> length (quote_json (fst p) @ '':'' @ json_stringify (snd p))"
      by (simp add: quote_json_def)
  qed
  then show ?case by (simp add: length_js_join comp_def)
qed simp_all

lemma json_parse_stringify [js_simps]: "json_wf v \<Longrightarrow> json_parse (json_stringify v) = Some v"
  using parse_value_stringify [of v "Suc (length (json_stringify v))" "[]"] jneed_le_length [of v]
  by (simp add: json_parse_def json_stop_def skip_ws_def)

lemma parse_value_ws: "list_all is_ws pre \<Longrightarrow> parse_value n (pre @ s) = parse_value n s"
  by (cases n) (simp_all add: skip_ws_def dropWhile_append2 list_all_iff)

subsection \<open>The fuel is enough\<close>

text \<open>
  Every call that succeeds consumes at least one character, and succeeds again with any fuel
  at least the number of characters it consumed. Hence any fuel above the length of the text
  gives the same result as \<open>json_parse\<close>'s: \<open>None\<close> is a syntax error, never exhaustion.
\<close>

lemma prepend_Some: "prepend x p = Some (k, r) \<Longrightarrow> \<exists>k'. p = Some (k', r)"
  by (cases p) (auto simp: prepend_def)

lemma parse_chars_length: "parse_chars s = Some (k, r) \<Longrightarrow> length r < length s"
proof (induction s arbitrary: k rule: length_induct)
  case (1 s)
  note IH = "1.IH" [rule_format]
  show ?case
  proof (cases s)
    case Nil
    with "1.prems" show ?thesis by simp
  next
    case (Cons c cs)
    have "r = cs \<or> (\<exists>ys k'. length ys < length s \<and> parse_chars ys = Some (k', r))"
    proof (cases "c = CHR 0x22 \<or> c \<noteq> bslash")
      case True
      with "1.prems" Cons show ?thesis
        by (auto simp: Let_def dest!: prepend_Some split: if_splits)
    next
      case False
      then have c: "c = bslash" "c \<noteq> CHR 0x22" by blast+
      with "1.prems" Cons obtain e cs' where cs: "cs = e # cs'" by (cases cs) simp_all
      have H: "(if e = CHR 0x22 \<or> e = bslash \<or> e = CHR ''/'' then prepend e (parse_chars cs')
             else if e = CHR ''b'' then prepend (CHR 0x08) (parse_chars cs')
             else if e = CHR ''f'' then prepend (CHR 0x0C) (parse_chars cs')
             else if e = CHR ''n'' then prepend (CHR 0x0A) (parse_chars cs')
             else if e = CHR ''r'' then prepend (CHR 0x0D) (parse_chars cs')
             else if e = CHR ''t'' then prepend (CHR 0x09) (parse_chars cs')
             else if e = CHR ''u'' then
               (case cs' of
                  a # b # c # d # r \<Rightarrow>
                    (case hex4 a b c d of
                       Some k \<Rightarrow> if k < 256 then prepend (char_of k) (parse_chars r) else None
                     | None \<Rightarrow> None)
                | _ \<Rightarrow> None)
             else None) = Some (k, r)"
        using "1.prems" Cons c cs by simp
      have "length cs' < length s" using Cons cs by simp
      show ?thesis
      proof (cases "e = CHR ''u''")
        case False
        with H \<open>length cs' < length s\<close> show ?thesis
          by (auto dest!: prepend_Some split: if_splits)
      next
        case True
        with H obtain a b c' d r' where r': "cs' = a # b # c' # d # r'"
          by (auto simp: bslash_def split: list.splits)
        have "length r' < length s" using Cons cs r' by simp
        with H True r' show ?thesis
          by (auto simp: bslash_def simp del: parse_chars.simps dest!: prepend_Some split: if_splits option.splits)
      qed
    qed
    then show ?thesis
    proof
      assume "r = cs" with Cons show ?thesis by simp
    next
      assume "\<exists>ys k'. length ys < length s \<and> parse_chars ys = Some (k', r)"
      then obtain ys k' where "length ys < length s" "parse_chars ys = Some (k', r)" by blast
      with IH [of ys k'] show ?thesis by simp
    qed
  qed
qed


lemma length_skip_ws: "length (skip_ws s) \<le> length s"
  by (simp add: skip_ws_def length_dropWhile_le)

lemma digits1_length: "digits1 s = Some (d, r) \<Longrightarrow> length r < length s"
proof -
  assume h: "digits1 s = Some (d, r)"
  then have ne: "takeWhile is_digit s \<noteq> []" and r: "r = drop (length (takeWhile is_digit s)) s"
    by (auto simp: digits1_def Let_def split: if_splits)
  from ne have L0: "0 < length (takeWhile is_digit s)" by simp
  have L1: "length (takeWhile is_digit s) \<le> length s" by (rule length_takeWhile_le)
  from r have "length r = length s - length (takeWhile is_digit s)" by simp
  with L0 L1 show ?thesis by linarith
qed

lemma num_int_length: "num_int s = Some (d, r) \<Longrightarrow> length r < length s"
  by (cases s) (auto simp: num_int_def dest: digits1_length split: if_splits)

lemma num_frac_length: "num_frac s = Some (d, r) \<Longrightarrow> length r \<le> length s"
proof (cases s)
  case (Cons c r0)
  assume h: "num_frac s = Some (d, r)"
  show ?thesis
  proof (cases "c = CHR ''.''")
    case True
    with h Cons obtain d' where "digits1 r0 = Some (d', r)"
      by (auto simp: num_frac_def)
    with Cons show ?thesis by (auto dest: digits1_length)
  next
    case False
    with h Cons show ?thesis by (simp add: num_frac_def)
  qed
qed (simp add: num_frac_def)

lemma num_exp_length: "num_exp s = Some (d, r) \<Longrightarrow> length r \<le> length s"
proof (cases s)
  case (Cons c r0)
  assume h: "num_exp s = Some (d, r)"
  show ?thesis
  proof (cases "c = CHR ''e'' \<or> c = CHR ''E''")
    case True
    with h Cons obtain g r1 where r0: "r0 = g # r1" by (cases r0) (auto simp: num_exp_def)
    show ?thesis
    proof (cases "g = CHR ''+'' \<or> g = CHR ''-''")
      case True
      with h Cons r0 \<open>c = CHR ''e'' \<or> c = CHR ''E''\<close> obtain d' where "digits1 r1 = Some (d', r)"
        by (auto simp: num_exp_def)
      with Cons r0 show ?thesis by (auto dest: digits1_length)
    next
      case False
      with h Cons r0 \<open>c = CHR ''e'' \<or> c = CHR ''E''\<close> obtain d' where "digits1 r0 = Some (d', r)"
        by (auto simp: num_exp_def)
      with Cons show ?thesis by (auto dest: digits1_length)
    qed
  next
    case False
    with h Cons show ?thesis by (simp add: num_exp_def)
  qed
qed (simp add: num_exp_def)

lemma parse_number_length:
  assumes "parse_number s = Some (l, r)"
  shows "length r < length s"
proof -
  define s1 where "s1 = (case s of c # r \<Rightarrow> if c = CHR ''-'' then r else s | [] \<Rightarrow> [])"
  have s1: "length s1 \<le> length s" by (cases s) (simp_all add: s1_def)
  from assms obtain i s2 f s3 e where
    "num_int s1 = Some (i, s2)" "num_frac s2 = Some (f, s3)" "num_exp s3 = Some (e, r)"
    by (cases s) (auto simp: parse_number_def s1_def split: option.splits if_splits)
  then have "length s2 < length s1" "length s3 \<le> length s2" "length r \<le> length s3"
    by (auto dest: num_int_length num_frac_length num_exp_length)
  with s1 show ?thesis by simp
qed


lemma skip_ws_Cons_length: "skip_ws s = c # r \<Longrightarrow> length r < length s"
  using length_skip_ws [of s] by simp

lemma fuel_value_step:
  assumes IHe: "\<And>acc s v r. parse_elems n acc s = Some (v, r) \<Longrightarrow>
      length r < length s \<and> (\<forall>m. length s - length r \<le> m \<longrightarrow> parse_elems m acc s = Some (v, r))"
    and IHm: "\<And>acc s v r. parse_members n acc s = Some (v, r) \<Longrightarrow>
      length r < length s \<and> (\<forall>m. length s - length r \<le> m \<longrightarrow> parse_members m acc s = Some (v, r))"
    and H: "parse_value (Suc n) s = Some (v, r)"
  shows "length r < length s \<and> (\<forall>m. length s - length r \<le> m \<longrightarrow> parse_value m s = Some (v, r))"
proof -
  obtain c r0 where s0: "skip_ws s = c # r0" using H by (cases "skip_ws s") simp_all
  have l0: "length r0 < length s" by (rule skip_ws_Cons_length [OF s0])
  show ?thesis
  proof (cases "c = CHR ''['' \<or> c = CHR ''{''")
    case False
    then have c: "c \<noteq> CHR ''['' " "c \<noteq> CHR ''{''" by blast+
    from H s0 c have "r = drop 3 r0 \<or> r = drop 4 r0 \<or> (\<exists>k. parse_chars r0 = Some (k, r)) \<or>
        (\<exists>l. parse_number (c # r0) = Some (l, r))"
      by (auto split: if_splits)
    then have lr: "length r < length s"
      using l0 by (auto dest!: parse_chars_length parse_number_length)
    have "\<And>m'. parse_value (Suc m') s = parse_value (Suc n) s" using s0 c by simp
    then have "\<And>m. 0 < m \<Longrightarrow> parse_value m s = Some (v, r)"
      using H by (metis Suc_pred)
    with lr show ?thesis by auto
  next
    case True
    obtain d r0' where s1: "skip_ws r0 = d # r0'"
      using H s0 True by (cases "skip_ws r0") auto
    have l1: "length r0' < length r0" by (rule skip_ws_Cons_length [OF s1])
    show ?thesis
    proof (cases "(c = CHR ''['' \<and> d = CHR '']'') \<or> (c = CHR ''{'' \<and> d = CHR ''}'')")
      case True
      with H s0 s1 have r: "r = r0'" by (auto split: if_splits)
      have "\<And>m'. parse_value (Suc m') s = parse_value (Suc n) s" using s0 s1 True by auto
      then have "\<And>m. 0 < m \<Longrightarrow> parse_value m s = Some (v, r)"
        using H by (metis Suc_pred)
      with r l0 l1 show ?thesis by auto
    next
      case False
      show ?thesis
      proof (cases "c = CHR ''[''")
        case True
        with False have d: "d \<noteq> CHR '']''" by blast
        with H s0 s1 True have e: "parse_elems n [] r0 = Some (v, r)" by simp
        from IHe [OF e] l0 have lr: "length r < length s" by simp
        have "parse_value m s = Some (v, r)" if m: "length s - length r \<le> m" for m
        proof -
          from m lr obtain m' where m': "m = Suc m'" by (cases m) auto
          with m l0 have "length r0 - length r \<le> m'" by simp
          with IHe [OF e] have "parse_elems m' [] r0 = Some (v, r)" by blast
          with s0 s1 True d m' show ?thesis by simp
        qed
        with lr show ?thesis by blast
      next
        case c: False
        with \<open>c = CHR ''['' \<or> c = CHR ''{''\<close> have c': "c = CHR ''{''" by blast
        with False have d: "d \<noteq> CHR ''}''" by blast
        with H s0 s1 c c' have e: "parse_members n [] r0 = Some (v, r)" by simp
        from IHm [OF e] l0 have lr: "length r < length s" by simp
        have "parse_value m s = Some (v, r)" if m: "length s - length r \<le> m" for m
        proof -
          from m lr obtain m' where m': "m = Suc m'" by (cases m) auto
          with m l0 have "length r0 - length r \<le> m'" by simp
          with IHm [OF e] have "parse_members m' [] r0 = Some (v, r)" by blast
          with s0 s1 c c' d m' show ?thesis by simp
        qed
        with lr show ?thesis by blast
      qed
    qed
  qed
qed


lemma fuel_elems_step:
  assumes IHv: "\<And>s v r. parse_value n s = Some (v, r) \<Longrightarrow>
      length r < length s \<and> (\<forall>m. length s - length r \<le> m \<longrightarrow> parse_value m s = Some (v, r))"
    and IHe: "\<And>acc s v r. parse_elems n acc s = Some (v, r) \<Longrightarrow>
      length r < length s \<and> (\<forall>m. length s - length r \<le> m \<longrightarrow> parse_elems m acc s = Some (v, r))"
    and H: "parse_elems (Suc n) acc s = Some (v, r)"
  shows "length r < length s \<and> (\<forall>m. length s - length r \<le> m \<longrightarrow> parse_elems m acc s = Some (v, r))"
proof -
  obtain v1 r1 where p1: "parse_value n s = Some (v1, r1)"
    using H by (cases "parse_value n s") auto
  obtain d r2 where s2: "skip_ws r1 = d # r2"
    using H p1 by (cases "skip_ws r1") auto
  have l1: "length r1 < length s" using IHv [OF p1] by simp
  have l2: "length r2 < length r1" by (rule skip_ws_Cons_length [OF s2])
  show ?thesis
  proof (cases "d = CHR '',''")
    case True
    with H p1 s2 have e: "parse_elems n (acc @ [v1]) r2 = Some (v, r)" by simp
    from IHe [OF e] l1 l2 have lr: "length r < length r2" "length r < length s" by simp_all
    have "parse_elems m acc s = Some (v, r)" if m: "length s - length r \<le> m" for m
    proof -
      from m lr obtain m' where m': "m = Suc m'" by (cases m) auto
      from m m' lr l1 l2 have "length s - length r1 \<le> m'" "length r2 - length r \<le> m'" by simp_all
      with IHv [OF p1] IHe [OF e] have "parse_value m' s = Some (v1, r1)"
        "parse_elems m' (acc @ [v1]) r2 = Some (v, r)" by blast+
      with s2 True m' show ?thesis by simp
    qed
    with lr show ?thesis by blast
  next
    case False
    with H p1 s2 have d: "d = CHR '']''" and r: "r = r2" and v: "v = JArr (acc @ [v1])"
      by (auto split: if_splits)
    have "parse_elems m acc s = Some (v, r)" if m: "length s - length r \<le> m" for m
    proof -
      from m r l1 l2 obtain m' where m': "m = Suc m'" by (cases m) auto
      from m m' r l2 have "length s - length r1 \<le> m'" by simp
      with IHv [OF p1] have "parse_value m' s = Some (v1, r1)" by blast
      with s2 d r v m' show ?thesis by simp
    qed
    with r l1 l2 show ?thesis by auto
  qed
qed

lemma fuel_members_step:
  assumes IHv: "\<And>s v r. parse_value n s = Some (v, r) \<Longrightarrow>
      length r < length s \<and> (\<forall>m. length s - length r \<le> m \<longrightarrow> parse_value m s = Some (v, r))"
    and IHm: "\<And>acc s v r. parse_members n acc s = Some (v, r) \<Longrightarrow>
      length r < length s \<and> (\<forall>m. length s - length r \<le> m \<longrightarrow> parse_members m acc s = Some (v, r))"
    and H: "parse_members (Suc n) acc s = Some (v, r)"
  shows "length r < length s \<and> (\<forall>m. length s - length r \<le> m \<longrightarrow> parse_members m acc s = Some (v, r))"
proof -
  obtain d r0 where s0: "skip_ws s = d # r0" using H by (cases "skip_ws s") simp_all
  with H have d: "d = CHR 0x22" by (auto split: if_splits)
  obtain k r1 where c1: "parse_chars r0 = Some (k, r1)"
    using H s0 d by (cases "parse_chars r0") auto
  obtain e r2 where s2: "skip_ws r1 = e # r2"
    using H s0 d c1 by (cases "skip_ws r1") auto
  with H s0 d c1 have e: "e = CHR '':''" by (auto split: if_splits)
  obtain v1 r3 where p3: "parse_value n r2 = Some (v1, r3)"
    using H s0 d c1 s2 e by (cases "parse_value n r2") auto
  obtain f r4 where s4: "skip_ws r3 = f # r4"
    using H s0 d c1 s2 e p3 by (cases "skip_ws r3") auto
  have l: "length r0 < length s" "length r1 < length r0" "length r2 < length r1"
    "length r3 < length r2" "length r4 < length r3"
    using skip_ws_Cons_length [OF s0] parse_chars_length [OF c1] skip_ws_Cons_length [OF s2]
      IHv [OF p3] skip_ws_Cons_length [OF s4] by simp_all
  have run: "parse_members (Suc m') acc s =
      (if f = CHR '','' then parse_members m' (obj_set k v1 acc) r4
       else if f = CHR ''}'' then Some (JObj (obj_set k v1 acc), r4) else None)"
    if "parse_value m' r2 = Some (v1, r3)" for m'
    using that s0 d c1 s2 e s4 by simp
  show ?thesis
  proof (cases "f = CHR '',''")
    case True
    with H s0 d c1 s2 e p3 s4 have q: "parse_members n (obj_set k v1 acc) r4 = Some (v, r)" by simp
    from IHm [OF q] l have lr: "length r < length r4" "length r < length s" by simp_all
    have "parse_members m acc s = Some (v, r)" if m: "length s - length r \<le> m" for m
    proof -
      from m lr obtain m' where m': "m = Suc m'" by (cases m) auto
      from m m' lr l have "length r2 - length r3 \<le> m'" "length r4 - length r \<le> m'" by simp_all
      with IHv [OF p3] IHm [OF q] have "parse_value m' r2 = Some (v1, r3)"
        "parse_members m' (obj_set k v1 acc) r4 = Some (v, r)" by blast+
      with run [of m'] True m' show ?thesis by simp
    qed
    with lr show ?thesis by blast
  next
    case False
    with H s0 d c1 s2 e p3 s4 have f: "f = CHR ''}''" and r: "r = r4" and v: "v = JObj (obj_set k v1 acc)"
      by (auto split: if_splits)
    have "parse_members m acc s = Some (v, r)" if m: "length s - length r \<le> m" for m
    proof -
      from m r l obtain m' where m': "m = Suc m'" by (cases m) auto
      from m m' r l have "length r2 - length r3 \<le> m'" by simp
      with IHv [OF p3] have "parse_value m' r2 = Some (v1, r3)" by blast
      with run [of m'] f r v m' show ?thesis by simp
    qed
    with r l show ?thesis by auto
  qed
qed

lemma parse_fuel:
  "(\<forall>s v r. parse_value n s = Some (v, r) \<longrightarrow>
      length r < length s \<and> (\<forall>m. length s - length r \<le> m \<longrightarrow> parse_value m s = Some (v, r))) \<and>
   (\<forall>acc s v r. parse_elems n acc s = Some (v, r) \<longrightarrow>
      length r < length s \<and> (\<forall>m. length s - length r \<le> m \<longrightarrow> parse_elems m acc s = Some (v, r))) \<and>
   (\<forall>acc s v r. parse_members n acc s = Some (v, r) \<longrightarrow>
      length r < length s \<and> (\<forall>m. length s - length r \<le> m \<longrightarrow> parse_members m acc s = Some (v, r)))"
proof (induction n)
  case 0
  then show ?case by simp
next
  case (Suc n)
  then have IHv: "\<And>s v r. parse_value n s = Some (v, r) \<Longrightarrow>
      length r < length s \<and> (\<forall>m. length s - length r \<le> m \<longrightarrow> parse_value m s = Some (v, r))"
    and IHe: "\<And>acc s v r. parse_elems n acc s = Some (v, r) \<Longrightarrow>
      length r < length s \<and> (\<forall>m. length s - length r \<le> m \<longrightarrow> parse_elems m acc s = Some (v, r))"
    and IHm: "\<And>acc s v r. parse_members n acc s = Some (v, r) \<Longrightarrow>
      length r < length s \<and> (\<forall>m. length s - length r \<le> m \<longrightarrow> parse_members m acc s = Some (v, r))"
    by blast+
  show ?case
    using fuel_value_step [OF IHe IHm] fuel_elems_step [OF IHv IHe] fuel_members_step [OF IHv IHm]
    by blast
qed

lemma parse_value_fuel:
  assumes "parse_value n s = Some (v, r)" "length s - length r \<le> m"
  shows "parse_value m s = Some (v, r)"
proof -
  have "\<forall>s v r. parse_value n s = Some (v, r) \<longrightarrow>
      length r < length s \<and> (\<forall>m. length s - length r \<le> m \<longrightarrow> parse_value m s = Some (v, r))"
    by (rule conjunct1 [OF parse_fuel])
  with assms show ?thesis by blast
qed

lemma parse_value_enough_fuel:
  assumes "length s < n"
  shows "parse_value n s = parse_value (Suc (length s)) s"
proof (cases "parse_value n s")
  case None
  show ?thesis
  proof (cases "parse_value (Suc (length s)) s")
    case (Some x)
    then obtain v r where h: "parse_value (Suc (length s)) s = Some (v, r)" by (cases x) auto
    from assms have "length s - length r \<le> n" by simp
    from parse_value_fuel [OF h this] None show ?thesis by simp
  qed (use None in \<open>simp only:\<close>)
next
  case (Some x)
  then obtain v r where h: "parse_value n s = Some (v, r)" by (cases x) auto
  have "length s - length r \<le> Suc (length s)" by simp
  from parse_value_fuel [OF h this] h show ?thesis by simp
qed

text \<open>The round trip holds with any JSON whitespace around the printed form.\<close>

lemma json_roundtrip_ws:
  assumes "json_wf v" "list_all is_ws pre" "list_all is_ws post"
  shows "json_parse (pre @ json_stringify v @ post) = Some v"
proof -
  have "json_stop post" using assms(3) by (cases post) (simp_all add: json_stop_def)
  moreover have "jneed v \<le> Suc (length (pre @ json_stringify v @ post))"
    using jneed_le_length [OF assms(1)] by simp
  ultimately have "parse_value (Suc (length (pre @ json_stringify v @ post))) (json_stringify v @ post) = Some (v, post)"
    using parse_value_stringify [OF assms(1)] by blast
  with assms(2,3) show ?thesis
    by (simp add: json_parse_def parse_value_ws skip_ws_def dropWhile_eq_Nil_conv list_all_iff)
qed

end
