(* ===== verification/PastStreams.thy ===== *)
theory PastStreams
  imports Storage Json
begin

text \<open>
  The past-streams widget of \<^verbatim>\<open>src/script.js\<close> (lines 493--570): the click listener
  of \<^verbatim>\<open>#viewRecordings\<close>, which shows or hides \<^verbatim>\<open>#pastStreamsSection\<close> and on
  showing calls \<^verbatim>\<open>loadPastStreams\<close>; that function, which renders the list stored under
  \<^verbatim>\<open>pastStreams\<close> into \<^verbatim>\<open>#pastStreamsGrid\<close> unless the grid already has more than one
  child; and \<^verbatim>\<open>saveStreamRecording\<close>, which prepends a record to the stored list.
  \<^verbatim>\<open>Date.now()\<close> and \<^verbatim>\<open>toLocaleDateString()\<close> are inputs of the save. The grid's
  element children are listed: the placeholder, a stream card (the HTML source of its
  title, date and duration slots), or other markup. An element that may be missing is an
  \<open>option\<close>; dereferencing a missing one throws a \<^verbatim>\<open>TypeError\<close>.
\<close>

datatype grid_child = Placeholder | StreamCard string string string | Markup

record past_page =
  section_display :: "string option"
  view_btn_text :: "string option"
  grid :: "grid_child list option"
  ps_store :: storage
  ps_reported :: "js_error list"

datatype past_event = ViewClick | SaveRecording int string string string

definition streams_key :: string where
  "streams_key = ''pastStreams''"

text \<open>\<^verbatim>\<open>localStorage.getItem(k) || d\<close>: \<^verbatim>\<open>null\<close> and the empty string are falsy.\<close>

definition js_or_default :: "string option \<Rightarrow> string \<Rightarrow> string" where
  "js_or_default v d = (case v of None \<Rightarrow> d | Some x \<Rightarrow> if x = [] then d else x)"

text \<open>A number lexeme whose value is zero: every digit before the exponent is \<open>0\<close>.\<close>

definition lexeme_is_zero :: "string \<Rightarrow> bool" where
  "lexeme_is_zero l \<longleftrightarrow>
     list_all (\<lambda>c. \<not> is_digit c \<or> c = CHR ''0'') (takeWhile (\<lambda>c. c \<noteq> CHR ''e'' \<and> c \<noteq> CHR ''E'') l)"

text \<open>\<^verbatim>\<open>pastStreams.length === 0\<close> on a parsed value: \<^verbatim>\<open>null.length\<close> throws, a
  number or boolean has no \<^verbatim>\<open>length\<close>, an object has it only as a property.\<close>

fun length_is_zero :: "json \<Rightarrow> bool outcome" where
  "length_is_zero JNull = Threw TypeError False"
| "length_is_zero (JArr vs) = Done (vs = [])"
| "length_is_zero (JStr x) = Done (x = [])"
| "length_is_zero (JObj ps) =
     Done (case map_of ps ''length'' of Some (JNum l) \<Rightarrow> lexeme_is_zero l | _ \<Rightarrow> False)"
| "length_is_zero _ = Done False"

text \<open>\<^verbatim>\<open>${v}\<close> in a template literal: \<^verbatim>\<open>ToString\<close> of the value (an array
  joins its elements with commas, \<^verbatim>\<open>null\<close> elements as empty strings).\<close>

fun js_string :: "json \<Rightarrow> string" where
  "js_string JNull = ''null''"
| "js_string (JBool b) = (if b then ''true'' else ''false'')"
| "js_string (JNum l) = l"
| "js_string (JStr x) = x"
| "js_string (JArr vs) = js_join '','' (map (\<lambda>v. if v = JNull then [] else js_string v) vs)"
| "js_string (JObj ps) = ''[object Object]''"

definition template_value :: "json option \<Rightarrow> string" where
  "template_value v = (case v of None \<Rightarrow> ''undefined'' | Some x \<Rightarrow> js_string x)"

text \<open>\<^verbatim>\<open>stream.p\<close> on a value that is not \<^verbatim>\<open>null\<close>.\<close>

definition js_prop :: "json \<Rightarrow> string \<Rightarrow> json option" where
  "js_prop v p = (case v of JObj ps \<Rightarrow> map_of ps p | _ \<Rightarrow> None)"

definition stream_card :: "json \<Rightarrow> grid_child" where
  "stream_card v =
     StreamCard (template_value (js_prop v ''title'')) (template_value (js_prop v ''date''))
       (template_value (js_prop v ''duration''))"

text \<open>The \<^verbatim>\<open>forEach\<close> of lines 532--552: \<^verbatim>\<open>stream.title\<close> on a \<^verbatim>\<open>null\<close>
  entry throws before its card is appended.\<close>

fun render_streams :: "json list \<Rightarrow> grid_child list \<Rightarrow> grid_child list outcome" where
  "render_streams [] g = Done g"
| "render_streams (v # vs) g =
     (if v = JNull then Threw TypeError g else render_streams vs (g @ [stream_card v]))"

definition loadPastStreams :: "past_page \<Rightarrow> past_page outcome" where
  "loadPastStreams s =
     (case grid s of
        None \<Rightarrow> Threw TypeError s
      | Some cs \<Rightarrow>
          if 1 < length cs then Done s
          else
            let s1 = s\<lparr>grid := Some []\<rparr>
            in case json_parse (js_or_default (get_item streams_key (ps_store s)) ''[]'') of
                 None \<Rightarrow> Threw SyntaxError s1
               | Some v \<Rightarrow>
                   (case length_is_zero v of
                      Threw e _ \<Rightarrow> Threw e s1
                    | Done True \<Rightarrow> Done (s1\<lparr>grid := Some [Placeholder]\<rparr>)
                    | Done False \<Rightarrow>
                        (case v of
                           JArr streams \<Rightarrow>
                             (case render_streams streams [] of
                                Done g \<Rightarrow> Done (s1\<lparr>grid := Some g\<rparr>)
                              | Threw e g \<Rightarrow> Threw e (s1\<lparr>grid := Some g\<rparr>))
                         | _ \<Rightarrow> Threw TypeError s1)))"

definition view_click :: "past_page \<Rightarrow> past_page outcome" where
  "view_click s =
     (case section_display s of
        None \<Rightarrow> Threw TypeError s
      | Some d \<Rightarrow>
          if d = ''none''
          then loadPastStreams (s\<lparr>section_display := Some ''block'', view_btn_text := Some ''Hide Past Streams''\<rparr>)
          else Done (s\<lparr>section_display := Some ''none'', view_btn_text := Some ''View Past Streams''\<rparr>))"

text \<open>The record \<^verbatim>\<open>saveStreamRecording\<close> builds. The script never calls the function; it
  is modelled for string \<^verbatim>\<open>title\<close> and \<^verbatim>\<open>duration\<close>, which JSON prints as
  strings (a number, an object or \<^verbatim>\<open>undefined\<close> would be printed otherwise).\<close>

definition stream_record :: "int \<Rightarrow> string \<Rightarrow> string \<Rightarrow> string \<Rightarrow> json" where
  "stream_record now title date duration =
     JObj [(''id'', JNum (int_lexeme now)), (''title'', JStr title), (''date'', JStr date),
           (''duration'', JStr duration)]"

definition saveStreamRecording :: "int \<Rightarrow> string \<Rightarrow> string \<Rightarrow> string \<Rightarrow> storage \<Rightarrow> storage outcome" where
  "saveStreamRecording now date title duration st =
     (case json_parse (js_or_default (get_item streams_key st) ''[]'') of
        None \<Rightarrow> Threw SyntaxError st
      | Some (JArr pastStreams) \<Rightarrow>
          set_item streams_key (json_stringify (JArr (stream_record now title date duration # pastStreams))) st
      | Some _ \<Rightarrow> Threw TypeError st)"

text \<open>The host reports an exception; the listener registered only when the button exists.\<close>

primrec past_report :: "past_page outcome \<Rightarrow> past_page" where
  "past_report (Done s) = s"
| "past_report (Threw e s) = s\<lparr>ps_reported := ps_reported s @ [e]\<rparr>"

fun past_step :: "past_event \<Rightarrow> past_page \<Rightarrow> past_page" where
  "past_step ViewClick s = (if view_btn_text s = None then s else past_report (view_click s))"
| "past_step (SaveRecording now date title duration) s =
     (case saveStreamRecording now date title duration (ps_store s) of
        Done st \<Rightarrow> s\<lparr>ps_store := st\<rparr>
      | Threw e st \<Rightarrow> s\<lparr>ps_store := st, ps_reported := ps_reported s @ [e]\<rparr>)"

definition past_run :: "past_event list \<Rightarrow> past_page \<Rightarrow> past_page" where
  "past_run es s = fold past_step es s"

subsection \<open>Specification predicates\<close>

text \<open>The stored list as \<^verbatim>\<open>saveStreamRecording\<close> leaves it: absent, or the printed form
  of a well-formed array without \<^verbatim>\<open>null\<close> entries.\<close>

definition streams_ok :: "storage \<Rightarrow> bool" where
  "streams_ok st \<longleftrightarrow>
     (case get_item streams_key st of
        None \<Rightarrow> True
      | Some x \<Rightarrow>
          (case json_parse x of
             Some (JArr vs) \<Rightarrow> json_wf (JArr vs) \<and> JNull \<notin> set vs \<and> json_stringify (JArr vs) = x
           | _ \<Rightarrow> False))"

text \<open>The list the widget finds in the store (empty when absent or not an array).\<close>

definition stored_streams :: "storage \<Rightarrow> json list" where
  "stored_streams st =
     (case json_parse (js_or_default (get_item streams_key st) ''[]'') of
        Some (JArr vs) \<Rightarrow> vs
      | _ \<Rightarrow> [])"

definition closed_page :: "storage \<Rightarrow> past_page" where
  "closed_page st =
     \<lparr>section_display = Some ''none'', view_btn_text = Some ''View Past Streams'',
      grid = Some [Placeholder], ps_store = st, ps_reported = []\<rparr>"

text \<open>The abstract store of the refinement (C29): each save prepends its record, a click
  leaves the list alone.\<close>

fun saves_abs :: "past_event list \<Rightarrow> json list \<Rightarrow> json list" where
  "saves_abs [] l = l"
| "saves_abs (ViewClick # es) l = saves_abs es l"
| "saves_abs (SaveRecording now date title duration # es) l =
     saves_abs es (stream_record now title date duration # l)"

subsection \<open>Laws of the widget\<close>

lemma is_digit_char [simp]: "(k::nat) < 10 \<Longrightarrow> is_digit (char_of (48 + k))"
  by (simp add: is_digit_def)

lemma char_digit_zero:
  assumes k: "(k::nat) < 10"
  shows "char_of (48 + k) = CHR ''0'' \<longleftrightarrow> k = 0"
proof
  assume "char_of (48 + k) = CHR ''0''"
  then have "of_char (char_of (48 + k)) = (of_char (CHR ''0'') :: nat)" by simp
  with k show "k = 0" by simp
next
  assume "k = 0"
  moreover have "char_of (48::nat) = CHR ''0''" using char_of_char [of "CHR ''0''"] by simp
  ultimately show "char_of (48 + k) = CHR ''0''" by simp
qed

lemma nat_digits_small: "n < 10 \<Longrightarrow> nat_digits n = [char_of (48 + n)]"
  by (subst nat_digits.simps) simp

lemma nat_digits_big:
  "\<not> n < 10 \<Longrightarrow> nat_digits n = nat_digits (n div 10) @ [char_of (48 + n mod 10)]"
  by (subst nat_digits.simps) simp

lemma nat_digits_ok:
  "nat_digits n \<noteq> [] \<and> list_all is_digit (nat_digits n) \<and> (hd (nat_digits n) = CHR ''0'' \<longrightarrow> n = 0)"
proof (induction n rule: nat_digits.induct)
  case (1 n)
  show ?case
  proof (cases "n < 10")
    case True
    then show ?thesis by (simp add: nat_digits_small char_digit_zero)
  next
    case False
    with "1.IH" have "nat_digits (n div 10) \<noteq> []" "list_all is_digit (nat_digits (n div 10))"
      "hd (nat_digits (n div 10)) \<noteq> CHR ''0''" by auto
    with False show ?thesis by (simp add: nat_digits_big)
  qed
qed

lemma nat_digits_zero_hd: "hd (nat_digits n) = CHR ''0'' \<Longrightarrow> nat_digits n = ''0''"
proof -
  assume "hd (nat_digits n) = CHR ''0''"
  with nat_digits_ok [of n] have "n = 0" by simp
  moreover have "char_of (48::nat) = CHR ''0''" using char_of_char [of "CHR ''0''"] by simp
  ultimately show ?thesis by (simp add: nat_digits_small)
qed

lemma nat_digits_lexeme_ok:
  "int_lexeme_ok (nat_digits m)" "0 < m \<Longrightarrow> int_lexeme_ok (CHR ''-'' # nat_digits m)"
proof -
  obtain c r where cr: "nat_digits m = c # r"
    using nat_digits_ok [of m] by (cases "nat_digits m") simp_all
  with nat_digits_ok [of m] have c: "is_digit c" "list_all is_digit r" "c = CHR ''0'' \<longrightarrow> m = 0"
    by simp_all
  then have c': "c \<noteq> CHR ''-''" by (auto simp: is_digit_def)
  have z: "c = CHR ''0'' \<longrightarrow> c # r = ''0''"
    using nat_digits_zero_hd [of m] cr by simp
  show "int_lexeme_ok (nat_digits m)"
    unfolding int_lexeme_ok_def cr using c c' z by simp
  show "int_lexeme_ok (CHR ''-'' # nat_digits m)" if "0 < m"
    unfolding int_lexeme_ok_def cr using c that by simp
qed

lemma int_lexeme_ok_int_lexeme: "int_lexeme_ok (int_lexeme z)"
  by (simp add: int_lexeme_def nat_digits_lexeme_ok)

lemma json_parse_empty_array [simp]: "json_parse ''[]'' = Some (JArr [])"
  by (simp add: json_parse_def skip_ws_def)

lemma json_stringify_JArr_ne [simp]: "json_stringify (JArr vs) \<noteq> []"
  by simp

lemma stream_record_wf [simp]: "json_wf (stream_record now title date duration)"
  by (simp add: stream_record_def int_lexeme_ok_int_lexeme)

lemma stream_card_record [simp]:
  "stream_card (stream_record now title date duration) = StreamCard title date duration"
  by (simp add: stream_card_def stream_record_def js_prop_def template_value_def)

lemma streams_ok_parse:
  assumes "streams_ok st"
  shows "json_parse (js_or_default (get_item streams_key st) ''[]'') = Some (JArr (stored_streams st)) \<and>
    json_wf (JArr (stored_streams st)) \<and> JNull \<notin> set (stored_streams st)"
proof (cases "get_item streams_key st")
  case None
  then show ?thesis by (simp add: stored_streams_def js_or_default_def)
next
  case (Some x)
  with assms obtain vs where p: "json_parse x = Some (JArr vs)" and wf: "json_wf (JArr vs)"
    and nn: "JNull \<notin> set vs" and x: "json_stringify (JArr vs) = x"
    by (auto simp: streams_ok_def split: option.splits json.splits)
  from x have "x \<noteq> []" by auto
  with Some p wf nn show ?thesis by (simp add: stored_streams_def js_or_default_def)
qed

lemma storage_used_update_le:
  "storage_used (AList.update k v xs) \<le> storage_used xs + length k + length v"
  by (induction xs) (auto simp: storage_used_def)

lemma save_set_item:
  assumes "streams_ok st"
  shows "saveStreamRecording now date title duration st =
    set_item streams_key (json_stringify (JArr (stream_record now title date duration # stored_streams st))) st"
  using streams_ok_parse [OF assms] by (simp add: saveStreamRecording_def)

lemma save_result:
  assumes ok: "streams_ok st"
    and st': "set_item streams_key
       (json_stringify (JArr (stream_record now title date duration # stored_streams st))) st = Done st'"
  shows "streams_ok st' \<and> stored_streams st' = stream_record now title date duration # stored_streams st"
proof -
  let ?vs = "stream_record now title date duration # stored_streams st"
  from streams_ok_parse [OF ok] have wf: "json_wf (JArr ?vs)" and nn: "JNull \<notin> set ?vs"
    by (auto simp: stream_record_def int_lexeme_ok_int_lexeme)
  have g: "get_item streams_key st' = Some (json_stringify (JArr ?vs))"
    using get_item_set_item [OF st'] by simp
  have parse': "json_parse (json_stringify (JArr ?vs)) = Some (JArr ?vs)"
    by (rule json_parse_stringify [OF wf])
  show ?thesis using g parse' wf nn
    by (simp add: streams_ok_def stored_streams_def js_or_default_def)
qed

text \<open>A save either prepends the record to the stored list, keeping the store well-formed,
  or throws the quota error and changes nothing.\<close>

lemma save_cases:
  assumes ok: "streams_ok st"
  shows "(\<exists>st'. saveStreamRecording now date title duration st = Done st' \<and> streams_ok st' \<and>
      stored_streams st' = stream_record now title date duration # stored_streams st) \<or>
    saveStreamRecording now date title duration st = Threw QuotaExceededError st"
  using set_item_cases [of streams_key
      "json_stringify (JArr (stream_record now title date duration # stored_streams st))" st]
    save_result [OF ok] save_set_item [OF ok]
  by metis

lemma save_fits:
  assumes ok: "streams_ok st"
    and fits: "storage_used (AList.update streams_key
       (json_stringify (JArr (stream_record now title date duration # stored_streams st))) (items st))
       \<le> quota st"
  shows "\<exists>st'. saveStreamRecording now date title duration st = Done st' \<and> streams_ok st' \<and>
    stored_streams st' = stream_record now title date duration # stored_streams st"
proof -
  from set_item_within_quota [OF fits] obtain st' where
    "set_item streams_key (json_stringify (JArr (stream_record now title date duration # stored_streams st))) st = Done st'"
    by blast
  with save_result [OF ok] save_set_item [OF ok] show ?thesis by metis
qed

lemma render_streams_map_aux:
  "JNull \<notin> set vs \<Longrightarrow> render_streams vs g = Done (g @ map stream_card vs)"
  by (induction vs arbitrary: g) auto

lemma render_streams_null:
  "JNull \<notin> set vs1 \<Longrightarrow> render_streams (vs1 @ JNull # vs2) g = Threw TypeError (g @ map stream_card vs1)"
  by (induction vs1 arbitrary: g) auto

lemma load_fresh:
  assumes "grid s = Some cs" "length cs \<le> 1" "streams_ok (ps_store s)"
  shows "loadPastStreams s =
    Done (s\<lparr>grid := Some (if stored_streams (ps_store s) = [] then [Placeholder]
                           else map stream_card (stored_streams (ps_store s)))\<rparr>)"
  using assms streams_ok_parse [OF assms(3)]
  by (simp add: loadPastStreams_def render_streams_map_aux)

lemma load_stale: "grid s = Some cs \<Longrightarrow> 1 < length cs \<Longrightarrow> loadPastStreams s = Done s"
  by (simp add: loadPastStreams_def)

lemma load_store: "ps_store (state_of (loadPastStreams s)) = ps_store s"
  by (auto simp: loadPastStreams_def Let_def split: option.splits json.splits outcome.splits bool.splits)

lemma load_reported: "ps_reported (state_of (loadPastStreams s)) = ps_reported s"
  by (auto simp: loadPastStreams_def Let_def split: option.splits json.splits outcome.splits bool.splits)

lemma view_store: "ps_store (state_of (view_click s)) = ps_store s"
  by (simp add: view_click_def load_store split: option.splits)

lemma past_report_store [simp]: "ps_store (past_report r) = ps_store (state_of r)"
  by (cases r) simp_all

lemma view_reported: "ps_reported (state_of (view_click s)) = ps_reported s"
  by (simp add: view_click_def load_reported split: option.splits)

lemma step_view_store [simp]: "ps_store (past_step ViewClick s) = ps_store s"
  by (simp add: view_store)

lemma step_reported_prefix: "prefix (ps_reported s) (ps_reported (past_step e s))"
proof (cases e)
  case ViewClick
  then show ?thesis using view_reported [of s]
    by (cases "view_click s") (auto simp: prefix_def)
next
  case (SaveRecording now date title duration)
  then show ?thesis by (auto simp: prefix_def split: outcome.splits)
qed

lemma step_save_ok:
  assumes "streams_ok (ps_store s)"
  shows "streams_ok (ps_store (past_step (SaveRecording now date title duration) s)) \<and>
    (QuotaExceededError \<notin> set (ps_reported (past_step (SaveRecording now date title duration) s)) \<longrightarrow>
     stored_streams (ps_store (past_step (SaveRecording now date title duration) s)) =
       stream_record now title date duration # stored_streams (ps_store s))"
  using save_cases [OF assms, of now date title duration] assms by auto

lemma run_reported_prefix: "prefix (ps_reported s) (ps_reported (past_run es s))"
proof (induction es arbitrary: s)
  case (Cons e es)
  from step_reported_prefix [of s e] Cons.IH [of "past_step e s"] show ?case
    by (simp add: past_run_def prefix_order.trans)
qed (simp add: past_run_def)

lemma open_page_fresh:
  assumes "section_display s = Some ''none''" "view_btn_text s \<noteq> None" "grid s = Some cs"
    "length cs \<le> 1" "streams_ok (ps_store s)"
  shows "past_step ViewClick s =
    s\<lparr>section_display := Some ''block'', view_btn_text := Some ''Hide Past Streams'',
      grid := Some (if stored_streams (ps_store s) = [] then [Placeholder]
                    else map stream_card (stored_streams (ps_store s)))\<rparr>"
proof -
  let ?s = "s\<lparr>section_display := Some ''block'', view_btn_text := Some ''Hide Past Streams''\<rparr>"
  have "loadPastStreams ?s = Done (?s\<lparr>grid := Some (if stored_streams (ps_store s) = [] then [Placeholder]
                    else map stream_card (stored_streams (ps_store s)))\<rparr>)"
    using load_fresh [of ?s cs] assms by simp
  with assms show ?thesis by (auto simp: view_click_def)
qed

text \<open>C27. Round trip through the store: after \<^verbatim>\<open>saveStreamRecording\<close> returns,
  the read of line 520, \<^verbatim>\<open>JSON.parse(localStorage.getItem('pastStreams') || '[]')\<close>,
  gives back the array it wrote, the new record first.\<close>

theorem save_read_roundtrip:
  assumes "streams_ok st" "saveStreamRecording now date title duration st = Done st'"
  shows "json_parse (js_or_default (get_item streams_key st') ''[]'') =
    Some (JArr (stream_record now title date duration # stored_streams st))"
proof -
  have "set_item streams_key
      (json_stringify (JArr (stream_record now title date duration # stored_streams st))) st = Done st'"
    using assms(2) unfolding save_set_item [OF assms(1)] .
  then have "streams_ok st'" "stored_streams st' = stream_record now title date duration # stored_streams st"
    using save_result [OF assms(1)] by blast+
  with streams_ok_parse [of st'] show ?thesis by simp
qed

theorem save_read_roundtrip_witness:
  "streams_ok (empty_storage 1000) \<and>
   saveStreamRecording 3 ''3/3/2025'' ''Run'' ''1h'' (empty_storage 1000) =
     Done \<lparr>items = [(''pastStreams'', json_stringify (JArr [stream_record 3 ''Run'' ''3/3/2025'' ''1h'']))],
       quota = 1000\<rparr> \<and>
   json_parse (js_or_default (get_item streams_key
       \<lparr>items = [(''pastStreams'', json_stringify (JArr [stream_record 3 ''Run'' ''3/3/2025'' ''1h'']))],
        quota = 1000\<rparr>) ''[]'') =
     Some (JArr [stream_record 3 ''Run'' ''3/3/2025'' ''1h''])"
proof -
  have ok: "streams_ok (empty_storage 1000)" by (simp add: streams_ok_def)
  have sv: "saveStreamRecording 3 ''3/3/2025'' ''Run'' ''1h'' (empty_storage 1000) =
     Done \<lparr>items = [(''pastStreams'', json_stringify (JArr [stream_record 3 ''Run'' ''3/3/2025'' ''1h'']))],
       quota = 1000\<rparr>"
    by code_simp
  have e: "stored_streams (empty_storage 1000) = []" by (simp add: stored_streams_def js_or_default_def)
  from save_read_roundtrip [OF ok sv] e ok sv show ?thesis by simp
qed

text \<open>C28. A recording saved while the panel is closed is the first card the next opening shows,
  followed by the cards of the list stored before, when the grid holds at most the placeholder
  and the new list fits in the store.\<close>

theorem save_then_open:
  assumes ok: "streams_ok (ps_store s)" and closed: "section_display s = Some ''none''"
    and btn: "view_btn_text s \<noteq> None" and g: "grid s = Some cs" "length cs \<le> 1"
    and fits: "storage_used (AList.update streams_key
       (json_stringify (JArr (stream_record now title date duration # stored_streams (ps_store s))))
       (items (ps_store s))) \<le> quota (ps_store s)"
  shows "grid (past_run [SaveRecording now date title duration, ViewClick] s) =
      Some (StreamCard title date duration # map stream_card (stored_streams (ps_store s))) \<and>
    ps_reported (past_run [SaveRecording now date title duration, ViewClick] s) = ps_reported s"
proof -
  from save_fits [OF ok fits] obtain st' where
    sv: "saveStreamRecording now date title duration (ps_store s) = Done st'" and
    ok': "streams_ok st'" and
    l: "stored_streams st' = stream_record now title date duration # stored_streams (ps_store s)"
    by blast
  have "past_step ViewClick (s\<lparr>ps_store := st'\<rparr>) =
      s\<lparr>ps_store := st', section_display := Some ''block'', view_btn_text := Some ''Hide Past Streams'',
        grid := Some (map stream_card (stored_streams st'))\<rparr>"
    using open_page_fresh [of "s\<lparr>ps_store := st'\<rparr>" cs] closed btn g ok' l by (simp del: past_step.simps)
  moreover obtain b where "view_btn_text s = Some b" using btn by blast
  ultimately show ?thesis using sv l by (simp add: past_run_def)
qed

theorem save_then_open_witness:
  "grid (past_run [SaveRecording 17 ''1/2/2024'' ''Speedrun'' ''2h'', ViewClick]
      (closed_page (empty_storage 1000))) =
    Some [StreamCard ''Speedrun'' ''1/2/2024'' ''2h''] \<and>
   ps_reported (past_run [SaveRecording 17 ''1/2/2024'' ''Speedrun'' ''2h'', ViewClick]
      (closed_page (empty_storage 1000))) = []"
proof -
  have ok: "streams_ok (ps_store (closed_page (empty_storage 1000)))"
    and st: "stored_streams (ps_store (closed_page (empty_storage 1000))) = []"
    by (simp_all add: closed_page_def streams_ok_def stored_streams_def js_or_default_def)
  have fits: "storage_used (AList.update streams_key
       (json_stringify (JArr (stream_record 17 ''Speedrun'' ''1/2/2024'' ''2h'' #
          stored_streams (ps_store (closed_page (empty_storage 1000))))))
       (items (ps_store (closed_page (empty_storage 1000))))) \<le> quota (ps_store (closed_page (empty_storage 1000)))"
    by code_simp
  show ?thesis
    using save_then_open [OF ok _ _ _ _ fits, of "[Placeholder]"] st
    by (simp add: closed_page_def)
qed

lemma step_streams_ok: "streams_ok (ps_store s) \<Longrightarrow> streams_ok (ps_store (past_step e s))"
  by (cases e) (simp_all add: step_save_ok del: past_step.simps)

lemma save_storage_ok:
  "storage_ok st \<Longrightarrow> storage_ok (state_of (saveStreamRecording now date title duration st))"
  by (simp add: saveStreamRecording_def set_item_ok split: option.split json.split)

lemma step_storage_ok: "storage_ok (ps_store s) \<Longrightarrow> storage_ok (ps_store (past_step e s))"
proof (cases e)
  case (SaveRecording now date title duration)
  assume "storage_ok (ps_store s)"
  from save_storage_ok [OF this, of now date title duration] SaveRecording show ?thesis
    by (cases "saveStreamRecording now date title duration (ps_store s)") simp_all
qed (simp del: past_step.simps)

text \<open>C29. Refinement: as long as no save hit the quota, the stored list after any sequence of
  clicks and saves is the abstract list in which each save prepends its record, newest first.\<close>

theorem past_run_refines:
  "streams_ok (ps_store s) \<Longrightarrow> QuotaExceededError \<notin> set (ps_reported (past_run es s)) \<Longrightarrow>
   stored_streams (ps_store (past_run es s)) = saves_abs es (stored_streams (ps_store s))"
proof (induction es arbitrary: s)
  case Nil
  then show ?case by (simp add: past_run_def)
next
  case (Cons e es)
  have run: "past_run (e # es) s = past_run es (past_step e s)" by (simp add: past_run_def)
  have ok: "streams_ok (ps_store (past_step e s))" using step_streams_ok [OF Cons.prems(1)] .
  have nq: "QuotaExceededError \<notin> set (ps_reported (past_run es (past_step e s)))"
    using Cons.prems(2) run by simp
  then have "QuotaExceededError \<notin> set (ps_reported (past_step e s))"
    using run_reported_prefix [of "past_step e s" es] by (auto dest: set_mono_prefix)
  with Cons.IH [OF ok nq] step_save_ok [OF Cons.prems(1)] show ?case
    unfolding run by (cases e) (simp_all del: past_step.simps)
qed

theorem past_run_refines_witness:
  "streams_ok (ps_store (closed_page (empty_storage 1000))) \<and>
   QuotaExceededError \<notin> set (ps_reported (past_run [SaveRecording 1 ''1/1/2025'' ''A'' ''1h'',
      ViewClick, SaveRecording 2 ''1/2/2025'' ''B'' ''2h''] (closed_page (empty_storage 1000)))) \<and>
   stored_streams (ps_store (past_run [SaveRecording 1 ''1/1/2025'' ''A'' ''1h'',
      ViewClick, SaveRecording 2 ''1/2/2025'' ''B'' ''2h''] (closed_page (empty_storage 1000)))) =
     [stream_record 2 ''B'' ''1/2/2025'' ''2h'', stream_record 1 ''A'' ''1/1/2025'' ''1h'']"
proof -
  have ok: "streams_ok (ps_store (closed_page (empty_storage 1000)))"
    by (simp add: closed_page_def streams_ok_def)
  have nq: "QuotaExceededError \<notin> set (ps_reported (past_run [SaveRecording 1 ''1/1/2025'' ''A'' ''1h'',
      ViewClick, SaveRecording 2 ''1/2/2025'' ''B'' ''2h''] (closed_page (empty_storage 1000))))"
    by code_simp
  have e: "stored_streams (ps_store (closed_page (empty_storage 1000))) = []"
    by (simp add: closed_page_def stored_streams_def js_or_default_def)
  from past_run_refines [OF ok nq] e ok nq show ?thesis by simp
qed

text \<open>C30. The stored list stays well-formed: a store that holds no list, or the printed form of a
  well-formed array without \<^verbatim>\<open>null\<close> entries, within its quota, stays so after any
  sequence of clicks and saves, whatever they throw.\<close>

theorem past_run_store_ok:
  "streams_ok (ps_store s) \<and> storage_ok (ps_store s) \<Longrightarrow>
   streams_ok (ps_store (past_run es s)) \<and> storage_ok (ps_store (past_run es s))"
  by (induction es arbitrary: s) (simp_all add: past_run_def step_streams_ok step_storage_ok)

theorem past_run_store_ok_witness:
  "streams_ok (ps_store (past_run [ViewClick, SaveRecording 5 ''5/5/2025'' ''C'' ''3h'']
      (closed_page (empty_storage 10)))) \<and>
   storage_ok (ps_store (past_run [ViewClick, SaveRecording 5 ''5/5/2025'' ''C'' ''3h'']
      (closed_page (empty_storage 10))))"
  using past_run_store_ok [of "closed_page (empty_storage 10)"]
  by (simp add: closed_page_def streams_ok_def)

lemma open_then_close:
  "section_display s = Some ''block'' \<Longrightarrow> view_btn_text s \<noteq> None \<Longrightarrow>
   past_step ViewClick s = s\<lparr>section_display := Some ''none'', view_btn_text := Some ''View Past Streams''\<rparr>"
  by (auto simp: view_click_def)

text \<open>C31. Stored text that is not JSON is not treated as an empty list: opening the panel throws
  \<^verbatim>\<open>SyntaxError\<close> after the placeholder was cleared, so the panel is shown empty.\<close>

theorem view_invalid_json:
  assumes "get_item streams_key (ps_store s) = Some x" "json_parse x = None" "x \<noteq> []"
    "section_display s = Some ''none''" "view_btn_text s \<noteq> None" "grid s = Some cs" "length cs \<le> 1"
  shows "past_step ViewClick s =
    s\<lparr>section_display := Some ''block'', view_btn_text := Some ''Hide Past Streams'', grid := Some [],
      ps_reported := ps_reported s @ [SyntaxError]\<rparr>"
  using assms by (auto simp: view_click_def loadPastStreams_def js_or_default_def)

theorem view_invalid_json_witness:
  "past_step ViewClick (closed_page \<lparr>items = [(''pastStreams'', ''{oops'')], quota = 100\<rparr>) =
    (closed_page \<lparr>items = [(''pastStreams'', ''{oops'')], quota = 100\<rparr>)
      \<lparr>section_display := Some ''block'', view_btn_text := Some ''Hide Past Streams'', grid := Some [],
       ps_reported := [SyntaxError]\<rparr>"
proof -
  have p: "json_parse ''{oops'' = None" by code_simp
  show ?thesis
    using view_invalid_json [of "closed_page \<lparr>items = [(''pastStreams'', ''{oops'')], quota = 100\<rparr>"
        "''{oops''" "[Placeholder]"] p
    by (simp add: closed_page_def get_item_def streams_key_def del: past_step.simps)
qed

text \<open>C32. Once the grid holds two or more children, opening the panel does not re-render it:
  a recording saved in between is not shown (the guard of line 514).\<close>

theorem stale_after_save:
  assumes "section_display s = Some ''none''" "view_btn_text s \<noteq> None" "grid s = Some cs" "1 < length cs"
  shows "grid (past_run [SaveRecording now date title duration, ViewClick] s) = Some cs"
proof -
  obtain b where b: "view_btn_text s = Some b" using assms(2) by blast
  have "grid (past_step ViewClick s') = Some cs"
    if "section_display s' = Some ''none''" "view_btn_text s' = Some b" "grid s' = Some cs" for s'
    using that assms(4) by (simp add: view_click_def loadPastStreams_def)
  moreover have "section_display (past_step (SaveRecording now date title duration) s) = Some ''none'' \<and>
      view_btn_text (past_step (SaveRecording now date title duration) s) = Some b \<and>
      grid (past_step (SaveRecording now date title duration) s) = Some cs"
    using assms b by (simp split: outcome.split)
  ultimately show ?thesis by (simp add: past_run_def del: past_step.simps)
qed

theorem stale_after_save_witness:
  "grid (past_run [SaveRecording 9 ''9/9/2025'' ''New'' ''1h'', ViewClick]
      ((closed_page (empty_storage 1000))\<lparr>grid := Some [StreamCard ''A'' ''d'' ''1h'', StreamCard ''B'' ''d'' ''2h'']\<rparr>)) =
    Some [StreamCard ''A'' ''d'' ''1h'', StreamCard ''B'' ''d'' ''2h'']"
  using stale_after_save [of "(closed_page (empty_storage 1000))\<lparr>grid := Some [StreamCard ''A'' ''d'' ''1h'', StreamCard ''B'' ''d'' ''2h'']\<rparr>"
      "[StreamCard ''A'' ''d'' ''1h'', StreamCard ''B'' ''d'' ''2h'']"]
  by (simp add: closed_page_def del: past_step.simps)

text \<open>C33. Opening, closing and opening again leaves the page exactly as the first opening left
  it, whatever the well-formed stored list: an empty list shows the placeholder once, and a list
  is never rendered twice.\<close>

theorem reopen_same:
  assumes ok: "streams_ok st"
  shows "past_run [ViewClick, ViewClick, ViewClick] (closed_page st) = past_run [ViewClick] (closed_page st)"
proof -
  define G where "G = (if stored_streams st = [] then [Placeholder] else map stream_card (stored_streams st))"
  define P where "P = (closed_page st)\<lparr>section_display := Some ''block'',
      view_btn_text := Some ''Hide Past Streams'', grid := Some G\<rparr>"
  have open1: "past_step ViewClick (closed_page st) = P"
    using open_page_fresh [of "closed_page st" "[Placeholder]"] ok
    by (simp add: closed_page_def P_def G_def del: past_step.simps)
  have close: "past_step ViewClick P = P\<lparr>section_display := Some ''none'', view_btn_text := Some ''View Past Streams''\<rparr>"
    by (rule open_then_close) (simp_all add: P_def)
  have reopen: "past_step ViewClick (P\<lparr>section_display := Some ''none'', view_btn_text := Some ''View Past Streams''\<rparr>) = P"
  proof (cases "length G \<le> 1")
    case True
    then show ?thesis
      using open_page_fresh [of "P\<lparr>section_display := Some ''none'', view_btn_text := Some ''View Past Streams''\<rparr>" G] ok
      by (simp add: P_def G_def closed_page_def del: past_step.simps)
  next
    case False
    then have "loadPastStreams (P\<lparr>section_display := Some ''block'', view_btn_text := Some ''Hide Past Streams''\<rparr>) =
        Done P"
      using load_stale [of _ G] by (simp add: P_def)
    then show ?thesis by (simp add: view_click_def P_def)
  qed
  show ?thesis using open1 close reopen by (simp add: past_run_def del: past_step.simps)
qed

theorem reopen_same_witness:
  "past_run [ViewClick, ViewClick, ViewClick] (closed_page (empty_storage 100)) =
     past_run [ViewClick] (closed_page (empty_storage 100)) \<and>
   grid (past_run [ViewClick] (closed_page (empty_storage 100))) = Some [Placeholder]"
proof -
  have ok: "streams_ok (empty_storage 100)" by (simp add: streams_ok_def)
  have "grid (past_run [ViewClick] (closed_page (empty_storage 100))) = Some [Placeholder]"
    by code_simp
  with reopen_same [OF ok] show ?thesis by simp
qed

text \<open>C34. The rendering loop equals a closed form: without \<^verbatim>\<open>null\<close> entries it appends
  one card per entry, in order; at the first \<^verbatim>\<open>null\<close> it throws \<^verbatim>\<open>TypeError\<close>, keeping the
  cards of the entries before it.\<close>

theorem render_streams_closed:
  "render_streams vs g =
    (if JNull \<in> set vs then Threw TypeError (g @ map stream_card (takeWhile (\<lambda>v. v \<noteq> JNull) vs))
     else Done (g @ map stream_card vs))"
  by (induction vs arbitrary: g) auto

text \<open>C35. A \<^verbatim>\<open>null\<close> entry in the stored list stops the rendering: opening the panel shows
  the cards of the entries before it and throws \<^verbatim>\<open>TypeError\<close>.\<close>

theorem null_entry_stops:
  assumes "get_item streams_key (ps_store s) = Some (json_stringify (JArr (vs1 @ JNull # vs2)))"
    "json_wf (JArr (vs1 @ JNull # vs2))" "JNull \<notin> set vs1"
    "section_display s = Some ''none''" "view_btn_text s \<noteq> None" "grid s = Some cs" "length cs \<le> 1"
  shows "past_step ViewClick s =
    s\<lparr>section_display := Some ''block'', view_btn_text := Some ''Hide Past Streams'',
      grid := Some (map stream_card vs1), ps_reported := ps_reported s @ [TypeError]\<rparr>"
proof -
  have "json_parse (js_or_default (get_item streams_key (ps_store s)) ''[]'') = Some (JArr (vs1 @ JNull # vs2))"
    using assms(1) json_parse_stringify [OF assms(2)] by (simp add: js_or_default_def)
  with assms(3-7) render_streams_null [OF assms(3), of vs2 "[]"] show ?thesis
    by (auto simp: view_click_def loadPastStreams_def)
qed

theorem null_entry_stops_witness:
  \<open>past_step ViewClick (closed_page \<lparr>items = [(''pastStreams'', ''[{"title":"A"},null]'')], quota = 100\<rparr>) =
    (closed_page \<lparr>items = [(''pastStreams'', ''[{"title":"A"},null]'')], quota = 100\<rparr>)
      \<lparr>section_display := Some ''block'', view_btn_text := Some ''Hide Past Streams'',
       grid := Some [StreamCard ''A'' ''undefined'' ''undefined''], ps_reported := [TypeError]\<rparr>\<close>
proof -
  have e: \<open>''[{"title":"A"},null]'' = json_stringify (JArr ([JObj [(''title'', JStr ''A'')]] @ JNull # []))\<close>
    by code_simp
  show ?thesis
    unfolding e
    using null_entry_stops [of "closed_page \<lparr>items = [(''pastStreams'',
        json_stringify (JArr ([JObj [(''title'', JStr ''A'')]] @ JNull # [])))], quota = 100\<rparr>"
        "[JObj [(''title'', JStr ''A'')]]" "[]" "[Placeholder]"]
    by (simp add: closed_page_def get_item_def streams_key_def stream_card_def js_prop_def template_value_def
        del: past_step.simps json_stringify.simps)
qed

text \<open>The listener dereferences \<^verbatim>\<open>#pastStreamsSection\<close> without checking it: when the
  button exists and the section does not, a click throws \<^verbatim>\<open>TypeError\<close> and changes nothing.\<close>

lemma missing_section_throws:
  "view_btn_text s \<noteq> None \<Longrightarrow> section_display s = None \<Longrightarrow>
   past_step ViewClick s = s\<lparr>ps_reported := ps_reported s @ [TypeError]\<rparr>"
  by (auto simp: view_click_def)

end
