(* ===== verification/Observers.thy ===== *)
theory Observers
  imports Prelude
begin

text \<open>
  The two \<^verbatim>\<open>IntersectionObserver\<close>s of \<^verbatim>\<open>src/script.js\<close>: the reveal controller
  (lines 36--58), which hides every element of four content classes and reveals it when it
  intersects the viewport, and the lazy image loader (228--240), which copies
  \<^verbatim>\<open>data-src\<close> into \<^verbatim>\<open>src\<close> on intersection and stops observing the image.
  Elements are indices into the document's list of elements, in document order. The host
  observer is the list of its observation targets; the host delivers a batch of entries
  (target, \<^verbatim>\<open>isIntersecting\<close>) for targets observed when the batch was queued, at most
  one per target per rendering update (\<open>batch_ok\<close>). The geometry that decides
  \<^verbatim>\<open>isIntersecting\<close> (threshold 0.1, root margin -100px) is the host's, so entries are
  inputs. Reachable pages are an inductive step relation: the setup, then any batches.
\<close>

record observer =
  targets :: "nat list"

definition io_new :: observer where
  "io_new = \<lparr>targets = []\<rparr>"

text \<open>\<^verbatim>\<open>observe\<close> of a target already observed does nothing.\<close>

definition io_observe :: "nat \<Rightarrow> observer \<Rightarrow> observer" where
  "io_observe t ob = (if t \<in> set (targets ob) then ob else ob\<lparr>targets := targets ob @ [t]\<rparr>)"

definition io_unobserve :: "nat \<Rightarrow> observer \<Rightarrow> observer" where
  "io_unobserve t ob = ob\<lparr>targets := removeAll t (targets ob)\<rparr>"

type_synonym io_entry = "nat \<times> bool"

definition batch_ok :: "observer \<Rightarrow> io_entry list \<Rightarrow> bool" where
  "batch_ok ob es \<longleftrightarrow> list_all (\<lambda>(t, _). t \<in> set (targets ob)) es \<and> distinct (map fst es)"

subsection \<open>Reveal controller (lines 36--58)\<close>

text \<open>
  The style properties the reveal controller and the card tilt write. \<^verbatim>\<open>transform\<close> is
  the text of a literal, or the tilt template
  \<^verbatim>\<open>perspective(1000px) rotateX(${rx}deg) rotateY(${ry}deg) translateY(-10px)\<close>.
\<close>

datatype style_transform = TText string | TTilt real real

record reveal_el =
  r_classes :: "string list"
  r_opacity :: string
  r_transform :: style_transform
  r_transition :: string

definition reveal_classes :: "string list" where
  "reveal_classes = [''about-content'', ''project-card'', ''social-card'', ''skill-item'']"

text \<open>\<^verbatim>\<open>.about-content, .project-card, .social-card, .skill-item\<close>\<close>

definition reveal_matches :: "reveal_el \<Rightarrow> bool" where
  "reveal_matches e \<longleftrightarrow> list_ex (\<lambda>c. c \<in> set (r_classes e)) reveal_classes"

record reveal_page =
  r_els :: "reveal_el list"
  r_obs :: observer

definition reveal_hide :: "reveal_el \<Rightarrow> reveal_el" where
  "reveal_hide e = e\<lparr>r_opacity := ''0'', r_transform := TText ''translateY(30px)'',
     r_transition := ''all 0.6s ease''\<rparr>"

text \<open>The \<^verbatim>\<open>forEach\<close> of lines 52--57 over \<^verbatim>\<open>animatedElements\<close>.\<close>

fun reveal_init :: "nat list \<Rightarrow> reveal_page \<Rightarrow> reveal_page" where
  "reveal_init [] p = p"
| "reveal_init (i # is) p =
     reveal_init is (p\<lparr>r_els := (r_els p)[i := reveal_hide (r_els p ! i)], r_obs := io_observe i (r_obs p)\<rparr>)"

definition reveal_selected :: "reveal_el list \<Rightarrow> nat list" where
  "reveal_selected els = filter (\<lambda>i. reveal_matches (els ! i)) [0..<length els]"

definition reveal_setup :: "reveal_el list \<Rightarrow> reveal_page" where
  "reveal_setup els = reveal_init (reveal_selected els) \<lparr>r_els = els, r_obs = io_new\<rparr>"

definition reveal_show :: "reveal_el \<Rightarrow> reveal_el" where
  "reveal_show e = e\<lparr>r_opacity := ''1'', r_transform := TText ''translateY(0)''\<rparr>"

text \<open>The observer callback of lines 41--48.\<close>

fun reveal_callback :: "io_entry list \<Rightarrow> reveal_page \<Rightarrow> reveal_page" where
  "reveal_callback [] p = p"
| "reveal_callback ((t, b) # es) p =
     reveal_callback es (if b then p\<lparr>r_els := (r_els p)[t := reveal_show (r_els p ! t)]\<rparr> else p)"

inductive reveal_reach :: "reveal_el list \<Rightarrow> reveal_page \<Rightarrow> bool" for els0 where
  reveal_start: "reveal_reach els0 (reveal_setup els0)"
| reveal_batch: "reveal_reach els0 p \<Longrightarrow> batch_ok (r_obs p) es \<Longrightarrow> reveal_reach els0 (reveal_callback es p)"

text \<open>Every selected element hidden or revealed, every other one untouched, the targets
  exactly the selected ones.\<close>

definition reveal_ok :: "reveal_el list \<Rightarrow> reveal_page \<Rightarrow> bool" where
  "reveal_ok els0 p \<longleftrightarrow>
     length (r_els p) = length els0 \<and> targets (r_obs p) = reveal_selected els0 \<and>
     list_all (\<lambda>i. if reveal_matches (els0 ! i)
                    then r_els p ! i = reveal_hide (els0 ! i) \<or> r_els p ! i = reveal_show (reveal_hide (els0 ! i))
                    else r_els p ! i = els0 ! i) [0..<length els0]"

subsection \<open>Lazy image loader (lines 228--240)\<close>

record img =
  data_src :: "string option"
  img_src :: "string option"

record lazy_page =
  lz_imgs :: "img list"
  lz_obs :: observer

text \<open>\<^verbatim>\<open>img[data-src]\<close>, then \<^verbatim>\<open>images.forEach(img => imageObserver.observe(img))\<close>.\<close>

definition lazy_setup :: "img list \<Rightarrow> lazy_page" where
  "lazy_setup imgs =
     \<lparr>lz_imgs = imgs, lz_obs = fold io_observe (filter (\<lambda>i. data_src (imgs ! i) \<noteq> None) [0..<length imgs]) io_new\<rparr>"

text \<open>\<^verbatim>\<open>img.dataset.src\<close> is \<^verbatim>\<open>undefined\<close> once the attribute is removed, and
  assigning it to \<^verbatim>\<open>src\<close> sets the text \<^verbatim>\<open>undefined\<close>.\<close>

definition dataset_src :: "img \<Rightarrow> string" where
  "dataset_src i = (case data_src i of Some v \<Rightarrow> v | None \<Rightarrow> ''undefined'')"

text \<open>\<^verbatim>\<open>img.src = img.dataset.src; img.removeAttribute('data-src')\<close>\<close>

definition img_load :: "img \<Rightarrow> img" where
  "img_load im = im\<lparr>img_src := Some (dataset_src im), data_src := None\<rparr>"

definition lazy_load :: "nat \<Rightarrow> lazy_page \<Rightarrow> lazy_page" where
  "lazy_load t p =
     (let im = lz_imgs p ! t
      in p\<lparr>lz_imgs := (lz_imgs p)[t := img_load im], lz_obs := io_unobserve t (lz_obs p)\<rparr>)"

fun lazy_callback :: "io_entry list \<Rightarrow> lazy_page \<Rightarrow> lazy_page" where
  "lazy_callback [] p = p"
| "lazy_callback ((t, b) # es) p = lazy_callback es (if b then lazy_load t p else p)"

inductive lazy_reach :: "img list \<Rightarrow> lazy_page \<Rightarrow> bool" for imgs0 where
  lazy_start: "lazy_reach imgs0 (lazy_setup imgs0)"
| lazy_batch: "lazy_reach imgs0 p \<Longrightarrow> batch_ok (lz_obs p) es \<Longrightarrow> lazy_reach imgs0 (lazy_callback es p)"

text \<open>Each deferred image is either still observed and untouched, or loaded once from its
  own \<^verbatim>\<open>data-src\<close> and no longer observed; the other images are untouched.\<close>

definition lazy_img_ok :: "img list \<Rightarrow> lazy_page \<Rightarrow> nat \<Rightarrow> bool" where
  "lazy_img_ok imgs0 p i \<longleftrightarrow>
     (case data_src (imgs0 ! i) of
        None \<Rightarrow> lz_imgs p ! i = imgs0 ! i \<and> i \<notin> set (targets (lz_obs p))
      | Some v \<Rightarrow>
          (lz_imgs p ! i = imgs0 ! i \<and> i \<in> set (targets (lz_obs p))) \<or>
          (lz_imgs p ! i = \<lparr>data_src = None, img_src = Some v\<rparr> \<and> i \<notin> set (targets (lz_obs p))))"

definition lazy_ok :: "img list \<Rightarrow> lazy_page \<Rightarrow> bool" where
  "lazy_ok imgs0 p \<longleftrightarrow>
     length (lz_imgs p) = length imgs0 \<and> distinct (targets (lz_obs p)) \<and>
     set (targets (lz_obs p)) \<subseteq> {..<length imgs0} \<and> list_all (lazy_img_ok imgs0 p) [0..<length imgs0]"

text \<open>Example pages: a project card and a footer; a deferred and a plain image.\<close>

definition demo_els :: "reveal_el list" where
  "demo_els =
     [\<lparr>r_classes = [''project-card''], r_opacity = ''1'', r_transform = TText ''none'', r_transition = ''ease''\<rparr>,
      \<lparr>r_classes = [''footer''], r_opacity = ''1'', r_transform = TText ''none'', r_transition = ''ease''\<rparr>]"

definition demo_imgs :: "img list" where
  "demo_imgs = [\<lparr>data_src = Some ''a.png'', img_src = None\<rparr>, \<lparr>data_src = None, img_src = Some ''b.png''\<rparr>]"

subsection \<open>Laws of the observers\<close>

lemma reveal_show_idem [simp]: "reveal_show (reveal_show e) = reveal_show e"
  by (simp add: reveal_show_def)

lemma reveal_hide_opacity [simp]: "r_opacity (reveal_hide e) = ''0''"
  by (simp add: reveal_hide_def)

lemma reveal_init_length [simp]: "length (r_els (reveal_init is p)) = length (r_els p)"
  by (induction "is" arbitrary: p) simp_all

lemma reveal_init_nth:
  "distinct is \<Longrightarrow> i < length (r_els p) \<Longrightarrow>
   r_els (reveal_init is p) ! i = (if i \<in> set is then reveal_hide (r_els p ! i) else r_els p ! i)"
  by (induction "is" arbitrary: p) (auto simp: nth_list_update_if)

lemma reveal_init_targets:
  "distinct is \<Longrightarrow> set is \<inter> set (targets (r_obs p)) = {} \<Longrightarrow>
   targets (r_obs (reveal_init is p)) = targets (r_obs p) @ is"
  by (induction "is" arbitrary: p) (auto simp: io_observe_def)

lemma reveal_setup_length [simp]: "length (r_els (reveal_setup els)) = length els"
  by (simp add: reveal_setup_def)

lemma reveal_setup_nth:
  "i < length els \<Longrightarrow>
   r_els (reveal_setup els) ! i = (if reveal_matches (els ! i) then reveal_hide (els ! i) else els ! i)"
  by (simp add: reveal_setup_def reveal_init_nth reveal_selected_def)

lemma reveal_setup_targets [simp]: "targets (r_obs (reveal_setup els)) = reveal_selected els"
  by (simp add: reveal_setup_def reveal_init_targets reveal_selected_def io_new_def)

lemma reveal_callback_length [simp]: "length (r_els (reveal_callback es p)) = length (r_els p)"
  by (induction es p rule: reveal_callback.induct) simp_all

lemma reveal_callback_obs [simp]: "r_obs (reveal_callback es p) = r_obs p"
  by (induction es p rule: reveal_callback.induct) simp_all

lemma reveal_callback_nth:
  "i < length (r_els p) \<Longrightarrow>
   r_els (reveal_callback es p) ! i = (if (i, True) \<in> set es then reveal_show (r_els p ! i) else r_els p ! i)"
  by (induction es p rule: reveal_callback.induct) (auto simp: nth_list_update_if)

lemma reveal_selected_iff: "i \<in> set (reveal_selected els) \<longleftrightarrow> i < length els \<and> reveal_matches (els ! i)"
  by (auto simp: reveal_selected_def)

lemma batch_ok_target: "batch_ok ob es \<Longrightarrow> (i, b) \<in> set es \<Longrightarrow> i \<in> set (targets ob)"
  by (auto simp: batch_ok_def list_all_iff)

lemma reveal_ok_nth:
  "reveal_ok els0 p \<Longrightarrow> i < length els0 \<Longrightarrow>
   (if reveal_matches (els0 ! i)
    then r_els p ! i = reveal_hide (els0 ! i) \<or> r_els p ! i = reveal_show (reveal_hide (els0 ! i))
    else r_els p ! i = els0 ! i)"
  by (simp add: reveal_ok_def list_all_iff)

text \<open>C37. Reveal invariant: on every reachable page each element of the four classes is
  either hidden (opacity 0, offset 30px, with the transition) or revealed (opacity 1, no
  offset), every other element is untouched, and the observer watches exactly the selected
  elements.\<close>

theorem reveal_reach_ok: "reveal_reach els0 p \<Longrightarrow> reveal_ok els0 p"
proof (induction rule: reveal_reach.induct)
  case reveal_start
  then show ?case by (simp add: reveal_ok_def list_all_iff reveal_setup_nth)
next
  case (reveal_batch p es)
  have len: "length (r_els p) = length els0" and tg: "targets (r_obs p) = reveal_selected els0"
    using reveal_batch.IH by (simp_all add: reveal_ok_def)
  have "(if reveal_matches (els0 ! i)
         then r_els (reveal_callback es p) ! i = reveal_hide (els0 ! i) \<or>
              r_els (reveal_callback es p) ! i = reveal_show (reveal_hide (els0 ! i))
         else r_els (reveal_callback es p) ! i = els0 ! i)" if i: "i < length els0" for i
  proof (cases "reveal_matches (els0 ! i)")
    case True
    with reveal_ok_nth [OF reveal_batch.IH i] i len show ?thesis
      by (auto simp: reveal_callback_nth)
  next
    case False
    then have "(i, True) \<notin> set es"
      using batch_ok_target [OF reveal_batch.hyps(2)] tg by (auto simp: reveal_selected_iff)
    with False reveal_ok_nth [OF reveal_batch.IH i] i len show ?thesis
      by (simp add: reveal_callback_nth)
  qed
  with len tg show ?case by (simp add: reveal_ok_def list_all_iff)
qed

lemma demo_reveal_reach: "reveal_reach demo_els (reveal_callback [(0, True)] (reveal_setup demo_els))"
  by (rule reveal_batch [OF reveal_start])
     (simp add: batch_ok_def reveal_selected_def reveal_matches_def reveal_classes_def demo_els_def upt_rec)

theorem reveal_reach_ok_witness:
  "reveal_reach demo_els (reveal_callback [(0, True)] (reveal_setup demo_els)) \<and>
   reveal_ok demo_els (reveal_callback [(0, True)] (reveal_setup demo_els))"
  using reveal_reach_ok [OF demo_reveal_reach] demo_reveal_reach by simp

text \<open>C38. The reveal is one-directional and idempotent: an element already at opacity 1
  is left exactly as it is by any further batch of entries, intersecting or not.\<close>

theorem reveal_one_way:
  assumes "reveal_reach els0 p" "batch_ok (r_obs p) es" "i < length (r_els p)" "r_opacity (r_els p ! i) = ''1''"
  shows "r_els (reveal_callback es p) ! i = r_els p ! i"
proof (cases "(i, True) \<in> set es")
  case True
  from reveal_reach_ok [OF assms(1)] have ok: "reveal_ok els0 p" .
  from batch_ok_target [OF assms(2) True] ok have m: "reveal_matches (els0 ! i)" "i < length els0"
    by (auto simp: reveal_ok_def reveal_selected_iff)
  with reveal_ok_nth [OF ok m(2)] assms(4) have "r_els p ! i = reveal_show (reveal_hide (els0 ! i))"
    by auto
  with True assms(3) show ?thesis by (simp add: reveal_callback_nth)
qed (simp add: assms(3) reveal_callback_nth)


lemma io_observe_fold:
  "distinct is \<Longrightarrow> set is \<inter> set (targets ob) = {} \<Longrightarrow> targets (fold io_observe is ob) = targets ob @ is"
  by (induction "is" arbitrary: ob) (auto simp: io_observe_def)

lemma lazy_setup_imgs [simp]: "lz_imgs (lazy_setup imgs) = imgs"
  by (simp add: lazy_setup_def)

lemma lazy_setup_targets [simp]:
  "targets (lz_obs (lazy_setup imgs)) = filter (\<lambda>i. data_src (imgs ! i) \<noteq> None) [0..<length imgs]"
  by (simp add: lazy_setup_def io_observe_fold io_new_def)

lemma lazy_callback_length [simp]: "length (lz_imgs (lazy_callback es p)) = length (lz_imgs p)"
  by (induction es p rule: lazy_callback.induct) (simp_all add: lazy_load_def Let_def)

lemma lazy_callback_nth:
  "distinct (map fst es) \<Longrightarrow> i < length (lz_imgs p) \<Longrightarrow>
   lz_imgs (lazy_callback es p) ! i = (if (i, True) \<in> set es then img_load (lz_imgs p ! i) else lz_imgs p ! i)"
proof (induction es p rule: lazy_callback.induct)
  case (2 t b es p)
  then have "(t, True) \<notin> set es" "\<forall>b'. (t, b') \<notin> set es" by (auto simp: rev_image_eqI)
  with 2 show ?case
    by (auto simp: lazy_load_def Let_def nth_list_update_if img_load_def)
qed simp

lemma lazy_callback_targets:
  "targets (lz_obs (lazy_callback es p)) = filter (\<lambda>t. (t, True) \<notin> set es) (targets (lz_obs p))"
  by (induction es p rule: lazy_callback.induct)
     (auto simp: lazy_load_def Let_def io_unobserve_def removeAll_filter_not_eq filter_filter intro!: filter_cong)

lemma lazy_ok_nth: "lazy_ok imgs0 p \<Longrightarrow> i < length imgs0 \<Longrightarrow> lazy_img_ok imgs0 p i"
  by (simp add: lazy_ok_def list_all_iff)

lemma img_load_deferred [simp]: "data_src im = Some v \<Longrightarrow> img_load im = \<lparr>data_src = None, img_src = Some v\<rparr>"
  by (cases im) (simp add: img_load_def dataset_src_def)

theorem reveal_one_way_witness:
  "reveal_reach demo_els (reveal_callback [(0, True)] (reveal_setup demo_els)) \<and>
   batch_ok (r_obs (reveal_callback [(0, True)] (reveal_setup demo_els))) [(0, False)] \<and>
   0 < length (r_els (reveal_callback [(0, True)] (reveal_setup demo_els))) \<and>
   r_opacity (r_els (reveal_callback [(0, True)] (reveal_setup demo_els)) ! 0) = ''1'' \<and>
   r_els (reveal_callback [(0, False)] (reveal_callback [(0, True)] (reveal_setup demo_els))) ! 0 =
     r_els (reveal_callback [(0, True)] (reveal_setup demo_els)) ! 0"
proof -
  have b: "batch_ok (r_obs (reveal_callback [(0, True)] (reveal_setup demo_els))) [(0, False)]"
    and l: "0 < length (r_els (reveal_callback [(0, True)] (reveal_setup demo_els)))"
    and o: "r_opacity (r_els (reveal_callback [(0, True)] (reveal_setup demo_els)) ! 0) = ''1''"
    by (simp_all add: batch_ok_def reveal_selected_def reveal_matches_def reveal_classes_def demo_els_def
        reveal_setup_def reveal_show_def reveal_hide_def io_observe_def io_new_def upt_rec)
  show ?thesis using reveal_one_way [OF demo_reveal_reach b l o] demo_reveal_reach b l o by simp
qed

text \<open>C39. Lazy-loading invariant: on every reachable page each image that had
  \<^verbatim>\<open>data-src\<close> is either untouched and still observed, or loaded once, with
  \<^verbatim>\<open>src\<close> its own former \<^verbatim>\<open>data-src\<close>, the attribute removed and the image no
  longer observed; images without \<^verbatim>\<open>data-src\<close> are never touched.\<close>

theorem lazy_reach_ok: "lazy_reach imgs0 p \<Longrightarrow> lazy_ok imgs0 p"
proof (induction rule: lazy_reach.induct)
  case lazy_start
  then show ?case
    by (auto simp: lazy_ok_def list_all_iff lazy_img_ok_def split: option.split)
next
  case (lazy_batch p es)
  let ?p = "lazy_callback es p"
  have len: "length (lz_imgs p) = length imgs0" and sub: "set (targets (lz_obs p)) \<subseteq> {..<length imgs0}"
    and dt: "distinct (targets (lz_obs p))"
    using lazy_batch.IH by (simp_all add: lazy_ok_def)
  have ds: "distinct (map fst es)" using lazy_batch.hyps(2) by (simp add: batch_ok_def)
  have "lazy_img_ok imgs0 ?p i" if i: "i < length imgs0" for i
  proof -
    have tgt: "(i, True) \<in> set es \<Longrightarrow> i \<in> set (targets (lz_obs p))"
      using batch_ok_target [OF lazy_batch.hyps(2)] by blast
    from lazy_ok_nth [OF lazy_batch.IH i] tgt i len ds show ?thesis
      by (auto simp: lazy_img_ok_def lazy_callback_nth lazy_callback_targets split: option.splits)
  qed
  with len sub dt show ?case
    by (auto simp: lazy_ok_def list_all_iff lazy_callback_targets)
qed

lemma demo_lazy_reach: "lazy_reach demo_imgs (lazy_callback [(0, True)] (lazy_setup demo_imgs))"
  by (rule lazy_batch [OF lazy_start]) (simp add: batch_ok_def demo_imgs_def upt_rec)

theorem lazy_reach_ok_witness:
  "lazy_reach demo_imgs (lazy_callback [(0, True)] (lazy_setup demo_imgs)) \<and>
   lazy_ok demo_imgs (lazy_callback [(0, True)] (lazy_setup demo_imgs))"
  using lazy_reach_ok [OF demo_lazy_reach] demo_lazy_reach by simp

text \<open>C40. The callback relies on one entry per image and batch: two intersecting
  entries for the same image in one batch (queued before the first \<^verbatim>\<open>unobserve\<close>) set
  its \<^verbatim>\<open>src\<close> to the text \<^verbatim>\<open>undefined\<close>, since \<^verbatim>\<open>data-src\<close> was already
  removed.\<close>

theorem lazy_duplicate_entry:
  assumes "t < length (lz_imgs p)" "data_src (lz_imgs p ! t) = Some v"
  shows "lz_imgs (lazy_callback [(t, True), (t, True)] p) ! t = \<lparr>data_src = None, img_src = Some ''undefined''\<rparr>"
  using assms by (simp add: lazy_load_def Let_def dataset_src_def img_load_def)

theorem lazy_duplicate_entry_witness:
  "lz_imgs (lazy_callback [(0, True), (0, True)] (lazy_setup demo_imgs)) ! 0 =
     \<lparr>data_src = None, img_src = Some ''undefined''\<rparr>"
  using lazy_duplicate_entry [of 0 "lazy_setup demo_imgs" "''a.png''"] by (simp add: demo_imgs_def)

text \<open>One batch in which every observed image intersects loads every deferred image and
  leaves the observer with no targets.\<close>

lemma lazy_all_visible:
  "lazy_callback (map (\<lambda>t. (t, True)) (targets (lz_obs (lazy_setup imgs)))) (lazy_setup imgs) =
   \<lparr>lz_imgs = map (\<lambda>im. case data_src im of None \<Rightarrow> im | Some v \<Rightarrow> \<lparr>data_src = None, img_src = Some v\<rparr>) imgs,
    lz_obs = io_new\<rparr>"
proof -
  let ?es = "map (\<lambda>t. (t, True)) (targets (lz_obs (lazy_setup imgs)))"
  have ds: "distinct (map fst ?es)" by (simp add: lazy_setup_targets comp_def)
  have "lz_imgs (lazy_callback ?es (lazy_setup imgs)) ! i =
      (case data_src (imgs ! i) of None \<Rightarrow> imgs ! i | Some v \<Rightarrow> \<lparr>data_src = None, img_src = Some v\<rparr>)"
    if "i < length imgs" for i
    using that lazy_callback_nth [OF ds, of i "lazy_setup imgs"]
    by (auto split: option.split)
  then have "lz_imgs (lazy_callback ?es (lazy_setup imgs)) =
      map (\<lambda>im. case data_src im of None \<Rightarrow> im | Some v \<Rightarrow> \<lparr>data_src = None, img_src = Some v\<rparr>) imgs"
    by (intro nth_equalityI) simp_all
  moreover have "targets (lz_obs (lazy_callback ?es (lazy_setup imgs))) = []"
    using lazy_callback_targets [of ?es "lazy_setup imgs"] by (auto simp: filter_empty_conv)
  then have "lz_obs (lazy_callback ?es (lazy_setup imgs)) = io_new"
    by (cases "lz_obs (lazy_callback ?es (lazy_setup imgs))") (simp add: io_new_def)
  ultimately show ?thesis by simp
qed

end
