(* ===== verification/Pointer.thy ===== *)
theory Pointer
  imports Observers JsNumber
begin

text \<open>
  The pointer effects of \<^verbatim>\<open>src/script.js\<close>: the hero parallax (lines 71--82), the cursor
  glow (155--178) and the project-card tilt (183--201). Each listener is a function of the
  event's coordinates and the layout; none reads what it wrote before. The parallax divides by
  the window size, so it is computed in \<open>jsnum\<close>; the glow and the tilt only subtract and
  divide by constants, so they are real. The tilt writes \<^verbatim>\<open>style.transform\<close> of the same
  \<^verbatim>\<open>.project-card\<close> elements the reveal controller styles, so it acts on a
  \<open>reveal_page\<close> element.
\<close>

subsection \<open>Hero parallax (lines 71--82)\<close>

record hero =
  planet_exists :: bool
  planet_translate :: "(jsnum \<times> jsnum) option"

text \<open>\<^verbatim>\<open>(e.clientX / window.innerWidth - 0.5) * 20\<close>\<close>

definition parallax_offset :: "real \<Rightarrow> real \<Rightarrow> jsnum" where
  "parallax_offset c w = js_mul (js_add (js_div (Num c) (Num w)) (Num (- 0.5))) (Num 20)"

definition parallax_mousemove :: "real \<Rightarrow> real \<Rightarrow> real \<Rightarrow> real \<Rightarrow> hero \<Rightarrow> hero" where
  "parallax_mousemove cx cy w h s =
     (if \<not> planet_exists s then s
      else s\<lparr>planet_translate := Some (parallax_offset cx w, parallax_offset cy h)\<rparr>)"

subsection \<open>Cursor glow (lines 155--178)\<close>

record glow =
  glow_display :: string
  glow_left :: "real option"
  glow_top :: "real option"
  glow_listening :: bool

text \<open>The element is created hidden; the listener is added only when the window is wider
  than 968px when the script runs.\<close>

definition glow_load :: "real \<Rightarrow> glow" where
  "glow_load w =
     (let g = \<lparr>glow_display = ''none'', glow_left = None, glow_top = None, glow_listening = False\<rparr>
      in if 968 < w then g\<lparr>glow_display := ''block'', glow_listening := True\<rparr> else g)"

definition glow_mousemove :: "real \<Rightarrow> real \<Rightarrow> glow \<Rightarrow> glow" where
  "glow_mousemove cx cy g =
     (if glow_listening g then g\<lparr>glow_left := Some (cx - 150), glow_top := Some (cy - 150)\<rparr> else g)"

subsection \<open>Project-card tilt (lines 183--201)\<close>

record rect =
  rect_left :: real
  rect_top :: real
  rect_width :: real
  rect_height :: real

definition tilt_angles :: "rect \<Rightarrow> real \<Rightarrow> real \<Rightarrow> real \<times> real" where
  "tilt_angles r cx cy =
     (let x = cx - rect_left r; y = cy - rect_top r;
          centerX = rect_width r / 2; centerY = rect_height r / 2
      in ((y - centerY) / 10, (centerX - x) / 10))"

text \<open>The listeners exist on the elements of class \<^verbatim>\<open>project-card\<close> only
  (the \<^verbatim>\<open>forEach\<close> of lines 183--201).\<close>

definition tilt_target :: "nat \<Rightarrow> reveal_page \<Rightarrow> bool" where
  "tilt_target i p \<longleftrightarrow> i < length (r_els p) \<and> ''project-card'' \<in> set (r_classes (r_els p ! i))"

definition card_mousemove :: "nat \<Rightarrow> rect \<Rightarrow> real \<Rightarrow> real \<Rightarrow> reveal_page \<Rightarrow> reveal_page" where
  "card_mousemove i r cx cy p =
     (if tilt_target i p
      then p\<lparr>r_els := (r_els p)[i := (r_els p ! i)\<lparr>r_transform := TTilt (fst (tilt_angles r cx cy)) (snd (tilt_angles r cx cy))\<rparr>]\<rparr>
      else p)"

definition tilt_neutral :: style_transform where
  "tilt_neutral = TText ''perspective(1000px) rotateX(0) rotateY(0) translateY(0)''"

definition card_mouseleave :: "nat \<Rightarrow> reveal_page \<Rightarrow> reveal_page" where
  "card_mouseleave i p =
     (if tilt_target i p then p\<lparr>r_els := (r_els p)[i := (r_els p ! i)\<lparr>r_transform := tilt_neutral\<rparr>]\<rparr> else p)"

subsection \<open>Laws of the pointer effects\<close>

text \<open>Inside the window the hero moves at most 10px each way from its place.\<close>

lemma parallax_bounded:
  assumes "0 < w" "0 \<le> c" "c \<le> w"
  shows "\<exists>r. parallax_offset c w = Num r \<and> \<bar>r\<bar> \<le> 10"
proof -
  have q: "0 \<le> c / w" "c / w \<le> 1" using assms by (simp_all add: divide_le_eq_1)
  have t: "\<bar>(t + - 0.5) * 20\<bar> \<le> (10::real)" if "0 \<le> t" "t \<le> 1" for t :: real
    using that by (simp add: abs_le_iff)
  have "parallax_offset c w = Num ((c / w + - 0.5) * 20)"
    using assms by (simp add: parallax_offset_def)
  with t [OF q] show ?thesis by blast
qed

text \<open>A window of width 0 makes the offset \<open>NaN\<close> at the left edge and infinite
  elsewhere: the transform text is not valid CSS and is ignored.\<close>

lemma parallax_zero_width:
  "parallax_offset 0 0 = NaN" "0 < c \<Longrightarrow> parallax_offset c 0 = PosInf"
  by (simp_all add: parallax_offset_def)

text \<open>The offset depends on the last event only: no accumulation.\<close>

lemma parallax_last_event:
  "planet_exists s \<Longrightarrow>
   parallax_mousemove cx cy w h (parallax_mousemove cx' cy' w' h' s) = parallax_mousemove cx cy w h s"
  by (simp add: parallax_mousemove_def)

lemma glow_fold_keeps:
  "glow_listening g \<and> glow_display g = ''block'' \<Longrightarrow>
   glow_listening (fold (\<lambda>(x, y). glow_mousemove x y) ms g) \<and>
   glow_display (fold (\<lambda>(x, y). glow_mousemove x y) ms g) = ''block''"
  by (induction ms arbitrary: g) (auto simp: glow_mousemove_def)

lemma glow_follows:
  assumes "968 < w"
  shows "glow_mousemove cx cy (fold (\<lambda>(x, y). glow_mousemove x y) ms (glow_load w)) =
     \<lparr>glow_display = ''block'', glow_left = Some (cx - 150), glow_top = Some (cy - 150), glow_listening = True\<rparr>"
proof -
  have "glow_listening (glow_load w) \<and> glow_display (glow_load w) = ''block''"
    using assms by (simp add: glow_load_def)
  from glow_fold_keeps [OF this, of ms] show ?thesis
    by (cases "fold (\<lambda>(x, y). glow_mousemove x y) ms (glow_load w)") (simp add: glow_mousemove_def)
qed

text \<open>The breakpoint is read once: a window that was narrow when the script ran never
  shows the glow, whatever the pointer does later.\<close>

lemma glow_narrow_never:
  "w \<le> 968 \<Longrightarrow> fold (\<lambda>(x, y). glow_mousemove x y) ms (glow_load w) = glow_load w"
  by (induction ms) (auto simp: glow_load_def glow_mousemove_def Let_def)

text \<open>A pointer inside the card tilts it by at most a twentieth of its size in degrees.\<close>

lemma tilt_bounded:
  assumes "rect_left r \<le> cx" "cx \<le> rect_left r + rect_width r"
    "rect_top r \<le> cy" "cy \<le> rect_top r + rect_height r"
  shows "\<bar>fst (tilt_angles r cx cy)\<bar> \<le> rect_height r / 20 \<and> \<bar>snd (tilt_angles r cx cy)\<bar> \<le> rect_width r / 20"
  using assms by (simp add: tilt_angles_def Let_def abs_le_iff field_simps)

lemma tilt_center: "tilt_angles r (rect_left r + rect_width r / 2) (rect_top r + rect_height r / 2) = (0, 0)"
  by (simp add: tilt_angles_def)

end
