(* ===== verification/Counter.thy ===== *)
theory Counter
  imports JsNumber
begin

text \<open>
  \<^verbatim>\<open>animateCounter(element, target, duration = 2000)\<close> of \<^verbatim>\<open>src/script.js\<close>
  (lines 255--268), a function the script defines and never calls. Every 16 ms the interval
  adds \<^verbatim>\<open>target / (duration / 16)\<close> to \<^verbatim>\<open>start\<close>; it shows the target and clears
  itself once \<^verbatim>\<open>start >= target\<close>, and shows \<^verbatim>\<open>Math.floor(start)\<close> otherwise. The
  interval is a loop with fuel, one unit per tick: \<open>None\<close> is an interval still running
  when the fuel is spent. Numbers are \<open>jsnum\<close>, so a \<open>NaN\<close> target is a value.

  The script's \<^verbatim>\<open>+\<close> and \<^verbatim>\<open>/\<close> are IEEE double operations: each rounds its exact
  result to a nearby double, and the rounding errors accumulate over the ticks (a target of
  100 over 2000 ms takes 126 ticks, not 125). The library has no executable model of that
  rounding, so the host's addition and division are parameters \<open>hadd\<close> and \<open>hdiv\<close> of
  the model; \<open>js_add\<close> and \<open>js_div\<close> of \<open>JsNumber\<close> are their exact-real
  counterparts, not the browser's. The comparison \<^verbatim>\<open>>=\<close> and \<^verbatim>\<open>Math.floor\<close> are exact
  on doubles, so they are \<open>js_ge\<close> and \<open>js_floor\<close>. The laws below hold for every
  choice of \<open>hadd\<close> and \<open>hdiv\<close>.
\<close>

type_synonym num_op = "jsnum \<Rightarrow> jsnum \<Rightarrow> jsnum"

record counter =
  ctr_text :: "jsnum option"
  ctr_start :: jsnum

text \<open>\<^verbatim>\<open>Math.floor\<close>\<close>

fun js_floor :: "jsnum \<Rightarrow> jsnum" where
  "js_floor (Num r) = Num (of_int \<lfloor>r\<rfloor>)"
| "js_floor x = x"

text \<open>\<^verbatim>\<open>const increment = target / (duration / 16)\<close>\<close>

definition counter_increment :: "num_op \<Rightarrow> jsnum \<Rightarrow> jsnum \<Rightarrow> jsnum" where
  "counter_increment hdiv target duration = hdiv target (hdiv duration (Num 16))"

text \<open>One run of the interval callback; the flag says whether it cleared the interval.\<close>

definition counter_tick :: "num_op \<Rightarrow> jsnum \<Rightarrow> jsnum \<Rightarrow> counter \<Rightarrow> counter \<times> bool" where
  "counter_tick hadd target inc c =
     (let start = hadd (ctr_start c) inc
      in if js_ge start target then (c\<lparr>ctr_start := start, ctr_text := Some target\<rparr>, True)
         else (c\<lparr>ctr_start := start, ctr_text := Some (js_floor start)\<rparr>, False))"

text \<open>The ticks until the interval clears itself, with the number of ticks run.\<close>

fun counter_loop :: "num_op \<Rightarrow> nat \<Rightarrow> jsnum \<Rightarrow> jsnum \<Rightarrow> nat \<Rightarrow> counter \<Rightarrow> (nat \<times> counter) option" where
  "counter_loop hadd 0 target inc n c = None"
| "counter_loop hadd (Suc fuel) target inc n c =
     (let (c', cleared) = counter_tick hadd target inc c
      in if cleared then Some (Suc n, c') else counter_loop hadd fuel target inc (Suc n) c')"

definition animateCounter :: "num_op \<Rightarrow> num_op \<Rightarrow> nat \<Rightarrow> jsnum \<Rightarrow> jsnum \<Rightarrow> (nat \<times> counter) option" where
  "animateCounter hadd hdiv fuel target duration =
     counter_loop hadd fuel target (counter_increment hdiv target duration) 0 \<lparr>ctr_text = None, ctr_start = Num 0\<rparr>"

subsection \<open>Laws of the counter\<close>

text \<open>A \<open>NaN\<close> target (for instance \<^verbatim>\<open>parseInt\<close> of a non-number): no comparison
  holds, so the interval never clears itself, whatever the fuel and the arithmetic.\<close>

lemma counter_nan_forever: "counter_loop hadd fuel NaN inc n c = None"
  by (induction fuel arbitrary: n c) (simp_all add: counter_tick_def Let_def)

lemma animateCounter_nan_forever: "animateCounter hadd hdiv fuel NaN duration = None"
  by (simp add: animateCounter_def counter_nan_forever)

text \<open>When the interval clears itself it shows the target, and the last \<^verbatim>\<open>start\<close>
  has reached it; every earlier tick showed the floor of a \<^verbatim>\<open>start\<close> below it.\<close>

lemma counter_loop_cleared:
  "counter_loop hadd fuel target inc n c = Some (k, c') \<Longrightarrow>
   ctr_text c' = Some target \<and> js_ge (ctr_start c') target \<and> n < k"
proof (induction fuel arbitrary: n c)
  case 0
  then show ?case by simp
next
  case (Suc fuel)
  then show ?case
    by (auto simp: counter_tick_def Let_def split: if_splits dest: Suc.IH)
qed

lemma counter_tick_below:
  "counter_tick hadd target inc c = (c', False) \<Longrightarrow>
   ctr_text c' = Some (js_floor (ctr_start c')) \<and> \<not> js_ge (ctr_start c') target"
  by (auto simp: counter_tick_def Let_def split: if_splits)

end
