(* ===== verification/Stars.thy ===== *)
theory Stars
  imports Particles
begin

text \<open>
  \<^verbatim>\<open>createStars(containerId, count, size)\<close> of \<^verbatim>\<open>src/script.js\<close> (lines 139--150),
  a global function the script defines and never calls. For each \<^verbatim>\<open>i < count\<close> it
  reads two random numbers and appends \<^verbatim>\<open>${x}px ${y}px #fff\<close> to the box shadow,
  followed by \<^verbatim>\<open>, \<close> while \<^verbatim>\<open>i < count - 1\<close>. \<^verbatim>\<open>count\<close> is any number, so
  the loop is a \<open>function\<close> over a real bound with its termination measure. Random
  numbers are the stream \<open>rs\<close> of \<open>Particles\<close>, read from index \<open>k\<close>.
\<close>

text \<open>\<^verbatim>\<open>Math.floor(Math.random() * 2000)\<close>\<close>

definition star_coord :: "real \<Rightarrow> int" where
  "star_coord r = \<lfloor>r * 2000\<rfloor>"

definition star_text :: "real \<Rightarrow> real \<Rightarrow> string" where
  "star_text rx ry = int_lexeme (star_coord rx) @ ''px '' @ int_lexeme (star_coord ry) @ ''px #fff''"

function stars_loop :: "real \<Rightarrow> rng \<Rightarrow> nat \<Rightarrow> nat \<Rightarrow> string \<Rightarrow> string" where
  "stars_loop count rs k i boxShadow =
     (if real i < count
      then stars_loop count rs (k + 2) (Suc i)
             (boxShadow @ star_text (rs k) (rs (k + 1)) @ (if real i < count - 1 then '', '' else []))
      else boxShadow)"
  by pat_completeness auto
termination
proof (relation "measure (\<lambda>(count, rs, k, i, b). nat (\<lceil>count\<rceil> - int i))")
  fix count :: real and rs :: rng and k i :: nat and b :: string
  assume "real i < count"
  then have "int i < \<lceil>count\<rceil>" by (simp add: less_ceiling_iff)
  then show "((count, rs, k + 2, Suc i, b @ star_text (rs k) (rs (k + 1)) @ (if real i < count - 1 then '', '' else [])),
      (count, rs, k, i, b)) \<in> measure (\<lambda>(count, rs, k, i, b). nat (\<lceil>count\<rceil> - int i))"
    by simp
qed simp

declare stars_loop.simps [simp del]

text \<open>The container's \<^verbatim>\<open>style.boxShadow\<close>, or \<open>None\<close> when it is missing.\<close>

definition createStars :: "string option \<Rightarrow> real \<Rightarrow> rng \<Rightarrow> nat \<Rightarrow> string option" where
  "createStars container count rs k =
     (case container of None \<Rightarrow> None | Some _ \<Rightarrow> Some (stars_loop count rs k 0 []))"

subsection \<open>The loop is a join\<close>

lemma real_less_iff_ceiling: "real (m::nat) < c \<longleftrightarrow> int m < \<lceil>c\<rceil>"
  by (simp add: less_ceiling_iff)

lemma stars_loop_join:
  "stars_loop count rs k i b =
     b @ js_join '', '' (map (\<lambda>j. star_text (rs (k + 2 * (j - i))) (rs (k + 2 * (j - i) + 1))) [i..<nat \<lceil>count\<rceil>])"
proof (induction count rs k i b rule: stars_loop.induct)
  case (1 count rs k i b)
  define f where "f = (\<lambda>j. star_text (rs (k + 2 * (j - i))) (rs (k + 2 * (j - i) + 1)))"
  define g where "g = (\<lambda>j. star_text (rs (k + 2 + 2 * (j - Suc i))) (rs (k + 2 + 2 * (j - Suc i) + 1)))"
  show ?case
  proof (cases "real i < count")
    case True
    then have lt: "i < nat \<lceil>count\<rceil>" by (simp add: real_less_iff_ceiling)
    have sep: "real i < count - 1 \<longleftrightarrow> [Suc i..<nat \<lceil>count\<rceil>] \<noteq> []"
      using real_less_iff_ceiling [of "Suc i" count] by auto
    have fg: "map f [Suc i..<nat \<lceil>count\<rceil>] = map g [Suc i..<nat \<lceil>count\<rceil>]"
    proof (intro map_cong refl)
      fix x assume "x \<in> set [Suc i..<nat \<lceil>count\<rceil>]"
      then have "k + 2 * (x - i) = k + 2 + 2 * (x - Suc i)" by auto
      then show "f x = g x" by (simp add: f_def g_def)
    qed
    have "stars_loop count rs k i b =
        stars_loop count rs (k + 2) (Suc i) (b @ f i @ (if real i < count - 1 then '', '' else []))"
      using True by (subst stars_loop.simps) (simp add: f_def)
    also have "\<dots> = (b @ f i @ (if real i < count - 1 then '', '' else [])) @
        js_join '', '' (map g [Suc i..<nat \<lceil>count\<rceil>])"
      using "1" True by (simp add: f_def g_def)
    also have "\<dots> = (b @ f i @ (if real i < count - 1 then '', '' else [])) @
        js_join '', '' (map f [Suc i..<nat \<lceil>count\<rceil>])"
      by (simp only: fg)
    also have "\<dots> = b @ js_join '', '' (map f [i..<nat \<lceil>count\<rceil>])"
      using lt sep by (simp add: upt_conv_Cons js_join_Cons)
    finally show ?thesis by (simp add: f_def)
  next
    case False
    then have "\<not> i < nat \<lceil>count\<rceil>" by (simp add: real_less_iff_ceiling)
    with False show ?thesis by (subst stars_loop.simps) simp
  qed
qed

lemma createStars_join:
  "createStars (Some c) count rs k =
     Some (js_join '', '' (map (\<lambda>j. star_text (rs (k + 2 * j)) (rs (k + 2 * j + 1))) [0..<nat \<lceil>count\<rceil>]))"
  by (simp add: createStars_def stars_loop_join)

lemma createStars_nonpositive: "count \<le> 0 \<Longrightarrow> createStars (Some c) count rs k = Some []"
  by (simp add: createStars_join)

lemma star_coord_range: "0 \<le> r \<Longrightarrow> r < 1 \<Longrightarrow> 0 \<le> star_coord r \<and> star_coord r < 2000"
  by (simp add: star_coord_def floor_less_iff)

end
