(* ===== verification/Decor.thy ===== *)
theory Decor
  imports Observers Particles
begin

text \<open>
  The decorative parts of \<^verbatim>\<open>src/script.js\<close> that the other theories leave out: the
  stagger delays of the project cards (lines 62--66), the social-card hover (245--250), the
  floating DOM particles and their injected keyframes (270--324), the removal of the
  \<^verbatim>\<open>preload\<close> class on load (342--344), the injected rainbow keyframes and the console
  banner (364--375). They run once, in the order of the script, when it is loaded:
  \<open>decor_load\<close> composes them over one page state. Random numbers are the stream of
  \<open>Particles\<close>, read in call order from index \<open>k\<close>; numbers printed into CSS text are
  kept as reals. The hover writes \<^verbatim>\<open>style.transition\<close> of the \<^verbatim>\<open>.social-card\<close>
  elements the reveal controller also styles, so it acts on a \<open>reveal_page\<close>.
\<close>

subsection \<open>Project-card stagger (lines 62--66)\<close>

text \<open>\<^verbatim>\<open>card.style.animationDelay = `${index * 0.1}s`\<close> for the \<open>index\<close>-th card.\<close>

definition stagger_delays :: "nat \<Rightarrow> real list" where
  "stagger_delays n = map (\<lambda>index. real index * 0.1) [0..<n]"

subsection \<open>Social-card hover (lines 245--250)\<close>

definition social_transition :: string where
  "social_transition = ''all 0.4s cubic-bezier(0.175, 0.885, 0.32, 1.275)''"

text \<open>The listener exists on the elements of class \<^verbatim>\<open>social-card\<close> only.\<close>

definition social_mouseenter :: "nat \<Rightarrow> reveal_page \<Rightarrow> reveal_page" where
  "social_mouseenter i p =
     (if i < length (r_els p) \<and> ''social-card'' \<in> set (r_classes (r_els p ! i))
      then p\<lparr>r_els := (r_els p)[i := (r_els p ! i)\<lparr>r_transition := social_transition\<rparr>]\<rparr>
      else p)"

subsection \<open>Floating DOM particles (lines 270--324)\<close>

record dom_particle =
  dp_width :: real
  dp_height :: real
  dp_alpha :: real
  dp_left :: real
  dp_top :: real
  dp_duration :: real

text \<open>One particle's \<^verbatim>\<open>cssText\<close>: six random numbers in the order of the template.\<close>

definition dom_particle_at :: "rng \<Rightarrow> nat \<Rightarrow> dom_particle" where
  "dom_particle_at rs k =
     \<lparr>dp_width = rs k * 4 + 1, dp_height = rs (k + 1) * 4 + 1, dp_alpha = rs (k + 2) * 0.5 + 0.3,
      dp_left = rs (k + 3) * 100, dp_top = rs (k + 4) * 100, dp_duration = rs (k + 5) * 10 + 10\<rparr>"

definition dom_particleCount :: nat where
  "dom_particleCount = 20"

definition createParticles :: "rng \<Rightarrow> nat \<Rightarrow> dom_particle list \<times> nat" where
  "createParticles rs k = (map (\<lambda>i. dom_particle_at rs (k + 6 * i)) [0..<dom_particleCount], k + 6 * dom_particleCount)"

subsection \<open>Page state and load order\<close>

text \<open>The styles appended to \<^verbatim>\<open>document.head\<close> (the \<^verbatim>\<open>float-particle\<close>
  keyframes carry their random drift), the console output, the body's classes and the
  appended particles.\<close>

datatype head_style = FloatParticleKeyframes real | RainbowKeyframes

datatype console_line = WelcomeBanner | KonamiTip

record decor_page =
  head_styles :: "head_style list"
  console :: "console_line list"
  body_classes :: "string list"
  dom_particles :: "dom_particle list"

definition float_keyframes :: "rng \<Rightarrow> nat \<Rightarrow> head_style \<times> nat" where
  "float_keyframes rs k = (FloatParticleKeyframes (rs k * 100 - 50), Suc k)"

text \<open>Lines 297--324 and 364--375 as the script runs them: the keyframes read a random
  number before the particles are created (only on a window wider than 968px), then the
  rainbow keyframes and the two console lines. Returns the next random index.\<close>

definition decor_load :: "real \<Rightarrow> rng \<Rightarrow> nat \<Rightarrow> decor_page \<Rightarrow> decor_page \<times> nat" where
  "decor_load w rs k p =
     (let (kf, k1) = float_keyframes rs k;
          p1 = p\<lparr>head_styles := head_styles p @ [kf]\<rparr>;
          (ps, k2) = (if 968 < w then createParticles rs k1 else ([], k1));
          p2 = p1\<lparr>dom_particles := dom_particles p1 @ ps\<rparr>;
          p3 = p2\<lparr>head_styles := head_styles p2 @ [RainbowKeyframes]\<rparr>
      in (p3\<lparr>console := console p3 @ [WelcomeBanner, KonamiTip]\<rparr>, k2))"

text \<open>The window's load listener: \<^verbatim>\<open>classList.remove('preload')\<close> removes every
  occurrence.\<close>

definition remove_preload :: "decor_page \<Rightarrow> decor_page" where
  "remove_preload p = p\<lparr>body_classes := removeAll ''preload'' (body_classes p)\<rparr>"

subsection \<open>Laws of the decorations\<close>

lemma stagger_delays_nth: "i < n \<Longrightarrow> stagger_delays n ! i = real i / 10"
  by (simp add: stagger_delays_def)

lemma stagger_delays_sorted: "sorted_wrt (<) (stagger_delays n)"
  by (simp add: stagger_delays_def sorted_wrt_map sorted_wrt_iff_nth_less)

lemma dom_particle_ranges:
  assumes "random_stream rs"
  shows "1 \<le> dp_width (dom_particle_at rs k) \<and> dp_width (dom_particle_at rs k) < 5 \<and>
    1 \<le> dp_height (dom_particle_at rs k) \<and> dp_height (dom_particle_at rs k) < 5 \<and>
    0.3 \<le> dp_alpha (dom_particle_at rs k) \<and> dp_alpha (dom_particle_at rs k) < 0.8 \<and>
    0 \<le> dp_left (dom_particle_at rs k) \<and> dp_left (dom_particle_at rs k) < 100 \<and>
    0 \<le> dp_top (dom_particle_at rs k) \<and> dp_top (dom_particle_at rs k) < 100 \<and>
    10 \<le> dp_duration (dom_particle_at rs k) \<and> dp_duration (dom_particle_at rs k) < 20"
proof -
  from assms have r: "\<And>j. 0 \<le> rs j \<and> rs j < 1" by (simp add: random_stream_def)
  show ?thesis using r [of k] r [of "k + 1"] r [of "k + 2"] r [of "k + 3"] r [of "k + 4"] r [of "k + 5"]
    by (simp add: dom_particle_at_def)
qed

lemma float_drift_range:
  "random_stream rs \<Longrightarrow> fst (float_keyframes rs k) = FloatParticleKeyframes d \<Longrightarrow> -50 \<le> d \<and> d < 50"
  by (auto simp: float_keyframes_def random_stream_def dest: spec [of _ k])

text \<open>The load adds the two keyframe styles in order, the two console lines, and twenty
  particles exactly on a wide window, each reading six fresh random numbers after the
  keyframes' one.\<close>

lemma decor_load_result:
  "decor_load w rs k p =
     (p\<lparr>head_styles := head_styles p @ [FloatParticleKeyframes (rs k * 100 - 50), RainbowKeyframes],
        console := console p @ [WelcomeBanner, KonamiTip],
        dom_particles := dom_particles p @
          (if 968 < w then map (\<lambda>i. dom_particle_at rs (Suc k + 6 * i)) [0..<20] else [])\<rparr>,
      if 968 < w then k + 121 else Suc k)"
  by (simp add: decor_load_def float_keyframes_def createParticles_def dom_particleCount_def Let_def)

lemma decor_load_body: "body_classes (fst (decor_load w rs k p)) = body_classes p"
  by (simp add: decor_load_result)

lemma remove_preload_gone: "''preload'' \<notin> set (body_classes (remove_preload p))"
  by (simp add: remove_preload_def)

lemma remove_preload_keeps: "c \<noteq> ''preload'' \<Longrightarrow> c \<in> set (body_classes (remove_preload p)) \<longleftrightarrow> c \<in> set (body_classes p)"
  by (simp add: remove_preload_def)

text \<open>Hovering a social card sets its transition and nothing else; on a card not yet
  revealed it replaces the reveal's \<^verbatim>\<open>all 0.6s ease\<close>, so the reveal then runs with the
  hover's timing.\<close>

lemma social_mouseenter_nth:
  "j < length (r_els p) \<Longrightarrow>
   r_els (social_mouseenter i p) ! j =
     (if i = j \<and> ''social-card'' \<in> set (r_classes (r_els p ! i))
      then (r_els p ! j)\<lparr>r_transition := social_transition\<rparr> else r_els p ! j)"
  by (auto simp: social_mouseenter_def nth_list_update_if)

lemma social_mouseenter_length [simp]: "length (r_els (social_mouseenter i p)) = length (r_els p)"
  by (simp add: social_mouseenter_def)

lemma social_mouseenter_obs [simp]: "r_obs (social_mouseenter i p) = r_obs p"
  by (simp add: social_mouseenter_def)

end
