(* ===== verification/Load.thy ===== *)
theory Load
  imports Typing Embed Decor
begin

text \<open>
  The window's \<^verbatim>\<open>load\<close> event as the script composes it: three listeners, run in the
  order they were registered, the typing effect (line 123), the \<^verbatim>\<open>preload\<close> removal
  (342) and the embed fallback (573), over one page and one timer queue. The queue holds the
  timers of both timed components, tagged by \<open>load_timer\<close>. A component's handler runs on
  its view of the queue (the same clock and handle counter, its own timers only), and its
  result is merged back: its timers that it cleared are removed, the timers it set are
  appended under its tag, everything else is kept in place. Neither component clears a handle
  it did not set, so this is the browser's single queue.
\<close>

datatype load_timer = LTyping typing_timer | LEmbed embed_timer

record load_page =
  pg_typing :: typing_page
  pg_embed :: embed_page
  pg_decor :: decor_page

type_synonym load_sys = "(load_page, load_timer) sys"

definition view_q :: "('c \<Rightarrow> 'a option) \<Rightarrow> 'c timers \<Rightarrow> 'a timers" where
  "view_q pr Q =
     \<lparr>clock = clock Q, next_handle = next_handle Q,
      pending = concat (map (\<lambda>(h, d, x). case pr x of None \<Rightarrow> [] | Some a \<Rightarrow> [(h, d, a)]) (pending Q))\<rparr>"

definition merge_q :: "('c \<Rightarrow> 'a option) \<Rightarrow> ('a \<Rightarrow> 'c) \<Rightarrow> 'c timers \<Rightarrow> 'a timers \<Rightarrow> 'c timers" where
  "merge_q pr tag Q q =
     \<lparr>clock = clock q, next_handle = next_handle q,
      pending = filter (\<lambda>(h, d, x). pr x = None \<or> (h, d, the (pr x)) \<in> set (pending q)) (pending Q)
                @ map (\<lambda>(h, d, a). (h, d, tag a)) (filter (\<lambda>(h, _, _). next_handle Q \<le> h) (pending q))\<rparr>"

fun typing_of :: "load_timer \<Rightarrow> typing_timer option" where
  "typing_of (LTyping f) = Some f"
| "typing_of _ = None"

fun embed_of :: "load_timer \<Rightarrow> embed_timer option" where
  "embed_of (LEmbed f) = Some f"
| "embed_of _ = None"

definition lift_typing :: "(typing_sys \<Rightarrow> typing_sys) \<Rightarrow> load_sys \<Rightarrow> load_sys" where
  "lift_typing f c =
     (let (P, Q) = c; (s', q') = f (pg_typing P, view_q typing_of Q)
      in (P\<lparr>pg_typing := s'\<rparr>, merge_q typing_of LTyping Q q'))"

definition lift_embed :: "(embed_sys \<Rightarrow> embed_sys) \<Rightarrow> load_sys \<Rightarrow> load_sys" where
  "lift_embed f c =
     (let (P, Q) = c; (s', q') = f (pg_embed P, view_q embed_of Q)
      in (P\<lparr>pg_embed := s'\<rparr>, merge_q embed_of LEmbed Q q'))"

definition lift_decor :: "(decor_page \<Rightarrow> decor_page) \<Rightarrow> load_sys \<Rightarrow> load_sys" where
  "lift_decor f c = (let (P, Q) = c in (P\<lparr>pg_decor := f (pg_decor P)\<rparr>, Q))"

datatype load_event = WindowLoaded | PlayerLoaded

text \<open>The listeners of the window's \<^verbatim>\<open>load\<close>, in registration order, and the player's.\<close>

fun load_handle :: "load_event \<Rightarrow> load_sys \<Rightarrow> load_sys" where
  "load_handle WindowLoaded c =
     lift_embed embed_window_load (lift_decor remove_preload (lift_typing (typing_load WindowLoad) c))"
| "load_handle PlayerLoaded c = lift_embed player_load c"

fun load_fire :: "load_timer \<Rightarrow> load_sys \<Rightarrow> load_sys" where
  "load_fire (LTyping f) c = lift_typing (typing_fire f) c"
| "load_fire (LEmbed f) c = lift_embed (embed_fire f) c"

definition load_run :: "load_event input list \<Rightarrow> load_sys \<Rightarrow> load_sys option" where
  "load_run = drive load_handle load_fire"

text \<open>Every pending timer has a handle below the next one: the queue the host keeps.\<close>

definition handles_fresh :: "'c timers \<Rightarrow> bool" where
  "handles_fresh Q \<longleftrightarrow> list_all (\<lambda>(h, _, _). h < next_handle Q) (pending Q)"

text \<open>A page with every element present, for the witnesses.\<close>

definition demo_load :: load_page where
  "demo_load =
     \<lparr>pg_typing = \<lparr>subtitle = Some ''Hi''\<rparr>, pg_embed = demo_embed,
      pg_decor = \<lparr>head_styles = [], console = [], body_classes = [''preload''], dom_particles = []\<rparr>\<rparr>"

subsection \<open>Laws of the shared queue\<close>

lemma view_q_member:
  "(h, d, a) \<in> set (pending (view_q pr Q)) \<longleftrightarrow> (\<exists>x. (h, d, x) \<in> set (pending Q) \<and> pr x = Some a)"
  by (force simp: view_q_def split: option.splits)

lemma view_q_fields [simp]: "clock (view_q pr Q) = clock Q" "next_handle (view_q pr Q) = next_handle Q"
  by (simp_all add: view_q_def)

lemma merge_view_filter:
  "filter (\<lambda>(h, d, x). pr x = None \<or> (h, d, the (pr x)) \<in> set (pending (view_q pr Q))) (pending Q) = pending Q"
  by (auto simp: view_q_member filter_id_conv)

lemma handles_freshD: "handles_fresh Q \<Longrightarrow> (h, d, x) \<in> set (pending Q) \<Longrightarrow> h < next_handle Q"
  by (auto simp: handles_fresh_def list_all_iff)

lemma view_q_handles: "handles_fresh Q \<Longrightarrow> (h, d, a) \<in> set (pending (view_q pr Q)) \<Longrightarrow> h < next_handle Q"
  by (metis handles_freshD view_q_member)

lemma view_q_old_handles:
  "handles_fresh Q \<Longrightarrow> filter (\<lambda>(h, _, _). next_handle Q \<le> h) (pending (view_q pr Q)) = []"
  by (force simp: filter_empty_conv dest: view_q_handles)

text \<open>A component that leaves its timers alone leaves the shared queue alone; one that sets a
  timer appends it under its tag with the next handle.\<close>

lemma merge_q_view:
  "handles_fresh Q \<Longrightarrow> merge_q pr tag Q (view_q pr Q) = Q"
  by (intro timers.equality) (simp_all add: merge_q_def merge_view_filter view_q_old_handles)

lemma merge_q_set_timeout:
  assumes "handles_fresh Q"
  shows "merge_q pr tag Q (snd (set_timeout d a (view_q pr Q))) = snd (set_timeout d (tag a) Q)"
proof -
  have "filter (\<lambda>(h, d', x). pr x = None \<or>
          (h, d', the (pr x)) \<in> set (pending (view_q pr Q) @ [(next_handle Q, clock Q + d, a)])) (pending Q) =
        pending Q"
    using merge_view_filter [of pr Q] by (auto simp: filter_id_conv)
  with view_q_old_handles [OF assms, of pr] show ?thesis
    by (intro timers.equality) (simp_all add: merge_q_def)
qed

lemma merge_q_clear_timeout:
  assumes "handles_fresh Q"
  shows "merge_q pr tag Q (clear_timeout h (view_q pr Q)) =
    Q\<lparr>pending := filter (\<lambda>(h', _, x). h' \<noteq> h \<or> pr x = None) (pending Q)\<rparr>"
proof -
  have "filter (\<lambda>(h', d, x). pr x = None \<or>
          (h', d, the (pr x)) \<in> set (filter (\<lambda>(h'', _, _). h'' \<noteq> h) (pending (view_q pr Q)))) (pending Q) =
        filter (\<lambda>(h', _, x). h' \<noteq> h \<or> pr x = None) (pending Q)"
    by (rule filter_cong) (auto simp: view_q_member)
  moreover have "filter (\<lambda>(h', _, _). next_handle Q \<le> h') (filter (\<lambda>(h'', _, _). h'' \<noteq> h) (pending (view_q pr Q))) = []"
    using view_q_old_handles [OF assms, of pr] by (auto simp: filter_empty_conv)
  ultimately show ?thesis by (intro timers.equality) (simp_all add: merge_q_def clear_timeout_def)
qed

lemma handles_fresh_set_timeout [simp]: "handles_fresh Q \<Longrightarrow> handles_fresh (snd (set_timeout d f Q))"
  by (auto simp: handles_fresh_def set_timeout_def list_all_iff)

lemma handles_fresh_clock [simp]: "handles_fresh (Q\<lparr>clock := t\<rparr>) = handles_fresh Q"
  by (simp add: handles_fresh_def)

lemma typing_load_set:
  "subtitle s = Some txt \<Longrightarrow> typing_load WindowLoad (s, q) = (s, snd (set_timeout 1500 (StartTyping txt) q))"
  by simp

lemma embed_window_load_set:
  "player_display s \<noteq> None \<Longrightarrow> fallback_display s \<noteq> None \<Longrightarrow>
   embed_window_load (s, q) = (s\<lparr>fallback_handle := Some (next_handle q)\<rparr>, snd (set_timeout 5000 ShowFallback q))"
  by (simp add: embed_window_load_def set_timeout_def)

subsection \<open>The load event over the shared queue\<close>

text \<open>The window's load sets the typing timer at +1500 ms and then the fallback timer at
  +5000 ms, with consecutive handles, and removes \<^verbatim>\<open>preload\<close>.\<close>

lemma window_loaded:
  assumes "handles_fresh Q" "timely t Q" "subtitle (pg_typing P) = Some txt"
    "player_display (pg_embed P) \<noteq> None" "fallback_display (pg_embed P) \<noteq> None"
  shows "load_run [Event t WindowLoaded] (P, Q) =
    Some (P\<lparr>pg_embed := (pg_embed P)\<lparr>fallback_handle := Some (Suc (next_handle Q))\<rparr>,
             pg_decor := remove_preload (pg_decor P)\<rparr>,
          Q\<lparr>clock := t, next_handle := next_handle Q + 2,
            pending := pending Q @ [(next_handle Q, t + 1500, LTyping (StartTyping txt)),
                                    (Suc (next_handle Q), t + 5000, LEmbed ShowFallback)]\<rparr>)"
proof -
  let ?Q1 = "snd (set_timeout 1500 (LTyping (StartTyping txt)) (Q\<lparr>clock := t\<rparr>))"
  have fr: "handles_fresh (Q\<lparr>clock := t\<rparr>)" using assms(1) by simp
  have t1: "lift_typing (typing_load WindowLoad) (P, Q\<lparr>clock := t\<rparr>) = (P, ?Q1)"
    using assms(3) merge_q_set_timeout [OF fr, of typing_of LTyping 1500 "StartTyping txt"]
    by (simp add: lift_typing_def)
  have fr1: "handles_fresh ?Q1" using fr by simp
  have t2: "lift_embed embed_window_load (P\<lparr>pg_decor := remove_preload (pg_decor P)\<rparr>, ?Q1) =
      (P\<lparr>pg_decor := remove_preload (pg_decor P), pg_embed := (pg_embed P)\<lparr>fallback_handle := Some (next_handle ?Q1)\<rparr>\<rparr>,
       snd (set_timeout 5000 (LEmbed ShowFallback) ?Q1))"
    using assms(4,5) merge_q_set_timeout [OF fr1, of embed_of LEmbed 5000 ShowFallback]
    by (simp add: lift_embed_def embed_window_load_set)
  show ?thesis
    using assms(2) t1 t2 by (simp add: load_run_def lift_decor_def set_timeout_def)
qed

text \<open>
  C36. The typing effect and the embed fallback share the window's timer queue without
  interfering. The window's load at \<open>t\<close> sets the typing timer (due \<open>t + 1500\<close>) and
  then the fallback timer (due \<open>t + 5000\<close>) with consecutive handles. A player load at
  \<open>t' \<le> t + 1500\<close> clears exactly the fallback timer, by its handle: the typing timer
  stays pending with its handle and due time, and the page is changed only by the load
  listeners (the fallback handle recorded, \<^verbatim>\<open>preload\<close> removed).
\<close>

theorem player_load_keeps_typing:
  assumes "pending Q = []" "clock Q \<le> t" "t \<le> t'" "t' \<le> t + 1500" "subtitle (pg_typing P) = Some txt"
    "player_display (pg_embed P) \<noteq> None" "fallback_display (pg_embed P) \<noteq> None"
  shows "load_run [Event t WindowLoaded, Event t' PlayerLoaded] (P, Q) =
    Some (P\<lparr>pg_embed := (pg_embed P)\<lparr>fallback_handle := Some (Suc (next_handle Q))\<rparr>,
             pg_decor := remove_preload (pg_decor P)\<rparr>,
          Q\<lparr>clock := t', next_handle := next_handle Q + 2,
            pending := [(next_handle Q, t + 1500, LTyping (StartTyping txt))]\<rparr>)"
proof -
  have fr: "handles_fresh Q" "timely t Q" using assms(1,2) by (simp_all add: handles_fresh_def timely_def)
  let ?P1 = "P\<lparr>pg_embed := (pg_embed P)\<lparr>fallback_handle := Some (Suc (next_handle Q))\<rparr>,
             pg_decor := remove_preload (pg_decor P)\<rparr>"
  let ?Q1 = "Q\<lparr>clock := t, next_handle := next_handle Q + 2,
            pending := [(next_handle Q, t + 1500, LTyping (StartTyping txt)),
                        (Suc (next_handle Q), t + 5000, LEmbed ShowFallback)]\<rparr>"
  have w: "load_run [Event t WindowLoaded] (P, Q) = Some (?P1, ?Q1)"
    using window_loaded [OF fr assms(5-7)] assms(1) by simp
  have fr1: "handles_fresh (?Q1\<lparr>clock := t'\<rparr>)" by (simp add: handles_fresh_def)
  have tm: "timely t' ?Q1" using assms(3,4) by (simp add: timely_def)
  have "load_handle PlayerLoaded (?P1, ?Q1\<lparr>clock := t'\<rparr>) =
      (?P1, (?Q1\<lparr>clock := t'\<rparr>)\<lparr>pending := filter (\<lambda>(h', _, x). h' \<noteq> Suc (next_handle Q) \<or> embed_of x = None)
                                              (pending ?Q1)\<rparr>)"
    using merge_q_clear_timeout [OF fr1, of embed_of LEmbed "Suc (next_handle Q)"]
    by (simp add: lift_embed_def player_load_def)
  then have p: "drive load_handle load_fire [Event t' PlayerLoaded] (?P1, ?Q1) =
      Some (?P1, Q\<lparr>clock := t', next_handle := next_handle Q + 2,
                pending := [(next_handle Q, t + 1500, LTyping (StartTyping txt))]\<rparr>)"
    using tm by simp
  have "drive load_handle load_fire ([Event t WindowLoaded] @ [Event t' PlayerLoaded]) (P, Q) =
      drive load_handle load_fire [Event t' PlayerLoaded] (?P1, ?Q1)"
    using w unfolding drive_append load_run_def by (simp del: drive.simps)
  with p show ?thesis by (simp add: load_run_def del: drive.simps)
qed

theorem player_load_keeps_typing_witness:
  "load_run [Event 10 WindowLoaded, Event 20 PlayerLoaded] (demo_load, no_timers) =
    Some (demo_load\<lparr>pg_embed := demo_embed\<lparr>fallback_handle := Some 2\<rparr>,
                     pg_decor := remove_preload (pg_decor demo_load)\<rparr>,
          \<lparr>clock = 20, next_handle = 3, pending = [(1, 1510, LTyping (StartTyping ''Hi''))]\<rparr>)"
proof -
  have h: "pending (no_timers :: load_timer timers) = []" "clock (no_timers :: load_timer timers) \<le> 10"
    "(10::nat) \<le> 20" "(20::nat) \<le> 10 + 1500" "subtitle (pg_typing demo_load) = Some ''Hi''"
    "player_display (pg_embed demo_load) \<noteq> None" "fallback_display (pg_embed demo_load) \<noteq> None"
    by (simp_all add: no_timers_def demo_load_def demo_embed_def)
  show ?thesis using player_load_keeps_typing [OF h] by (simp add: no_timers_def demo_load_def)
qed

end
