(* ===== verification/Spec2Isabelle.thy ===== *)
theory Spec2Isabelle
  imports Konami Particles ScrollNav NotifyForm Typing Embed PastStreams Pointer Counter Stars Decor Load
begin

text \<open>
  A verification model of \<^verbatim>\<open>src/script.js\<close>, the client-side script of a static
  portfolio page. The script is a set of independent DOM event handlers that share only
  the document, the window's timers and animation frames, and the browser's local storage.
  Each listener is one HOL function from the component's state (and timer queue) to the
  new ones; the state record holds exactly the module variables and DOM properties the
  listener reads or writes. An element the code looks up and may not find is an
  \<open>option\<close>; an exception is a value of \<open>outcome\<close> that keeps the writes made before it.

  \<^bold>\<open>Layout.\<close>
  \<^item> \<open>Prelude\<close>: the library operations the script calls (\<^verbatim>\<open>Array.prototype.slice\<close>
    with a negative start as \<open>slice_last\<close>, \<^verbatim>\<open>join\<close> as \<open>js_join\<close>,
    \<^verbatim>\<open>forEach\<close> over mutable elements as \<open>js_for_each\<close>, the CSS substring selector
    as \<open>css_contains\<close>, an integral number's text as \<open>int_lexeme\<close>), the
    \<open>outcome\<close> of a handler that may throw, shared lemmas.
  \<^item> \<open>Timers\<close>: the host's \<^verbatim>\<open>setTimeout\<close>/\<^verbatim>\<open>clearTimeout\<close> queue and the
    event loop \<open>drive\<close>, which runs a component's event handler and timer callback over a
    trace (\<open>Event t e\<close> at time \<open>t\<close> ms, \<open>Fire\<close> for the next due timer); a trace no
    browser can produce gives \<open>None\<close>. The interface lemmas \<open>drive_inv\<close> (and
    \<open>drive_inv_on\<close>, for the events a run delivers), \<open>drive_project\<close> and
    \<open>drive_idle\<close> lift per-handler facts to whole runs.
  \<^item> \<open>JsNumber\<close>: IEEE division and multiplication with \<open>NaN\<close> and the infinities.
  \<^item> \<open>Storage\<close>: \<^verbatim>\<open>localStorage.getItem\<close>/\<^verbatim>\<open>setItem\<close> with the quota error.
  \<^item> \<open>Json\<close>: the host's \<^verbatim>\<open>JSON.stringify\<close> (QuoteJSONString escapes) and
    \<^verbatim>\<open>JSON.parse\<close> as a recursive-descent parser with fuel. The fuel given is one more
    than the length of the text; \<open>parse_value_enough_fuel\<close> shows that every call that
    succeeds consumes a character, so any larger fuel gives the same answer and \<open>None\<close>
    is a syntax error, never exhaustion; parsing the printed form gives the value back.
  \<^item> \<open>Konami\<close> (lines 349--362): the keydown listener, its ten-key window and the
    5000 ms timer that clears the rainbow (C1--C4).
  \<^item> \<open>Particles\<close> (379--461): the canvas particle class (\<^verbatim>\<open>reset\<close>,
    \<^verbatim>\<open>update\<close>, \<^verbatim>\<open>draw\<close>) and the frame loop, over a stream of
    \<^verbatim>\<open>Math.random\<close> values (C5--C9).
  \<^item> \<open>ScrollNav\<close> (4--32, 87--105, 206--223, 325--337): the menu toggle, the navbar's
    scrolled class, \<^verbatim>\<open>highlightNavLink\<close> with its selector, the progress bar and the
    animation-frame throttle, as the window's scroll listeners in registration order and a
    frame step (C10--C17).
  \<^item> \<open>NotifyForm\<close> (466--488): the submit listener and its 2000 ms reset timer (C18--C22).
  \<^item> \<open>Typing\<close> (110--134): the load listener, \<^verbatim>\<open>typeWriter\<close> and its
    self-rescheduling closure (C23--C24).
  \<^item> \<open>Embed\<close> (573--589): the embed fallback timer and the player's load listener
    (C25--C26).
  \<^item> \<open>PastStreams\<close> (493--570): the \<^verbatim>\<open>#viewRecordings\<close> click listener,
    \<^verbatim>\<open>loadPastStreams\<close> with its \<^verbatim>\<open>children.length > 1\<close> guard and its
    \<^verbatim>\<open>forEach\<close> of cards, and \<^verbatim>\<open>saveStreamRecording\<close>, all over \<open>Json\<close> and
    \<open>Storage\<close>; \<open>past_step\<close> is one click or one external save (C27--C35).
  \<^item> \<open>Observers\<close> (36--58, 228--240): the host \<^verbatim>\<open>IntersectionObserver\<close> as a list
    of targets, the reveal controller (\<open>reveal_setup\<close>, \<open>reveal_callback\<close>) and the lazy
    image loader (\<open>lazy_setup\<close>, \<open>lazy_callback\<close>); reachable pages are the inductive
    relations \<open>reveal_reach\<close> and \<open>lazy_reach\<close>: the setup, then any batch of entries
    for observed targets, one per target (C37--C40).
  \<^item> \<open>Pointer\<close> (71--82, 155--178, 183--201): the hero parallax in \<open>jsnum\<close>
    (\<open>parallax_mousemove\<close>), the cursor glow (\<open>glow_load\<close>, \<open>glow_mousemove\<close>) and
    the card tilt (\<open>card_mousemove\<close>, \<open>card_mouseleave\<close>), which writes the
    \<^verbatim>\<open>transform\<close> of the same elements as the reveal controller. Its lemmas bound the
    parallax to 10px and the tilt to a twentieth of the card, and show the glow breakpoint
    read once at load. The interaction of tilt and reveal is proved at the end of this theory.
  \<^item> \<open>Counter\<close> (255--268): \<^verbatim>\<open>animateCounter\<close>, defined and never called, as a
    loop with fuel, one unit per 16 ms tick. Its additions accumulate IEEE rounding errors
    that decide the number of ticks, and the library has no executable double rounding, so
    the host's \<^verbatim>\<open>+\<close> and \<^verbatim>\<open>/\<close> are parameters of the model and no tick
    count is claimed. For every arithmetic: a \<open>NaN\<close> target never stops, whatever the
    fuel, and a cleared interval shows the target.
  \<^item> \<open>Stars\<close> (139--150): \<^verbatim>\<open>createStars\<close>, also never called, whose loop over a
    real \<^verbatim>\<open>count\<close> is a \<open>function\<close> with a termination measure; it equals
    \<^verbatim>\<open>join(', ')\<close> of \<open>\<lceil>count\<rceil>\<close> entries (\<open>stars_loop_join\<close>).
  \<^item> \<open>Decor\<close> (62--66, 245--250, 270--324, 342--344, 364--375): the stagger delays, the
    social-card hover, the floating DOM particles with their keyframes, the preload removal,
    the rainbow keyframes and the console banner; \<open>decor_load\<close> runs them in the order of
    the script, with the random numbers read in that order. The hover and the reveal both
    write a social card's \<^verbatim>\<open>transition\<close>; the end of this theory shows the hover's
    timing outlives the reveal.
  \<^item> \<open>Load\<close>: the window's \<^verbatim>\<open>load\<close> event over the whole page, its three listeners
    (typing, preload removal, embed fallback) in registration order, and the player's load,
    on one timer queue shared by the typing and embed timers (\<open>load_timer\<close>). Each
    component runs on its view of the queue (\<open>view_q\<close>) and its result is merged back
    (\<open>merge_q\<close>); the laws of the two show that setting and clearing timers through a view
    is setting and clearing them in the shared queue. \<open>window_loaded\<close> gives the queue
    after the load, and \<open>player_load_keeps_typing\<close> shows the fallback's
    \<^verbatim>\<open>clearTimeout\<close> leaves the typing timer alone (C36).

  \<^bold>\<open>What is proved.\<close> Functional behaviour of each handler on every branch (C1, C6 the
  particle update decided by its guard, C18, C24, C26), invariants over any run (C2 the
  Konami window, C5 the particle ranges, C13 the throttle, C15 the menu, C22 the store
  written only under the form's key and only with an address the field held), a refinement of the highlighter against a
  declarative specification (C10, C11), bounds (C8, C16), termination of the typing effect
  (C23) and liveness of the particle resets (C7), and the error paths: a thrown
  \<^verbatim>\<open>SyntaxError\<close> that sticks the throttle (C14), the non-finite progress width
  (C17), the quota error (C21). Several theorems establish divergences from the
  specification: the Konami re-activation cut short by the earlier timer (C4), the glow
  colour lag (C9), the substring selector activating the first link that merely contains
  the id (C12), the unthrottled scroll listener (C10), the stuck
  \<^verbatim>\<open>Subscribed!\<close> button (C20, C21), and the fallback shown although the player
  loaded (C25). For the past-streams widget: the store round trip of a save (C27), a save shown by the
  next opening (C28), a refinement of any run of clicks and saves against an abstract list
  that each save prepends to (C29), the well-formedness of the stored list as a type
  invariant (C30), a closed form of the rendering loop (C34), the reopening that changes
  nothing (C33), and the divergences: invalid stored JSON throws instead of reading as an
  empty list (C31), a panel with two or more cards is never refreshed (C32), a
  \<^verbatim>\<open>null\<close> entry stops the rendering (C35). Across components, the typing and embed timers share one queue without interfering (C36). For the observers, invariants of every reachable page by
  rule induction: the reveal styles and targets (C37), the one-shot lazy load from the image's
  own \<^verbatim>\<open>data-src\<close> (C39); the one-directional reveal (C38); and the
  \<^verbatim>\<open>src = "undefined"\<close> left by two entries for one image in a batch (C40).

  \<^bold>\<open>Assumptions.\<close> Time is whole milliseconds; the layout (offsets, heights) is fixed
  during a run. Key values are those of \<^verbatim>\<open>KeyboardEvent.key\<close>. Real numbers stand for
  doubles: rounding is not modelled, non-finite values are (\<open>jsnum\<close>); in the counter,
  where rounding decides the outcome, the host's arithmetic is a parameter instead. Random values
  are a stream in \<open>[0, 1)\<close>. Strings are lists of 8-bit characters; storage quotas count
  them. \<^verbatim>\<open>Date.now()\<close> and \<^verbatim>\<open>toLocaleDateString()\<close> are inputs of a save;
  a card is the text of its three template slots, the rest of its markup being constant;
  \<^verbatim>\<open>JSON.stringify\<close> and \<^verbatim>\<open>JSON.parse\<close> follow ECMA-262 on the values the
  script stores (no lone surrogates, numbers kept as their lexemes). The CSS selector does not resolve backslash escapes, and
  an id with a double quote throws (a browser parses some such ids as other selectors; the
  page's ids contain no quote). \<^verbatim>\<open>saveStreamRecording\<close>, which the script never
  calls, is modelled for string arguments, which JSON prints as strings. An iframe's load event
  precedes its document's, as the HTML standard orders them. Which targets intersect the
  viewport is the host's geometry: observer entries are inputs, at most one per target in a
  batch, for targets observed when the batch was queued.

  \<^bold>\<open>Not modelled.\<close> Rendering itself: what CSS does with the style values, the
  canvas drawing beyond the values \<^verbatim>\<open>draw\<close> passes to it, and the text form of the
  reals written into style strings (they are kept as numbers); the literal markup of
  cards and placeholders beyond their variable slots; the emoji text of the console lines
  (non-ASCII), which are kept as two constructors. Every statement of the script is
  otherwise in a definition of the map.
\<close>

subsection \<open>Across components: card tilt and reveal\<close>

text \<open>The tilt and the reveal write the same property. A reveal entry replaces a tilt in
  progress by \<^verbatim>\<open>translateY(0)\<close>, and a tilt of a card still hidden replaces its
  30px offset, so the reveal invariant no longer holds once the pointer has moved over a
  hidden card.\<close>

lemma reveal_overrides_tilt:
  "i < length (r_els p) \<Longrightarrow>
   r_transform (r_els (reveal_callback [(i, True)] (card_mousemove i r cx cy p)) ! i) = TText ''translateY(0)''"
  by (simp add: card_mousemove_def reveal_show_def nth_list_update_if)

lemma tilt_breaks_hidden_offset:
  "\<not> reveal_ok demo_els (card_mousemove 0 \<lparr>rect_left = 0, rect_top = 0, rect_width = 100, rect_height = 100\<rparr> 10 10
      (reveal_setup demo_els))"
  by (simp add: reveal_ok_def demo_els_def reveal_setup_def reveal_selected_def reveal_matches_def
      reveal_classes_def reveal_hide_def reveal_show_def card_mousemove_def tilt_target_def io_observe_def io_new_def upt_rec)

subsection \<open>Across components: social-card hover and reveal\<close>

text \<open>The hover listener and the reveal controller both write \<^verbatim>\<open>transition\<close> of a
  social card. The reveal never writes it back, so a card hovered before it is revealed keeps
  the hover's timing through every later batch, and the reveal invariant is lost.\<close>

lemma hover_transition_persists:
  assumes "j < length (r_els p)" "''social-card'' \<in> set (r_classes (r_els p ! j))"
  shows "r_transition (r_els (reveal_callback es (social_mouseenter j p)) ! j) = social_transition"
  using assms by (simp add: reveal_callback_nth social_mouseenter_nth reveal_show_def)

lemma hover_breaks_reveal_ok:
  "\<not> reveal_ok [\<lparr>r_classes = [''social-card''], r_opacity = ''1'', r_transform = TText ''none'', r_transition = ''ease''\<rparr>]
      (social_mouseenter 0 (reveal_setup
        [\<lparr>r_classes = [''social-card''], r_opacity = ''1'', r_transform = TText ''none'', r_transition = ''ease''\<rparr>]))"
  by (simp add: reveal_ok_def reveal_setup_def reveal_selected_def reveal_matches_def reveal_classes_def
      reveal_hide_def reveal_show_def social_mouseenter_def social_transition_def io_observe_def io_new_def)

end
